(* ===== verification/Big_Decimal.thy ===== *)
theory Big_Decimal
  imports Rust_String Complex_Main
begin

text \<open>
  The \<open>bigdecimal\<close> crate as the quantity crate uses it. The crate is not part of the
  repository, so its operations are a record that the quantity definitions take as an
  argument, and the locale \<open>bigdecimal\<close> states its documented behaviour: a value is an
  integer coefficient and a scale, denoting \<open>coefficient * 10 powi (- scale)\<close>. The pairs
  \<open>(coefficient, scale)\<close> with exact arithmetic satisfy the laws (interpretation at the end).
\<close>

record 'b bigdecimal_ops =
  bd_parse :: "string \<Rightarrow> 'b option" \<comment> \<open>\<open>str::parse::<BigDecimal>\<close>\<close>
  bd_new :: "int \<Rightarrow> int \<Rightarrow> 'b"
  bd_parts :: "'b \<Rightarrow> int \<times> int" \<comment> \<open>\<open>as_bigint_and_exponent\<close>\<close>
  bd_from :: "int \<Rightarrow> 'b"
  bd_mul :: "'b \<Rightarrow> nat \<Rightarrow> 'b" \<comment> \<open>\<open>*=\<close> with a \<open>u64\<close>\<close>
  bd_round_up :: "'b \<Rightarrow> int \<Rightarrow> 'b" \<comment> \<open>\<open>with_scale_round(_, RoundingMode::Up)\<close>\<close>
  bd_normalized :: "'b \<Rightarrow> 'b"
  bd_abs :: "'b \<Rightarrow> 'b"
  bd_neg :: "'b \<Rightarrow> 'b"
  bd_less :: "'b \<Rightarrow> 'b \<Rightarrow> bool"
  bd_eq :: "'b \<Rightarrow> 'b \<Rightarrow> bool"
  bd_is_zero :: "'b \<Rightarrow> bool"
  bd_is_negative :: "'b \<Rightarrow> bool"
  bd_is_integer :: "'b \<Rightarrow> bool"
  bd_to_i64 :: "'b \<Rightarrow> int option"

definition i64_max :: int where "i64_max = 9223372036854775807"
definition i64_min :: int where "i64_min = -9223372036854775808"

definition dec :: "int \<Rightarrow> int \<Rightarrow> rat" where
  "dec c s = of_int c * 10 powi (- s)"

definition bd_val :: "('b, 'z) bigdecimal_ops_scheme \<Rightarrow> 'b \<Rightarrow> rat" where
  "bd_val B b = (case bd_parts B b of (c, s) \<Rightarrow> dec c s)"

text \<open>\<open>RoundingMode::Up\<close>: away from zero, to \<open>n\<close> decimal places.\<close>

definition round_away :: "int \<Rightarrow> rat \<Rightarrow> rat" where
  "round_away n x = sgn x * of_int (ceiling (\<bar>x\<bar> * 10 powi n)) * 10 powi (- n)"

text \<open>The sign a decimal literal may start with.\<close>

datatype sign = NoSign | Plus | Minus

fun sign_text :: "sign \<Rightarrow> string" where
  "sign_text NoSign = ''''"
| "sign_text Plus = ''+''"
| "sign_text Minus = ''-''"

fun apply_sign :: "sign \<Rightarrow> int \<Rightarrow> int" where
  "apply_sign Minus n = - n"
| "apply_sign _ n = n"

locale bigdecimal =
  fixes B :: "'b bigdecimal_ops"
  assumes parse_integer: "digits \<noteq> [] \<Longrightarrow> list_all is_ascii_digit digits \<Longrightarrow>
      \<exists>b. bd_parse B (sign_text sg @ digits) = Some b
        \<and> bd_val B b = dec (apply_sign sg (int (nat_of_digits digits))) 0"
    and parse_fraction: "lead @ trail \<noteq> [] \<Longrightarrow> list_all is_ascii_digit (lead @ trail) \<Longrightarrow>
      \<exists>b. bd_parse B (sign_text sg @ lead @ ''.'' @ trail) = Some b
        \<and> bd_val B b = dec (apply_sign sg (int (nat_of_digits (lead @ trail)))) (int (length trail))"
    and parts_new: "bd_parts B (bd_new B c s) = (c, s)"
    and val_from: "bd_val B (bd_from B i) = of_int i"
    and val_mul: "bd_val B (bd_mul B b n) = bd_val B b * of_nat n"
    and val_round_up: "places < snd (bd_parts B b) \<Longrightarrow>
      bd_val B (bd_round_up B b places) = round_away places (bd_val B b)"
    and val_normalized: "bd_val B (bd_normalized B b) = bd_val B b"
    and normalized: "bd_val B b \<noteq> 0 \<Longrightarrow> \<not> 10 dvd fst (bd_parts B (bd_normalized B b))"
    and val_abs: "bd_val B (bd_abs B b) = \<bar>bd_val B b\<bar>"
    and val_neg: "bd_val B (bd_neg B b) = - bd_val B b"
    and less_iff: "bd_less B a b \<longleftrightarrow> bd_val B a < bd_val B b"
    and eq_iff: "bd_eq B a b \<longleftrightarrow> bd_val B a = bd_val B b"
    and is_zero_iff: "bd_is_zero B b \<longleftrightarrow> bd_val B b = 0"
    and is_negative_iff: "bd_is_negative B b \<longleftrightarrow> bd_val B b < 0"
    and is_integer_iff: "bd_is_integer B b \<longleftrightarrow> bd_val B b \<in> \<int>"
    and to_i64_integer: "bd_val B b = of_int i \<Longrightarrow>
      bd_to_i64 B b = (if i64_min \<le> i \<and> i \<le> i64_max then Some i else None)"

subsection \<open>Scaled integers\<close>

lemma dec_0 [simp]: "dec c 0 = of_int c"
  by (simp add: dec_def)

lemma dec_shift: "dec c (s - e) = dec c s * 10 powi e"
  by (simp add: dec_def power_int_add [symmetric])

lemma dec_mult_pow: "dec (c * 10 ^ k) s = dec c (s - int k)"
  by (simp add: dec_def power_int_diff power_int_minus field_simps)

lemma dec_eq_0_iff [simp]: "dec c s = 0 \<longleftrightarrow> c = 0"
  by (simp add: dec_def)

lemma dec_neg_scale: "dec c (- int k) = of_int (c * 10 ^ k)"
  by (simp add: dec_def)

lemma dec_Ints_iff: "dec c s \<in> \<int> \<longleftrightarrow> s \<le> 0 \<or> 10 ^ nat s dvd c"
proof (cases "s \<le> 0")
  case True
  then have "dec c s = of_int (c * 10 ^ nat (- s))"
    using dec_neg_scale [of c "nat (- s)"] by simp
  with True show ?thesis by simp
next
  case False
  then obtain k where s: "s = int k" by (metis nat_le_iff nat_zero_as_int zero_le_imp_eq_int linear)
  have "dec c s * 10 ^ k = of_int c"
    by (simp add: dec_def s power_int_minus field_simps)
  moreover have "dec c s = of_int z \<longleftrightarrow> dec c s * 10 ^ k = of_int z * 10 ^ k" for z
    by simp
  ultimately have "dec c s = of_int z \<longleftrightarrow> (of_int c :: rat) = of_int (z * 10 ^ k)" for z
    by (simp only: of_int_mult of_int_power of_int_numeral)
  then have "dec c s \<in> \<int> \<longleftrightarrow> (\<exists>z. (of_int c :: rat) = of_int (z * 10 ^ k))"
    by (metis Ints_cases Ints_of_int)
  also have "\<dots> \<longleftrightarrow> 10 ^ k dvd c"
    by (simp only: of_int_eq_iff) (auto simp: dvd_def mult.commute)
  finally show ?thesis using False s by simp
qed

text \<open>A coefficient without trailing zeros makes the representation unique.\<close>

lemma dec_unique_le:
  assumes "dec c s = dec d t" "\<not> 10 dvd d" "s \<le> t"
  shows "c = d \<and> s = t"
proof -
  obtain k where t: "t = s + int k" using assms(3) zle_iff_zadd by blast
  have "dec d t = dec d s * 10 powi (- int k)"
    using dec_shift [of d s "- int k"] by (simp add: t)
  with assms(1) have "dec c s * 10 ^ k = dec d s"
    by (simp add: power_int_minus field_simps)
  then have "(of_int (c * 10 ^ k) :: rat) = of_int d"
    by (simp add: dec_def field_simps)
  then have d: "d = c * 10 ^ k" by (simp only: of_int_eq_iff)
  with assms(2) have "k = 0" by (cases k) auto
  with d t show ?thesis by simp
qed

lemma dec_unique:
  assumes "dec c s = dec d t" "\<not> 10 dvd c" "\<not> 10 dvd d"
  shows "c = d \<and> s = t"
  using dec_unique_le [of c s d t] dec_unique_le [of d t c s] assms by fastforce

lemma round_away_id:
  assumes "x * 10 powi n \<in> \<int>"
  shows "round_away n x = x"
proof -
  from assms obtain z where z: "x * 10 powi n = of_int z" by (auto elim: Ints_cases)
  have "\<bar>x\<bar> * 10 powi n = of_int \<bar>z\<bar>"
    using z by (metis abs_mult abs_of_nonneg of_int_abs zero_le_numeral zero_le_power_int)
  then have "round_away n x = sgn x * \<bar>x\<bar> * (10 powi n * 10 powi (- n))"
    by (metis ceiling_of_int mult.assoc round_away_def)
  also have "10 powi n * 10 powi (- n) = (1 :: rat)"
    by (simp add: power_int_minus)
  finally show ?thesis by (simp add: sgn_mult_abs)
qed

lemma round_away_Ints: "round_away n x * 10 powi n \<in> \<int>"
proof -
  have "round_away n x * 10 powi n = sgn x * of_int (ceiling (\<bar>x\<bar> * 10 powi n))"
    by (simp add: round_away_def power_int_minus)
  moreover have "sgn x \<in> \<int>" by (simp add: sgn_if)
  ultimately show ?thesis by simp
qed

end
