(* ===== verification/Rust_BTree.thy ===== *)
theory Rust_BTree
  imports Prelude
begin

text \<open>
  \<open>BTreeMap\<close> and \<open>BTreeSet\<close> of the standard library: association lists with strictly
  increasing keys, so that iteration order is the list order, as it is in Rust. The locale
  \<open>ordered_map\<close> is the interface the other components rely on (what a lookup returns after
  an insertion or a removal, and that iteration is sorted and without repetition); its
  interpretation discharges the laws for the list model.
\<close>

type_synonym ('k, 'v) btree = "('k \<times> 'v) list"

definition bt_ok :: "('k::linorder, 'v) btree \<Rightarrow> bool" where
  "bt_ok m \<longleftrightarrow> sorted_wrt (<) (map fst m)"

definition bt_lookup :: "('k, 'v) btree \<Rightarrow> 'k \<Rightarrow> 'v option" where
  "bt_lookup m = map_of m"

fun bt_insert :: "'k::linorder \<Rightarrow> 'v \<Rightarrow> ('k, 'v) btree \<Rightarrow> ('k, 'v) btree" where
  "bt_insert k v [] = [(k, v)]"
| "bt_insert k v ((a, b) # m) =
     (if k < a then (k, v) # (a, b) # m
      else if k = a then (k, v) # m
      else (a, b) # bt_insert k v m)"

fun bt_remove :: "'k::linorder \<Rightarrow> ('k, 'v) btree \<Rightarrow> ('k, 'v) btree" where
  "bt_remove k [] = []"
| "bt_remove k ((a, b) # m) = (if k = a then m else (a, b) # bt_remove k m)"

text \<open>\<open>into_iter().collect::<BTreeMap<_, _>>()\<close>: a later pair replaces an earlier one.\<close>

definition bt_collect :: "('k::linorder \<times> 'v) list \<Rightarrow> ('k, 'v) btree" where
  "bt_collect xs = fold (\<lambda>(k, v). bt_insert k v) xs []"

definition bt_map_values :: "('v \<Rightarrow> 'w) \<Rightarrow> ('k, 'v) btree \<Rightarrow> ('k, 'w) btree" where
  "bt_map_values f m = map (\<lambda>(k, v). (k, f v)) m"

subsection \<open>Association lists without repeated keys\<close>

lemma map_of_rev_distinct:
  assumes "distinct (map fst xs)"
  shows "map_of (rev xs) k = map_of xs k"
proof (cases "map_of xs k")
  case None
  then have "map_of (rev xs) k = None" by (simp add: map_of_eq_None_iff)
  with None show ?thesis by simp
next
  case (Some v)
  with assms show ?thesis by (simp add: map_of_eq_Some_iff rev_map [symmetric])
qed

lemma alist_eq_keys_lookup:
  "distinct (map fst xs) \<Longrightarrow> xs = map (\<lambda>k. (k, the (map_of xs k))) (map fst xs)"
proof (induction xs)
  case (Cons x xs)
  have "map (\<lambda>k. (k, the (map_of (x # xs) k))) (map fst xs)
    = map (\<lambda>k. (k, the (map_of xs k))) (map fst xs)"
  proof (intro map_cong refl)
    fix k
    assume "k \<in> set (map fst xs)"
    moreover from Cons.prems have "fst x \<notin> set (map fst xs)" by simp
    ultimately have "k \<noteq> fst x" by metis
    then show "(k, the (map_of (x # xs) k)) = (k, the (map_of xs k))" by simp
  qed
  with Cons show ?case by (cases x) simp
qed simp

lemma alist_ext:
  assumes "distinct (map fst xs)" "map fst xs = map fst ys" "map_of xs = map_of ys"
  shows "xs = ys"
  using assms alist_eq_keys_lookup [of xs] alist_eq_keys_lookup [of ys] by metis

subsection \<open>The interface\<close>

locale ordered_map =
  fixes empty :: 'm
    and lookup :: "'m \<Rightarrow> 'k::linorder \<Rightarrow> 'v option"
    and insert :: "'k \<Rightarrow> 'v \<Rightarrow> 'm \<Rightarrow> 'm"
    and remove :: "'k \<Rightarrow> 'm \<Rightarrow> 'm"
    and entries :: "'m \<Rightarrow> ('k \<times> 'v) list"
    and ok :: "'m \<Rightarrow> bool"
  assumes ok_empty: "ok empty"
    and ok_insert: "ok m \<Longrightarrow> ok (insert k v m)"
    and ok_remove: "ok m \<Longrightarrow> ok (remove k m)"
    and lookup_empty: "lookup empty k = None"
    and lookup_insert: "ok m \<Longrightarrow> lookup (insert k v m) j = (if j = k then Some v else lookup m j)"
    and lookup_remove: "ok m \<Longrightarrow> lookup (remove k m) j = (if j = k then None else lookup m j)"
    and sorted_entries: "ok m \<Longrightarrow> sorted_wrt (<) (map fst (entries m))"
    and entries_lookup: "ok m \<Longrightarrow> (k, v) \<in> set (entries m) \<longleftrightarrow> lookup m k = Some v"
begin

definition collect :: "('k \<times> 'v) list \<Rightarrow> 'm" where
  "collect xs = fold (\<lambda>(k, v). insert k v) xs empty"

lemma ok_fold: "ok m \<Longrightarrow> ok (fold (\<lambda>(k, v). insert k v) xs m)"
  by (induction xs arbitrary: m) (auto simp: ok_insert)

lemma lookup_fold:
  "ok m \<Longrightarrow> lookup (fold (\<lambda>(k, v). insert k v) xs m) j =
     (case map_of (rev xs) j of None \<Rightarrow> lookup m j | Some v \<Rightarrow> Some v)"
proof (induction xs arbitrary: m)
  case (Cons x xs)
  then show ?case
    by (cases x) (auto simp: ok_insert lookup_insert map_add_def split: option.splits)
qed simp

lemma ok_collect: "ok (collect xs)"
  by (simp add: collect_def ok_fold ok_empty)

lemma lookup_collect: "lookup (collect xs) j = map_of (rev xs) j"
  by (simp add: collect_def lookup_fold ok_empty lookup_empty split: option.splits)

lemma lookup_collect_distinct:
  "distinct (map fst xs) \<Longrightarrow> lookup (collect xs) j = map_of xs j"
  by (simp add: lookup_collect map_of_rev_distinct)

lemma distinct_entries: "ok m \<Longrightarrow> distinct (map fst (entries m))"
  by (rule sorted_wrt_less_distinct [OF sorted_entries])

lemma map_of_entries: "ok m \<Longrightarrow> map_of (entries m) k = lookup m k"
  by (cases "lookup m k") (auto simp: entries_lookup distinct_entries map_of_eq_None_iff)

lemma entries_ext:
  assumes "ok m" "ok m'" "\<And>k. lookup m k = lookup m' k"
  shows "entries m = entries m'"
proof -
  have dom: "set (map fst (entries x)) = {k. lookup x k \<noteq> None}" if "ok x" for x
    using entries_lookup [OF that] by force
  have "map fst (entries m) = map fst (entries m')"
    using assms sorted_entries dom by (intro sorted_wrt_less_unique) auto
  moreover have "map_of (entries m) = map_of (entries m')"
    using assms by (simp add: fun_eq_iff map_of_entries)
  ultimately show ?thesis
    using distinct_entries [OF assms(1)] by (intro alist_ext) auto
qed

end

subsection \<open>The list model provides it\<close>

lemma bt_ok_Nil [simp]: "bt_ok []"
  by (simp add: bt_ok_def)

lemma set_bt_insert_keys: "set (map fst (bt_insert k v m)) = insert k (set (map fst m))"
  by (induction k v m rule: bt_insert.induct) auto

lemma set_bt_remove: "set (bt_remove k m) \<subseteq> set m"
  by (induction k m rule: bt_remove.induct) auto

lemma bt_ok_insert: "bt_ok m \<Longrightarrow> bt_ok (bt_insert k v m)"
  unfolding bt_ok_def
proof (induction k v m rule: bt_insert.induct)
  case (2 k v a b m)
  then show ?case using set_bt_insert_keys [of k v m] by auto
qed simp

lemma bt_ok_remove: "bt_ok m \<Longrightarrow> bt_ok (bt_remove k m)"
  unfolding bt_ok_def
proof (induction k m rule: bt_remove.induct)
  case (2 k a b m)
  then show ?case using set_bt_remove [of k m] by auto
qed simp

lemma bt_lookup_insert: "bt_lookup (bt_insert k v m) j = (if j = k then Some v else bt_lookup m j)"
  by (induction k v m rule: bt_insert.induct) (auto simp: bt_lookup_def)

lemma bt_lookup_remove:
  "bt_ok m \<Longrightarrow> bt_lookup (bt_remove k m) j = (if j = k then None else bt_lookup m j)"
  unfolding bt_ok_def bt_lookup_def
proof (induction k m rule: bt_remove.induct)
  case (2 k a b m)
  then have "a \<notin> fst ` set m" by auto
  then have "map_of m a = None" by (simp add: map_of_eq_None_iff)
  with 2 show ?case by auto
qed simp

lemma bt_ok_distinct: "bt_ok m \<Longrightarrow> distinct (map fst m)"
  by (simp add: bt_ok_def sorted_wrt_less_distinct)

interpretation bt: ordered_map "[]" bt_lookup bt_insert bt_remove "\<lambda>m. m" bt_ok
proof unfold_locales
  fix m :: "('a \<times> 'b) list" and k v
  assume "bt_ok m"
  then show "(k, v) \<in> set m \<longleftrightarrow> bt_lookup m k = Some v"
    by (simp add: bt_lookup_def bt_ok_distinct)
next
  fix m :: "('a \<times> 'b) list" and k v
  assume "bt_ok m"
  then show "bt_ok (bt_insert k v m)" by (rule bt_ok_insert)
next
  fix m :: "('a \<times> 'b) list" and k
  assume "bt_ok m"
  then show "bt_ok (bt_remove k m)" by (rule bt_ok_remove)
qed (simp_all add: bt_lookup_insert bt_lookup_remove, simp_all add: bt_lookup_def bt_ok_def)

lemma bt_collect_eq: "bt_collect xs = bt.collect xs"
  by (simp add: bt_collect_def bt.collect_def)

lemma bt_ok_collect [simp]: "bt_ok (bt_collect xs)"
  by (simp add: bt_collect_eq bt.ok_collect)

lemma bt_lookup_collect: "bt_lookup (bt_collect xs) k = map_of (rev xs) k"
  by (simp add: bt_collect_eq bt.lookup_collect)

lemma bt_lookup_Nil [simp]: "bt_lookup [] k = None"
  by (simp add: bt_lookup_def)

lemma bt_keys_map_values [simp]: "map fst (bt_map_values f m) = map fst m"
  by (induction m) (auto simp: bt_map_values_def)

lemma bt_ok_map_values [simp]: "bt_ok (bt_map_values f m) = bt_ok m"
  by (simp add: bt_ok_def)

lemma bt_lookup_map_values: "bt_lookup (bt_map_values f m) k = map_option f (bt_lookup m k)"
  by (induction m) (auto simp: bt_map_values_def bt_lookup_def)

lemma bt_lookup_in: "bt_lookup m k = Some v \<Longrightarrow> (k, v) \<in> set m"
  by (simp add: bt_lookup_def map_of_SomeD)

lemma bt_lookup_None: "bt_lookup m k = None \<longleftrightarrow> k \<notin> fst ` set m"
  by (simp add: bt_lookup_def map_of_eq_None_iff)

lemma bt_mem_iff: "bt_ok m \<Longrightarrow> (k, v) \<in> set m \<longleftrightarrow> bt_lookup m k = Some v"
  by (simp add: bt_lookup_def bt_ok_distinct)

text \<open>\<open>retain\<close> on the values.\<close>

lemma bt_ok_filter: "bt_ok m \<Longrightarrow> bt_ok (filter P m)"
  unfolding bt_ok_def
proof (induction m)
  case (Cons x m)
  then show ?case by (auto simp: sorted_wrt_map split: prod.splits)
qed simp

lemma bt_lookup_filter:
  "bt_ok m \<Longrightarrow> bt_lookup (filter (\<lambda>(k, v). P v) m) k = Some v \<longleftrightarrow> bt_lookup m k = Some v \<and> P v"
  using bt_ok_distinct [of m] bt_ok_distinct [OF bt_ok_filter, of m "\<lambda>(k, v). P v"]
  by (auto simp: bt_lookup_def map_of_eq_Some_iff)

end
