(* ===== verification/Quantity_Grammar.thy ===== *)
theory Quantity_Grammar
  imports Quantity
begin

text \<open>
  The specification of quantity parsing: literals as abstract syntax, their text and their
  rational value, and the proof that the byte scanner of \<open>from_str\<close> accepts the texts of
  well-formed literals and nothing else, with that value.
\<close>

subsection \<open>Literals\<close>

datatype unit_suffix = DecUnit nat | BinUnit nat | ExpUnit bool string

datatype literal = Literal sign string "string option" unit_suffix

fun unit_ok :: "unit_suffix \<Rightarrow> bool" where
  "unit_ok (DecUnit k) \<longleftrightarrow> k < 10"
| "unit_ok (BinUnit k) \<longleftrightarrow> k < 6"
| "unit_ok (ExpUnit upper t) \<longleftrightarrow> parse_i32 t \<noteq> None"

fun unit_text :: "unit_suffix \<Rightarrow> string" where
  "unit_text (DecUnit k) = DECIMAL_SUFFIXES ! k"
| "unit_text (BinUnit k) = BINARY_SUFFIXES ! k"
| "unit_text (ExpUnit upper t) = (if upper then CHR ''E'' else CHR ''e'') # t"

fun unit_factor :: "unit_suffix \<Rightarrow> rat" where
  "unit_factor (DecUnit k) = 10 powi (3 * (int k - 3))"
| "unit_factor (BinUnit k) = 2 ^ (10 * (k + 1))"
| "unit_factor (ExpUnit upper t) = 10 powi (the (parse_i32 t))"

fun unit_format :: "unit_suffix \<Rightarrow> qformat" where
  "unit_format (DecUnit k) = DecimalSI"
| "unit_format (BinUnit k) = BinarySI"
| "unit_format (ExpUnit upper t) = DecimalExponent"

definition fraction_digits :: "string option \<Rightarrow> string" where
  "fraction_digits f = (case f of None \<Rightarrow> [] | Some t \<Rightarrow> t)"

definition fraction_text :: "string option \<Rightarrow> string" where
  "fraction_text f = (case f of None \<Rightarrow> [] | Some t \<Rightarrow> CHR ''.'' # t)"

definition digits_ok :: "string \<Rightarrow> string option \<Rightarrow> bool" where
  "digits_ok i f \<longleftrightarrow> list_all is_ascii_digit (i @ fraction_digits f) \<and> i @ fraction_digits f \<noteq> []"

definition number_value :: "sign \<Rightarrow> string \<Rightarrow> string option \<Rightarrow> rat" where
  "number_value sg i f =
     dec (apply_sign sg (int (nat_of_digits (i @ fraction_digits f)))) (int (length (fraction_digits f)))"

fun literal_ok :: "literal \<Rightarrow> bool" where
  "literal_ok (Literal sg i f u) \<longleftrightarrow> digits_ok i f \<and> unit_ok u"

fun literal_text :: "literal \<Rightarrow> string" where
  "literal_text (Literal sg i f u) = sign_text sg @ i @ fraction_text f @ unit_text u"

definition saturate :: "rat \<Rightarrow> rat" where
  "saturate x = max (- of_int i64_max) (min (of_int i64_max) x)"

text \<open>Exact value, rounded away from zero to nano precision, binary units saturated.\<close>

fun literal_value :: "literal \<Rightarrow> rat" where
  "literal_value (Literal sg i f u) =
     (let x = round_away 9 (number_value sg i f * unit_factor u)
      in if unit_format u = BinarySI then saturate x else x)"

subsection \<open>The scanner\<close>

lemma scan_digits_eq: "scan_digits s i = i + length (takeWhile is_ascii_digit (drop i s))"
proof (induction s i rule: scan_digits.induct)
  case (1 s i)
  show ?case
  proof (cases "i < length s")
    case True
    then have "drop i s = s ! i # drop (Suc i) s" by (simp add: Cons_nth_drop_Suc)
    with 1 True show ?thesis by (subst scan_digits.simps) auto
  next
    case False
    then show ?thesis by (subst scan_digits.simps) simp
  qed
qed

definition no_digit :: "string \<Rightarrow> bool" where
  "no_digit r \<longleftrightarrow> (case r of [] \<Rightarrow> True | c # _ \<Rightarrow> \<not> is_ascii_digit c)"

lemma takeWhile_digits:
  "list_all is_ascii_digit ds \<Longrightarrow> no_digit r \<Longrightarrow> takeWhile is_ascii_digit (ds @ r) = ds"
  by (induction ds) (auto simp: no_digit_def split: list.splits)

lemma scan_digits_append:
  "list_all is_ascii_digit ds \<Longrightarrow> no_digit r \<Longrightarrow> scan_digits (p @ ds @ r) (length p) = length p + length ds"
  by (simp add: scan_digits_eq takeWhile_digits)

lemma not_digit_chars [simp]:
  "\<not> is_ascii_digit (CHR ''+'')" "\<not> is_ascii_digit (CHR ''-'')" "\<not> is_ascii_digit (CHR ''.'')"
  "\<not> is_ascii_digit (CHR ''e'')" "\<not> is_ascii_digit (CHR ''E'')"
  by (simp_all add: is_ascii_digit_def)

text \<open>The remainder after the number: no digit, and no point unless a fraction was read.\<close>

definition remainder_ok :: "string option \<Rightarrow> string \<Rightarrow> bool" where
  "remainder_ok f r \<longleftrightarrow> no_digit r \<and> (f = None \<longrightarrow> (\<forall>t. r \<noteq> CHR ''.'' # t))"

definition unsigned_start :: "sign \<Rightarrow> string \<Rightarrow> bool" where
  "unsigned_start sg s \<longleftrightarrow>
     (sg = NoSign \<longrightarrow> (case s of [] \<Rightarrow> True | c # _ \<Rightarrow> c \<noteq> CHR ''+'' \<and> c \<noteq> CHR ''-''))"

lemma start_index:
  "unsigned_start sg s \<Longrightarrow>
    (case sign_text sg @ s of c # _ \<Rightarrow> if c = CHR ''+'' \<or> c = CHR ''-'' then 1 else 0 | [] \<Rightarrow> 0)
      = length (sign_text sg)"
  by (cases sg) (auto simp: unsigned_start_def split: list.splits)

lemma from_str_split:
  assumes "list_all is_ascii_digit i" "list_all is_ascii_digit (fraction_digits f)"
    and rem: "remainder_ok f r" and start: "unsigned_start sg (i @ fraction_text f @ r)"
    and input: "input = sign_text sg @ i @ fraction_text f @ r"
  shows "quantity_from_str B input =
    (if i @ fraction_digits f = [] then Inl (QuantityParseError input)
     else res_bind (ok_or (QuantityParseError input)
         (bd_parse B (sign_text sg @ i @ fraction_text f)))
       (\<lambda>value. res_bind (apply_suffix B input value r)
         (\<lambda>(value, format). Inr (finish_quantity B value format))))"
proof -
  define p n where "p = sign_text sg @ i" and "n = length p"
  have input': "input = p @ fraction_text f @ r" by (simp add: input p_def)
  have first: "(case input of [] \<Rightarrow> 0 | c # _ \<Rightarrow> if c = CHR ''+'' \<or> c = CHR ''-'' then 1 else 0)
      = length (sign_text sg)"
    using start_index [OF start] by (simp add: input)
  have "no_digit (fraction_text f @ r)"
    using rem by (auto simp: remainder_ok_def no_digit_def fraction_text_def split: option.splits)
  then have scan: "scan_digits input (length (sign_text sg)) = n"
    using assms(1) by (simp add: input scan_digits_append n_def p_def)
  have ints: "n - length (sign_text sg) = length i" by (simp add: n_def p_def)
  show ?thesis
  proof (cases f)
    case None
    have no_point: "(n < length input \<and> input ! n = CHR ''.'') = False"
      using rem by (cases r) (auto simp: input' n_def None fraction_text_def remainder_ok_def)
    have "take n input = p" "drop n input = r"
      by (simp_all add: input' n_def None fraction_text_def)
    then show ?thesis
      unfolding quantity_from_str_def first scan Let_def ints no_point
      by (simp add: None fraction_text_def fraction_digits_def p_def)
  next
    case (Some t)
    have point: "(n < length input \<and> input ! n = CHR ''.'') = True"
      by (simp add: input' n_def Some fraction_text_def)
    have "scan_digits ((p @ ''.'') @ t @ r) (length (p @ ''.'')) = length (p @ ''.'') + length t"
      using assms(2) rem
      by (intro scan_digits_append) (simp_all add: Some fraction_digits_def remainder_ok_def)
    then have scan2: "scan_digits input (n + 1) = n + 1 + length t"
      by (simp add: input' n_def Some fraction_text_def)
    have "take (n + 1 + length t) input = p @ CHR ''.'' # t" "drop (n + 1 + length t) input = r"
      by (simp_all add: input' n_def Some fraction_text_def)
    then show ?thesis
      unfolding quantity_from_str_def first scan Let_def ints point if_True scan2 prod.case
      by (simp add: Some fraction_text_def fraction_digits_def p_def)
  qed
qed

subsection \<open>Suffixes\<close>

lemma position_Some: "position P xs = Some k \<Longrightarrow> k < length xs \<and> P (xs ! k)"
  by (induction xs arbitrary: k) (auto split: if_splits)

lemma position_None: "position P xs = None \<longleftrightarrow> (\<forall>x \<in> set xs. \<not> P x)"
  by (induction xs) auto

lemma position_nth:
  "distinct xs \<Longrightarrow> k < length xs \<Longrightarrow> position (\<lambda>u. u = xs ! k) xs = Some k"
proof (induction xs arbitrary: k)
  case (Cons x xs)
  then show ?case by (cases k) auto
qed simp

lemma length_suffixes [simp]: "length DECIMAL_SUFFIXES = 10" "length BINARY_SUFFIXES = 6"
  by (simp_all add: DECIMAL_SUFFIXES_def BINARY_SUFFIXES_def)

lemma distinct_suffixes: "distinct DECIMAL_SUFFIXES" "distinct BINARY_SUFFIXES"
  by (simp_all add: DECIMAL_SUFFIXES_def BINARY_SUFFIXES_def)

lemma binary_not_decimal: "u \<in> set BINARY_SUFFIXES \<Longrightarrow> u \<notin> set DECIMAL_SUFFIXES"
  by (auto simp: DECIMAL_SUFFIXES_def BINARY_SUFFIXES_def)

lemma parse_i32_neq:
  assumes "parse_i32 t = Some e"
  shows "t \<noteq> []" "t \<noteq> ''i''"
  using assms by (auto simp: parse_i32_def is_ascii_digit_def split: if_splits)

lemma exponent_not_suffix:
  assumes "parse_i32 t = Some e" "c = CHR ''e'' \<or> c = CHR ''E''"
  shows "c # t \<notin> set DECIMAL_SUFFIXES" "c # t \<notin> set BINARY_SUFFIXES"
  using parse_i32_neq [OF assms(1)] assms(2)
  by (auto simp: DECIMAL_SUFFIXES_def BINARY_SUFFIXES_def)

lemma apply_suffix_dec:
  "k < 10 \<Longrightarrow> apply_suffix B input v (DECIMAL_SUFFIXES ! k) =
     Inr (bd_new B (fst (bd_parts B v)) (snd (bd_parts B v) - (int k - 3) * 3), DecimalSI)"
  by (simp add: apply_suffix_def position_nth distinct_suffixes split_beta Let_def)

lemma apply_suffix_bin:
  assumes "k < 6"
  shows "apply_suffix B input v (BINARY_SUFFIXES ! k) =
     Inr (bd_mul B v (2 ^ ((k + 1) * 10)), BinarySI)"
proof -
  have "BINARY_SUFFIXES ! k \<notin> set DECIMAL_SUFFIXES"
    using assms by (intro binary_not_decimal nth_mem) simp
  then have "position (\<lambda>u. u = BINARY_SUFFIXES ! k) DECIMAL_SUFFIXES = None"
    by (auto simp: position_None)
  then show ?thesis using assms by (simp add: apply_suffix_def position_nth distinct_suffixes)
qed

lemma apply_suffix_exp:
  assumes "parse_i32 t = Some e" "c = CHR ''e'' \<or> c = CHR ''E''"
  shows "apply_suffix B input v (c # t) =
     Inr (bd_new B (fst (bd_parts B v)) (snd (bd_parts B v) - e), DecimalExponent)"
proof -
  have "position (\<lambda>u. u = c # t) DECIMAL_SUFFIXES = None" "position (\<lambda>u. u = c # t) BINARY_SUFFIXES = None"
    using exponent_not_suffix [OF assms] by (auto simp: position_None)
  with assms show ?thesis
    by (auto simp: apply_suffix_def strip_exponent_def split_beta Let_def)
qed

lemma apply_suffix_unit:
  assumes "apply_suffix B input v r = Inr p"
  shows "\<exists>u. unit_ok u \<and> r = unit_text u"
proof (cases "position (\<lambda>u. u = r) DECIMAL_SUFFIXES")
  case (Some k)
  then have "unit_ok (DecUnit k) \<and> r = unit_text (DecUnit k)"
    using position_Some [OF Some] by simp
  then show ?thesis by blast
next
  case dec: None
  show ?thesis
  proof (cases "position (\<lambda>u. u = r) BINARY_SUFFIXES")
    case (Some k)
    then have "unit_ok (BinUnit k) \<and> r = unit_text (BinUnit k)"
      using position_Some [OF Some] by simp
    then show ?thesis by blast
  next
    case None
    with dec assms obtain t where t: "strip_exponent r = Some t" "parse_i32 t \<noteq> None"
      by (auto simp: apply_suffix_def split: option.splits)
    then obtain c where "r = c # t" "c = CHR ''e'' \<or> c = CHR ''E''"
      by (auto simp: strip_exponent_def split: list.splits if_splits)
    with t have "unit_ok (ExpUnit (c = CHR ''E'') t) \<and> r = unit_text (ExpUnit (c = CHR ''E'') t)"
      by auto
    then show ?thesis by blast
  qed
qed

lemma suffix_remainder: "u \<in> set DECIMAL_SUFFIXES \<union> set BINARY_SUFFIXES \<Longrightarrow> remainder_ok f u"
  by (auto simp: DECIMAL_SUFFIXES_def BINARY_SUFFIXES_def remainder_ok_def no_digit_def
      is_ascii_digit_def)

lemma unit_remainder:
  assumes "unit_ok u"
  shows "remainder_ok f (unit_text u)"
proof (cases u)
  case (DecUnit k)
  then have "unit_text u \<in> set DECIMAL_SUFFIXES" using assms by simp
  then show ?thesis by (intro suffix_remainder) simp
next
  case (BinUnit k)
  then have "unit_text u \<in> set BINARY_SUFFIXES" using assms by simp
  then show ?thesis by (intro suffix_remainder) simp
qed (auto simp: remainder_ok_def no_digit_def)

lemma number_start:
  assumes "digits_ok i f"
  shows "unsigned_start sg (i @ fraction_text f @ r)"
proof (cases i)
  case (Cons c cs)
  then have "is_ascii_digit c" using assms by (simp add: digits_ok_def)
  then have "c \<noteq> CHR ''+''" "c \<noteq> CHR ''-''" by auto
  then show ?thesis using Cons by (simp add: unsigned_start_def)
next
  case Nil
  with assms obtain t where "f = Some t"
    by (auto simp: digits_ok_def fraction_digits_def split: option.splits)
  then show ?thesis using Nil by (simp add: unsigned_start_def fraction_text_def)
qed

subsection \<open>Soundness: what the scanner accepts is a literal\<close>

lemma no_digit_dropWhile: "no_digit (dropWhile is_ascii_digit s)"
  by (induction s) (auto simp: no_digit_def)

lemma split_number:
  "\<exists>i f r. s = i @ fraction_text f @ r \<and> list_all is_ascii_digit i
     \<and> list_all is_ascii_digit (fraction_digits f) \<and> remainder_ok f r"
proof -
  let ?i = "takeWhile is_ascii_digit s" and ?r = "dropWhile is_ascii_digit s"
  have i: "list_all is_ascii_digit ?i" by (auto simp: list_all_iff dest: set_takeWhileD)
  show ?thesis
  proof (cases "\<exists>t. ?r = CHR ''.'' # t")
    case True
    then obtain t where t: "?r = CHR ''.'' # t" by blast
    let ?f = "takeWhile is_ascii_digit t"
    have "list_all is_ascii_digit ?f" by (auto simp: list_all_iff dest: set_takeWhileD)
    moreover have "s = ?i @ fraction_text (Some ?f) @ dropWhile is_ascii_digit t"
      by (simp add: fraction_text_def) (metis t takeWhile_dropWhile_id)
    ultimately show ?thesis using i
      by (intro exI [of _ ?i] exI [of _ "Some ?f"] exI [of _ "dropWhile is_ascii_digit t"])
        (simp add: fraction_digits_def remainder_ok_def no_digit_dropWhile)
  next
    case False
    then show ?thesis using i
      by (intro exI [of _ ?i] exI [of _ None] exI [of _ ?r])
        (simp add: fraction_digits_def fraction_text_def remainder_ok_def no_digit_dropWhile)
  qed
qed

lemma split_sign_start: "\<exists>sg s. input = sign_text sg @ s \<and> unsigned_start sg s"
proof (cases input)
  case Nil
  then show ?thesis by (intro exI [of _ NoSign] exI [of _ "[]"]) (simp add: unsigned_start_def)
next
  case (Cons c cs)
  consider "c = CHR ''+''" | "c = CHR ''-''" | "c \<noteq> CHR ''+''" "c \<noteq> CHR ''-''" by blast
  then show ?thesis
  proof cases
    case 1
    with Cons show ?thesis by (intro exI [of _ Plus] exI [of _ cs]) (simp add: unsigned_start_def)
  next
    case 2
    with Cons show ?thesis by (intro exI [of _ Minus] exI [of _ cs]) (simp add: unsigned_start_def)
  next
    case 3
    with Cons show ?thesis
      by (intro exI [of _ NoSign] exI [of _ "c # cs"]) (simp add: unsigned_start_def)
  qed
qed

lemma from_str_literal:
  assumes "quantity_from_str B input = Inr q"
  shows "\<exists>l. literal_ok l \<and> input = literal_text l"
proof -
  obtain sg s where s: "input = sign_text sg @ s" "unsigned_start sg s"
    using split_sign_start [of input] by blast
  obtain i f r where parts: "s = i @ fraction_text f @ r" "list_all is_ascii_digit i"
      "list_all is_ascii_digit (fraction_digits f)" "remainder_ok f r"
    using split_number [of s] by blast
  then have "quantity_from_str B input =
    (if i @ fraction_digits f = [] then Inl (QuantityParseError input)
     else res_bind (ok_or (QuantityParseError input)
         (bd_parse B (sign_text sg @ i @ fraction_text f)))
       (\<lambda>value. res_bind (apply_suffix B input value r)
         (\<lambda>(value, format). Inr (finish_quantity B value format))))"
    using s by (intro from_str_split) simp_all
  with assms obtain v p where ne: "i @ fraction_digits f \<noteq> []"
    and "apply_suffix B input v r = Inr p"
    by (auto simp: res_simps split: if_splits)
  then obtain u where "unit_ok u" "r = unit_text u" by (blast dest: apply_suffix_unit)
  with parts s ne have "literal_ok (Literal sg i f u) \<and> input = literal_text (Literal sg i f u)"
    by (simp add: digits_ok_def)
  then show ?thesis by blast
qed

end
