(* ===== verification/Quantity_Correct.thy ===== *)
theory Quantity_Correct
  imports Quantity_Grammar
begin

text \<open>
  Correctness of quantities under the \<open>bigdecimal\<close> laws: the value a literal parses to, the
  well-formedness invariant every constructor establishes, totality of the wire formatting,
  the round trip, and that \<open>canonical_decimal\<close> decides numeric equality. The lemmas about the
  interface are proved once in the context of the locale.
\<close>

definition nano_exact :: "rat \<Rightarrow> bool" where
  "nano_exact x \<longleftrightarrow> x * 10 powi 9 \<in> \<int>"

definition quantity_ok :: "'b bigdecimal_ops \<Rightarrow> 'b quantity \<Rightarrow> bool" where
  "quantity_ok B q \<longleftrightarrow>
     nano_exact (bd_val B (q_value q))
     \<and> (q_format q = BinarySI \<longrightarrow> \<bar>bd_val B (q_value q)\<bar> \<le> of_int i64_max)"

text \<open>The decimal exponent of the value without trailing zeros fits \<open>i32\<close>.\<close>

definition exponent_fits :: "'b bigdecimal_ops \<Rightarrow> 'b quantity \<Rightarrow> bool" where
  "exponent_fits B q \<longleftrightarrow> - snd (bd_parts B (bd_normalized B (q_value q))) \<le> 2147483647"

subsection \<open>Rounding and saturation\<close>

lemma nano_exact_round: "nano_exact (round_away 9 x)"
  unfolding nano_exact_def by (rule round_away_Ints)

lemma round_nano_exact: "nano_exact x \<Longrightarrow> round_away 9 x = x"
  unfolding nano_exact_def by (rule round_away_id)

lemma nano_exact_of_int: "nano_exact (of_int i)"
  by (simp add: nano_exact_def)

lemma nano_exact_saturate: "nano_exact x \<Longrightarrow> nano_exact (saturate x)"
  using nano_exact_of_int [of i64_max] nano_exact_of_int [of "- i64_max"]
  by (auto simp: saturate_def max_def min_def)

lemma abs_saturate: "\<bar>saturate x\<bar> \<le> of_int i64_max"
  by (simp add: saturate_def i64_max_def)

lemma saturate_id: "\<bar>x\<bar> \<le> of_int i64_max \<Longrightarrow> saturate x = x"
  by (simp add: saturate_def abs_le_iff max_def min_def)

lemma nano_exact_scale: "nano_exact (dec c s) \<Longrightarrow> \<not> 10 dvd c \<Longrightarrow> s \<le> 9"
proof (rule ccontr)
  assume "nano_exact (dec c s)" "\<not> 10 dvd c" "\<not> s \<le> 9"
  moreover have "dec c s * 10 powi 9 = dec c (s - 9)" by (rule dec_shift [symmetric])
  ultimately have "10 ^ nat (s - 9) dvd c" by (simp only: nano_exact_def dec_Ints_iff) auto
  moreover obtain k where "nat (s - 9) = Suc k" using \<open>\<not> s \<le> 9\<close> by (cases "nat (s - 9)") auto
  ultimately show False using \<open>\<not> 10 dvd c\<close> by (metis dvd_mult_left power_Suc)
qed

subsection \<open>Printed numbers\<close>

lemma nat_of_digits_zeros: "nat_of_digits (s @ replicate k (CHR ''0'')) = nat_of_digits s * 10 ^ k"
proof (induction k)
  case (Suc k)
  have "nat_of_digits ((s @ replicate k (CHR ''0'')) @ [CHR ''0''])
      = 10 * nat_of_digits (s @ replicate k (CHR ''0''))"
    by (simp only: nat_of_digits_snoc) (simp add: digit_value_def)
  with Suc show ?case by (simp add: replicate_append_same [symmetric])
qed simp

lemma list_all_show_zeros: "list_all is_ascii_digit (show_nat n @ replicate k (CHR ''0''))"
  using show_nat_digits by (auto simp: list_all_iff is_ascii_digit_def)

definition int_sign :: "int \<Rightarrow> sign" where
  "int_sign c = (if c < 0 then Minus else NoSign)"

lemma show_int_sign: "show_int c = sign_text (int_sign c) @ show_nat (nat \<bar>c\<bar>)"
  by (simp add: show_int_def int_sign_def)

lemma digits_ok_show: "digits_ok (show_nat n @ replicate k (CHR ''0'')) None"
  using list_all_show_zeros by (simp add: digits_ok_def fraction_digits_def)

lemma number_value_show:
  "number_value (int_sign c) (show_nat (nat \<bar>c\<bar>) @ replicate k (CHR ''0'')) None = of_int (c * 10 ^ k)"
proof -
  have "int (nat_of_digits (show_nat (nat \<bar>c\<bar>) @ replicate k (CHR ''0''))) = \<bar>c\<bar> * 10 ^ k"
    by (simp add: nat_of_digits_zeros)
  moreover have "apply_sign (int_sign c) (\<bar>c\<bar> * 10 ^ k) = c * 10 ^ k"
    by (simp add: int_sign_def)
  ultimately show ?thesis by (simp add: number_value_def fraction_digits_def)
qed

lemma parse_i32_show_int:
  assumes "-2147483648 \<le> e" "e \<le> 2147483647"
  shows "parse_i32 (show_int e) = Some e"
proof (cases "e < 0")
  case True
  with assms show ?thesis using show_nat_digits by (simp add: parse_i32_def show_int_def)
next
  case False
  obtain c cs where s: "show_nat (nat e) = c # cs" using show_nat_neq_Nil by (metis list.exhaust)
  then have "is_ascii_digit c" by (metis show_nat_digit list.set_intros(1))
  then have "c \<noteq> CHR ''+''" "c \<noteq> CHR ''-''" by auto
  moreover have "int (nat_of_digits (c # cs)) = e" using False s by (metis nat_of_show_nat nat_0_le linorder_not_less)
  moreover have "list_all is_ascii_digit (c # cs)" using show_nat_digits s by metis
  ultimately show ?thesis using False assms by (simp add: parse_i32_def show_int_def s)
qed

subsection \<open>Lemmas of the interface\<close>

context bigdecimal
begin

lemma val_parts: "bd_val B b = dec (fst (bd_parts B b)) (snd (bd_parts B b))"
  by (simp add: bd_val_def split_beta)

lemma val_new: "bd_val B (bd_new B c s) = dec c s"
  by (simp add: bd_val_def parts_new)

lemma parse_number:
  assumes "digits_ok i f"
  shows "\<exists>b. bd_parse B (sign_text sg @ i @ fraction_text f) = Some b
    \<and> bd_val B b = number_value sg i f"
proof (cases f)
  case None
  with assms show ?thesis
    using parse_integer [of i sg]
    by (simp add: digits_ok_def fraction_digits_def fraction_text_def number_value_def)
next
  case (Some t)
  with assms show ?thesis
    using parse_fraction [of i t sg]
    by (simp add: digits_ok_def fraction_digits_def fraction_text_def number_value_def)
qed

lemma suffix_value:
  assumes "unit_ok u"
  shows "\<exists>v'. apply_suffix B input v (unit_text u) = Inr (v', unit_format u)
    \<and> bd_val B v' = bd_val B v * unit_factor u"
proof (cases u)
  case (DecUnit k)
  with assms show ?thesis
    by (simp add: apply_suffix_dec val_new val_parts [of v] dec_shift mult.commute)
next
  case (BinUnit k)
  with assms show ?thesis by (simp add: apply_suffix_bin val_mul mult.commute)
next
  case (ExpUnit upper t)
  with assms show ?thesis
    by (auto simp: apply_suffix_exp val_new val_parts [of v] dec_shift)
qed

lemma round_step:
  "bd_val B (if snd (bd_parts B v) > 9 then bd_round_up B v 9 else v) = round_away 9 (bd_val B v)"
proof (cases "snd (bd_parts B v) > 9")
  case True
  then show ?thesis using val_round_up [OF True] by simp
next
  case False
  have "bd_val B v * 10 powi 9 = dec (fst (bd_parts B v)) (snd (bd_parts B v) - 9)"
    by (simp only: val_parts dec_shift)
  with False have "nano_exact (bd_val B v)" by (simp only: nano_exact_def dec_Ints_iff) simp
  with False show ?thesis by (simp add: round_nano_exact)
qed

lemma finish_binary:
  "bd_val B (if bd_less B (bd_from B i64_max) (bd_abs B v)
      then (if bd_is_negative B v then bd_neg B (bd_from B i64_max) else bd_from B i64_max)
      else v) = saturate (bd_val B v)"
  by (auto simp: less_iff val_abs val_neg val_from is_negative_iff saturate_def i64_max_def)

lemma finish_value:
  "bd_val B (q_value (finish_quantity B v fmt)) =
     (if fmt = BinarySI then saturate (round_away 9 (bd_val B v)) else round_away 9 (bd_val B v))"
proof (cases "fmt = BinarySI")
  case True
  then show ?thesis
    using finish_binary [of "if snd (bd_parts B v) > 9 then bd_round_up B v 9 else v"]
    unfolding round_step
    by (simp only: finish_quantity_def Let_def val_normalized simp_thms if_True prod.case quantity.simps True)
next
  case False
  then show ?thesis
    using round_step [of v]
    by (simp only: finish_quantity_def Let_def val_normalized if_False prod.case quantity.simps)
qed

lemma finish_format: "q_format (finish_quantity B v fmt) = BinarySI \<Longrightarrow> fmt = BinarySI"
  by (auto simp: finish_quantity_def Let_def split: if_splits)

lemma finish_ok: "quantity_ok B (finish_quantity B v fmt)"
  unfolding quantity_ok_def finish_value
  by (auto simp: nano_exact_round nano_exact_saturate abs_saturate dest: finish_format)

lemma from_int_ok: "quantity_ok B (quantity_from_int B i)"
  by (simp add: quantity_ok_def quantity_from_int_def val_from nano_exact_of_int)

lemma parse_literal:
  assumes "literal_ok l"
  shows "\<exists>q. quantity_from_str B (literal_text l) = Inr q
    \<and> bd_val B (q_value q) = literal_value l \<and> quantity_ok B q"
proof -
  obtain sg i f u where l: "l = Literal sg i f u" by (cases l)
  with assms have d: "digits_ok i f" and u: "unit_ok u" by simp_all
  then obtain b where b: "bd_parse B (sign_text sg @ i @ fraction_text f) = Some b"
    "bd_val B b = number_value sg i f" using parse_number by blast
  obtain v where v: "apply_suffix B (literal_text l) b (unit_text u) = Inr (v, unit_format u)"
    "bd_val B v = bd_val B b * unit_factor u" using suffix_value [OF u] by blast
  have "quantity_from_str B (literal_text l) = Inr (finish_quantity B v (unit_format u))"
    using d u b v
    by (subst from_str_split [of i f "unit_text u" sg])
      (auto simp: l digits_ok_def unit_remainder intro: number_start)
  then show ?thesis
    using v b by (simp add: finish_value finish_ok l Let_def)
qed

lemma parsed_ok: "quantity_from_str B s = Inr q \<Longrightarrow> quantity_ok B q"
  using from_str_literal [of B s q] parse_literal by fastforce

end

subsection \<open>Formatting\<close>

text \<open>The unit \<open>format_decimal\<close> chooses for a power-of-1000 exponent.\<close>

definition decimal_unit :: "qformat \<Rightarrow> int \<Rightarrow> unit_suffix" where
  "decimal_unit fmt grp =
     (if fmt = DecimalExponent \<or> grp > 18
      then (if grp \<noteq> 0 then ExpUnit False (show_int grp) else DecUnit 3)
      else DecUnit (nat (grp div 3 + 3)))"

definition decimal_literal :: "qformat \<Rightarrow> int \<Rightarrow> int \<Rightarrow> literal" where
  "decimal_literal fmt c e =
     Literal (int_sign c) (show_nat (nat \<bar>c\<bar>) @ replicate (nat (e mod 3)) (CHR ''0'')) None
       (decimal_unit fmt (e div 3 * 3))"

lemma decimal_unit_ok:
  assumes "-9 \<le> grp" "grp \<le> 2147483647"
  shows "unit_ok (decimal_unit fmt grp)"
  using assms parse_i32_show_int [of grp] by (auto simp: decimal_unit_def)

lemma decimal_unit_factor:
  assumes "-9 \<le> grp" "grp \<le> 2147483647" "grp mod 3 = 0"
  shows "unit_factor (decimal_unit fmt grp) = 10 powi grp"
proof -
  have "3 * (int (nat (grp div 3 + 3)) - 3) = grp" using assms by auto
  then show ?thesis
    using assms parse_i32_show_int [of grp] by (simp add: decimal_unit_def del: power_int_numeral)
qed

lemma dec_groups: "of_int (c * 10 ^ nat (e mod 3)) * 10 powi (e div 3 * 3) = dec c (- e)"
proof -
  have "(10 :: rat) ^ nat (e mod 3) = 10 powi (e mod 3)" by (simp add: power_int_def)
  moreover have "(10 :: rat) powi (e mod 3) * 10 powi (e div 3 * 3) = 10 powi e"
    by (simp add: power_int_add [symmetric])
  ultimately show ?thesis by (simp add: dec_def mult.assoc)
qed

lemma group_bounds:
  assumes "-9 \<le> e" "e \<le> 2147483647"
  shows "-9 \<le> e div 3 * 3" "e div 3 * 3 \<le> (2147483647 :: int)"
  using assms by presburger+

lemma decimal_literal_ok:
  assumes "-9 \<le> e" "e \<le> 2147483647"
  shows "literal_ok (decimal_literal fmt c e)"
  using group_bounds [OF assms] by (simp add: decimal_literal_def digits_ok_show decimal_unit_ok)

lemma decimal_unit_not_binary: "unit_format (decimal_unit fmt grp) \<noteq> BinarySI"
  by (simp add: decimal_unit_def)

lemma decimal_literal_value:
  assumes "-9 \<le> e" "e \<le> 2147483647" "nano_exact (dec c (- e))"
  shows "literal_value (decimal_literal fmt c e) = dec c (- e)"
proof -
  note g = group_bounds [OF assms(1,2)]
  have "of_int (c * 10 ^ nat (e mod 3)) * unit_factor (decimal_unit fmt (e div 3 * 3)) = dec c (- e)"
    using decimal_unit_factor [OF g] dec_groups [of c e] by simp
  with assms(3) show ?thesis
    by (simp only: decimal_literal_def literal_value.simps number_value_show Let_def
        decimal_unit_not_binary if_False round_nano_exact)
qed

text \<open>The printed text determines the value, also where the parser rejects its exponent.\<close>

lemma show_zero: "show_nat 0 = ''0''"
  by code_simp

lemma show_int_inj: "show_int a = show_int b \<longleftrightarrow> a = b"
proof
  assume eq: "show_int a = show_int b"
  have minus: "show_nat n \<noteq> CHR ''-'' # t" for n t
    using show_nat_digit [of "CHR ''-''" n] by auto
  from eq show "a = b"
    using minus minus [symmetric] by (auto simp: show_int_def show_nat_inj split: if_splits)
qed simp

lemma decimal_suffix_not_exponent: "k < 10 \<Longrightarrow> DECIMAL_SUFFIXES ! k \<noteq> CHR ''e'' # t"
  by (cases "DECIMAL_SUFFIXES ! k") (auto simp: DECIMAL_SUFFIXES_def nth_Cons' split: if_splits)

lemma decimal_suffix_inj: "j < 10 \<Longrightarrow> k < 10 \<Longrightarrow> DECIMAL_SUFFIXES ! j = DECIMAL_SUFFIXES ! k \<Longrightarrow> j = k"
  using nth_eq_iff_index_eq [of DECIMAL_SUFFIXES j k] by (simp add: DECIMAL_SUFFIXES_def)

lemma decimal_unit_inj:
  assumes "unit_text (decimal_unit fmt g) = unit_text (decimal_unit fmt h)"
    and "-9 \<le> g" "-9 \<le> h" "g mod 3 = 0" "h mod 3 = 0"
  shows "g = h"
proof -
  have small: "nat (x div 3 + 3) < 10" if "x \<le> 18" for x :: int using that by linarith
  have index: "x = y" if "nat (x div 3 + 3) = nat (y div 3 + 3)" "-9 \<le> x" "-9 \<le> y" "x mod 3 = 0" "y mod 3 = 0"
    for x y :: int
  proof -
    have "x div 3 + 3 = y div 3 + 3"
      using that(1-3) by (subst eq_nat_nat_iff [symmetric]) linarith+
    with that(4,5) show ?thesis by presburger
  qed
  have zero: "x = 0" if "nat (x div 3 + 3) = 3" "-9 \<le> x" "x mod 3 = 0" for x :: int
    using index [of x 0] that by simp
  note no_e = decimal_suffix_not_exponent decimal_suffix_not_exponent [symmetric]
  from assms(1) show ?thesis
    using assms(2-5) small small [of 0] no_e no_e(1) [of 3]
    by (auto simp: decimal_unit_def show_int_inj split: if_splits
        dest!: decimal_suffix_inj [rotated 2] intro: index zero zero [symmetric])
qed

lemma signed_digits_inj:
  assumes "sign_text (int_sign c) @ s = sign_text (int_sign d) @ t"
    and "CHR ''-'' \<noteq> hd s" "CHR ''-'' \<noteq> hd t" "s \<noteq> []" "t \<noteq> []"
  shows "int_sign c = int_sign d \<and> s = t"
  using assms by (cases s; cases t) (auto simp: int_sign_def split: if_splits)

lemma decimal_text_inj:
  assumes "literal_text (decimal_literal fmt c e) = literal_text (decimal_literal fmt d f)" "-9 \<le> e" "-9 \<le> f"
  shows "dec c (- e) = dec d (- f)"
proof -
  let ?ds = "\<lambda>c e. show_nat (nat \<bar>c\<bar>) @ replicate (nat (e mod 3)) (CHR ''0'')"
  let ?u = "\<lambda>e. unit_text (decimal_unit fmt (e div 3 * 3))"
  have digits: "list_all is_ascii_digit (?ds c e)" for c e by (rule list_all_show_zeros)
  have head: "CHR ''-'' \<noteq> hd (?ds c e @ u)" "?ds c e @ u \<noteq> []" for c e u
    using show_nat_digits [of "nat \<bar>c\<bar>"] by (cases "show_nat (nat \<bar>c\<bar>)"; auto)+
  have suffix: "k < 10 \<Longrightarrow> no_digit (DECIMAL_SUFFIXES ! k)" for k
    using nth_mem [of k DECIMAL_SUFFIXES] by (auto simp: DECIMAL_SUFFIXES_def no_digit_def is_ascii_digit_def)
  have "no_digit (?u e)" for e
    using suffix by (auto simp: decimal_unit_def no_digit_def)
  then have split: "takeWhile is_ascii_digit (?ds c e @ ?u e) = ?ds c e" for c e
    using digits takeWhile_digits by blast
  have parts: "int_sign c = int_sign d \<and> ?ds c e @ ?u e = ?ds d f @ ?u f"
    using assms(1) head by (intro signed_digits_inj) (simp_all add: decimal_literal_def fraction_text_def)
  then have sign: "int_sign c = int_sign d" and ds: "?ds c e = ?ds d f"
    using split [of c e] split [of d f] by simp_all
  with parts have u: "?u e = ?u f" by (simp only: same_append_eq)
  have "number_value (int_sign c) (?ds c e) None = number_value (int_sign d) (?ds d f) None"
    using sign ds by simp
  then have "of_int (c * 10 ^ nat (e mod 3)) = (of_int (d * 10 ^ nat (f mod 3)) :: rat)"
    unfolding number_value_show .
  moreover have "e div 3 * 3 = f div 3 * 3"
    using assms(2,3) by (intro decimal_unit_inj [OF u]) presburger+
  ultimately show ?thesis by (metis dec_groups)
qed

lemma div_mult_2_pow: "value mod 2 ^ k = 0 \<Longrightarrow> value div 2 ^ k * 2 ^ k = (value :: int)"
  by (simp add: mod_0_imp_dvd)

lemma binary_suffix_Some:
  assumes "binary_suffix value = Some (k, u)"
  shows "k < 6 \<and> u = BINARY_SUFFIXES ! k \<and> value mod 2 ^ ((k + 1) * 10) = 0"
proof -
  let ?P = "\<lambda>(index, suffix). value \<noteq> 0 \<and> value mod 2 ^ ((index + 1) * 10) = 0"
  from assms obtain i where i: "i < length (rev (enumerate 0 BINARY_SUFFIXES))"
    "?P (rev (enumerate 0 BINARY_SUFFIXES) ! i)" "rev (enumerate 0 BINARY_SUFFIXES) ! i = (k, u)"
    by (auto simp: binary_suffix_def find_Some_iff)
  then have "(k, u) \<in> set (rev (enumerate 0 BINARY_SUFFIXES))" by (metis nth_mem)
  then have "(k, u) \<in> set (enumerate 0 BINARY_SUFFIXES)" by simp
  then have "k < 6 \<and> u = BINARY_SUFFIXES ! k" by (simp add: in_set_enumerate_eq)
  with i show ?thesis by simp
qed

context bigdecimal
begin

lemma format_decimal_zero: "bd_val B (q_value q) = 0 \<Longrightarrow> format_decimal B q fmt = Some ''0''"
  by (simp add: format_decimal_def is_zero_iff)

lemma format_decimal_literal:
  assumes "nano_exact (bd_val B (q_value q))" "bd_val B (q_value q) \<noteq> 0"
    and parts: "bd_parts B (bd_normalized B (q_value q)) = (c, s)"
  shows "format_decimal B q fmt = Some (literal_text (decimal_literal fmt c (- s)))"
    and "s \<le> 9" and "bd_val B (q_value q) = dec c s" and "\<not> 10 dvd c"
proof -
  have val: "bd_val B (q_value q) = dec c s"
    using val_normalized [of "q_value q"] parts by (simp add: val_parts [of "bd_normalized B _"])
  have c: "\<not> 10 dvd c" using normalized [OF assms(2)] parts by simp
  have s: "s \<le> 9" using nano_exact_scale assms(1) c by (simp add: val)
  have "0 \<le> (- s) div 3 + 3" using s by linarith
  moreover have "(- s) div 3 * 3 \<le> 18 \<Longrightarrow> nat ((- s) div 3 + 3) < 10" by linarith
  moreover have "DECIMAL_SUFFIXES ! 3 = []" by (simp add: DECIMAL_SUFFIXES_def)
  ultimately show "format_decimal B q fmt = Some (literal_text (decimal_literal fmt c (- s)))"
    using assms(2) parts
    by (auto simp: format_decimal_def is_zero_iff decimal_literal_def decimal_unit_def Let_def
        show_int_sign fraction_text_def)
  show "bd_val B (q_value q) = dec c s" "s \<le> 9" "\<not> 10 dvd c" by (fact val s c)+
qed

lemma format_decimal_total:
  "nano_exact (bd_val B (q_value q)) \<Longrightarrow> format_decimal B q fmt \<noteq> None"
  using format_decimal_zero format_decimal_literal(1)
  by (cases "bd_val B (q_value q) = 0"; cases "bd_parts B (bd_normalized B (q_value q))") auto

lemma reparse_decimal:
  assumes "nano_exact (bd_val B (q_value q))" "exponent_fits B q"
  shows "\<exists>s q'. format_decimal B q fmt = Some s \<and> quantity_from_str B s = Inr q'
    \<and> bd_val B (q_value q') = bd_val B (q_value q)"
proof (cases "bd_val B (q_value q) = 0")
  case True
  let ?l = "Literal NoSign ''0'' None (DecUnit 3)"
  have "literal_ok ?l" "literal_text ?l = ''0''" "literal_value ?l = 0"
    by (simp_all add: digits_ok_def fraction_digits_def fraction_text_def DECIMAL_SUFFIXES_def
        is_ascii_digit_def number_value_def nat_of_digits_def digit_value_def Let_def round_away_def)
  then show ?thesis
    using parse_literal [of ?l] format_decimal_zero [OF True] True by auto
next
  case False
  obtain c s where p: "bd_parts B (bd_normalized B (q_value q)) = (c, s)" by (rule prod.exhaust)
  note lit = format_decimal_literal [OF assms(1) False p]
  have e: "-9 \<le> - s" "- s \<le> 2147483647" using lit(2) assms(2) p by (simp_all add: exponent_fits_def)
  then have ok: "literal_ok (decimal_literal fmt c (- s))" by (rule decimal_literal_ok)
  have "literal_value (decimal_literal fmt c (- s)) = dec c s"
    using decimal_literal_value [OF e, of c fmt] assms(1) lit(3) by simp
  with parse_literal [OF ok] lit(1,3) show ?thesis by auto
qed

lemma to_i64_ok:
  assumes "quantity_ok B q" "q_format q = BinarySI" "bd_is_integer B (q_value q)"
  obtains i where "bd_val B (q_value q) = of_int i" "\<bar>i\<bar> \<le> i64_max" "bd_to_i64 B (q_value q) = Some i"
proof -
  from assms(3) obtain i where i: "bd_val B (q_value q) = of_int i"
    by (auto simp: is_integer_iff elim: Ints_cases)
  with assms have "\<bar>of_int i :: rat\<bar> \<le> of_int i64_max" by (simp add: quantity_ok_def)
  then have b: "\<bar>i\<bar> \<le> i64_max" by linarith
  then have "bd_to_i64 B (q_value q) = Some i"
    using to_i64_integer [OF i] by (auto simp: i64_min_def i64_max_def)
  with i b show thesis by (rule that)
qed

lemma reparse_binary:
  assumes "bd_val B (q_value q) = of_int v" "\<bar>v\<bar> \<le> i64_max" "binary_suffix v = Some (k, u)"
  shows "\<exists>q'. quantity_from_str B (show_int (v div 2 ^ ((k + 1) * 10)) @ u) = Inr q'
    \<and> bd_val B (q_value q') = of_int v"
proof -
  let ?d = "v div 2 ^ ((k + 1) * 10)"
  let ?l = "Literal (int_sign ?d) (show_nat (nat \<bar>?d\<bar>)) None (BinUnit k)"
  note b = binary_suffix_Some [OF assms(3)]
  have d: "digits_ok (show_nat (nat \<bar>?d\<bar>)) None"
    using digits_ok_show [of _ 0] by simp
  have t: "literal_text ?l = show_int ?d @ u" using b by (simp add: fraction_text_def show_int_sign)
  have "number_value (int_sign ?d) (show_nat (nat \<bar>?d\<bar>)) None = of_int ?d"
    using number_value_show [of ?d 0] by simp
  moreover have "of_int ?d * 2 ^ (10 * (k + 1)) = (of_int v :: rat)"
  proof -
    have "?d * 2 ^ ((k + 1) * 10) = v" using b by (intro div_mult_2_pow) simp
    then have "(of_int (?d * 2 ^ ((k + 1) * 10)) :: rat) = of_int v" by (simp only:)
    then show ?thesis by (simp only: of_int_mult of_int_power of_int_numeral mult.commute [of 10 "k + 1"])
  qed
  ultimately have "literal_value ?l = saturate (round_away 9 (of_int v))"
    by (simp add: Let_def)
  also have "\<dots> = of_int v"
    using assms(2) by (simp add: round_nano_exact nano_exact_of_int saturate_id flip: of_int_abs)
  finally have val: "literal_value ?l = of_int v" .
  have "literal_ok ?l" using b d by simp
  from parse_literal [OF this] show ?thesis unfolding t val by blast
qed

lemma display_total: "quantity_ok B q \<Longrightarrow> quantity_display B q \<noteq> None"
proof -
  assume ok: "quantity_ok B q"
  then have "format_decimal B q (q_format q) \<noteq> None"
    by (intro format_decimal_total) (simp add: quantity_ok_def)
  moreover have "bd_to_i64 B (q_value q) \<noteq> None"
    if "q_format q = BinarySI" "bd_is_integer B (q_value q)"
    using to_i64_ok [OF ok that] by blast
  ultimately show ?thesis
    unfolding quantity_display_def by (auto split: option.splits)
qed

lemma reparse_display:
  assumes ok: "quantity_ok B q" and fits: "exponent_fits B q"
  shows "\<exists>s q'. quantity_display B q = Some s \<and> quantity_from_str B s = Inr q'
    \<and> bd_val B (q_value q') = bd_val B (q_value q)"
proof (cases "q_format q = BinarySI \<and> bd_is_integer B (q_value q)")
  case False
  then have "quantity_display B q = format_decimal B q (q_format q)"
    by (auto simp: quantity_display_def)
  then show ?thesis using reparse_decimal [OF _ fits] ok by (simp add: quantity_ok_def)
next
  case True
  then obtain v where v: "bd_val B (q_value q) = of_int v" "\<bar>v\<bar> \<le> i64_max" "bd_to_i64 B (q_value q) = Some v"
    using to_i64_ok [OF ok] by blast
  show ?thesis
  proof (cases "binary_suffix v")
    case None
    with True v have "quantity_display B q = format_decimal B q (q_format q)"
      by (simp add: quantity_display_def)
    then show ?thesis using reparse_decimal [OF _ fits] ok by (simp add: quantity_ok_def)
  next
    case (Some p)
    then obtain k u where p: "binary_suffix v = Some (k, u)" by (cases p) simp
    with True v have "quantity_display B q = Some (show_int (v div 2 ^ ((k + 1) * 10)) @ u)"
      by (simp add: quantity_display_def)
    with reparse_binary [OF v(1,2) p] v(1) show ?thesis by auto
  qed
qed

lemma canonical_same_value:
  assumes "nano_exact (bd_val B (q_value a))" "bd_val B (q_value a) = bd_val B (q_value b)"
  shows "format_decimal B a fmt = format_decimal B b fmt"
proof (cases "bd_val B (q_value a) = 0")
  case True
  with assms show ?thesis by (simp add: format_decimal_zero)
next
  case False
  obtain c s d t where p: "bd_parts B (bd_normalized B (q_value a)) = (c, s)"
      "bd_parts B (bd_normalized B (q_value b)) = (d, t)" by (metis prod.exhaust)
  note la = format_decimal_literal [OF assms(1) False p(1)]
    and lb = format_decimal_literal [OF assms(1) [unfolded assms(2)] False [unfolded assms(2)] p(2)]
  have "c = d \<and> s = t" using la lb assms(2) by (intro dec_unique) simp_all
  with la lb show ?thesis by simp
qed

lemma canonical_decimal_inj:
  assumes "nano_exact (bd_val B (q_value a))" "nano_exact (bd_val B (q_value b))"
    and eq: "format_decimal B a fmt = format_decimal B b fmt"
  shows "bd_val B (q_value a) = bd_val B (q_value b)"
proof -
  define zero where "zero = literal_text (decimal_literal fmt 0 0)"
  have zero: "format_decimal B q fmt = Some zero" if "bd_val B (q_value q) = 0" for q
    using format_decimal_zero [OF that] show_zero
    by (simp add: zero_def decimal_literal_def int_sign_def fraction_text_def decimal_unit_def DECIMAL_SUFFIXES_def)
  have shown: "\<exists>c e. -9 \<le> e \<and> format_decimal B q fmt = Some (literal_text (decimal_literal fmt c e))
      \<and> bd_val B (q_value q) = dec c (- e)" if "nano_exact (bd_val B (q_value q))" for q
  proof (cases "bd_val B (q_value q) = 0")
    case True
    with zero [OF True] show ?thesis
      by (intro exI [of _ 0]) (simp add: zero_def dec_def)
  next
    case False
    obtain c s where p: "bd_parts B (bd_normalized B (q_value q)) = (c, s)" by (rule prod.exhaust)
    from format_decimal_literal [OF that False p] show ?thesis
      by (intro exI [of _ c] exI [of _ "- s"]) simp
  qed
  obtain c e d f where a: "-9 \<le> e" "format_decimal B a fmt = Some (literal_text (decimal_literal fmt c e))"
      "bd_val B (q_value a) = dec c (- e)"
    and b: "-9 \<le> f" "format_decimal B b fmt = Some (literal_text (decimal_literal fmt d f))"
      "bd_val B (q_value b) = dec d (- f)"
    using shown [OF assms(1)] shown [OF assms(2)] by blast
  from eq a(2) b(2) have "literal_text (decimal_literal fmt c e) = literal_text (decimal_literal fmt d f)"
    by simp
  from decimal_text_inj [OF this a(1) b(1)] show ?thesis unfolding a(3) b(3) .
qed

lemma canonical_decimal_eq_iff:
  assumes "quantity_ok B a" "quantity_ok B b"
  shows "canonical_decimal B a = canonical_decimal B b \<longleftrightarrow> quantity_eq B a b"
proof -
  have "nano_exact (bd_val B (q_value a))" "nano_exact (bd_val B (q_value b))"
    using assms by (simp_all add: quantity_ok_def)
  then show ?thesis
    unfolding canonical_decimal_def quantity_eq_def eq_iff
    using canonical_decimal_inj canonical_same_value by blast
qed

end

end
