(* ===== verification/Exact_Decimal.thy ===== *)
theory Exact_Decimal
  imports Big_Decimal
begin

text \<open>
  Exact decimals as pairs of a coefficient and a scale: an executable provider of the
  \<open>bigdecimal\<close> interface, on which the witnesses evaluate. The interpretation proves every
  law of the interface for it.
\<close>

type_synonym decimal = "int \<times> int"

function strip_zeros :: "int \<Rightarrow> int \<Rightarrow> decimal" where
  "strip_zeros c s = (if c \<noteq> 0 \<and> c mod 10 = 0 then strip_zeros (c div 10) (s - 1) else (c, s))"
  by pat_completeness auto
termination
  by (relation "measure (\<lambda>(c, s). nat \<bar>c\<bar>)") auto

declare strip_zeros.simps [simp del]

definition align :: "decimal \<Rightarrow> decimal \<Rightarrow> int \<times> int" where
  "align a b =
     (let m = max (snd a) (snd b)
      in (fst a * 10 ^ nat (m - snd a), fst b * 10 ^ nat (m - snd b)))"

definition split_sign :: "string \<Rightarrow> sign \<times> string" where
  "split_sign s =
     (case s of c # cs \<Rightarrow> if c = CHR ''+'' then (Plus, cs) else if c = CHR ''-'' then (Minus, cs) else (NoSign, s)
      | [] \<Rightarrow> (NoSign, s))"

definition parse_unsigned :: "sign \<Rightarrow> string \<Rightarrow> decimal option" where
  "parse_unsigned sg body =
     (let (lead, trail) = (case split_once (CHR ''.'') body of None \<Rightarrow> (body, []) | Some p \<Rightarrow> p)
      in if lead @ trail \<noteq> [] \<and> list_all is_ascii_digit (lead @ trail)
         then Some (apply_sign sg (int (nat_of_digits (lead @ trail))), int (length trail))
         else None)"

definition parse_decimal :: "string \<Rightarrow> decimal option" where
  "parse_decimal s = (case split_sign s of (sg, body) \<Rightarrow> parse_unsigned sg body)"

definition to_i64_decimal :: "decimal \<Rightarrow> int option" where
  "to_i64_decimal b =
     (let i = (if snd b \<le> 0 then fst b * 10 ^ nat (- snd b)
               else sgn (fst b) * (\<bar>fst b\<bar> div 10 ^ nat (snd b)))
      in if i64_min \<le> i \<and> i \<le> i64_max then Some i else None)"

definition exact_decimal :: "decimal bigdecimal_ops" where
  "exact_decimal =
     \<lparr>bd_parse = parse_decimal,
      bd_new = Pair,
      bd_parts = (\<lambda>b. b),
      bd_from = (\<lambda>i. (i, 0)),
      bd_mul = (\<lambda>b n. (fst b * int n, snd b)),
      bd_round_up = (\<lambda>b n.
        if n < snd b
        then (sgn (fst b) * ((\<bar>fst b\<bar> + 10 ^ nat (snd b - n) - 1) div 10 ^ nat (snd b - n)), n)
        else (fst b * 10 ^ nat (n - snd b), n)),
      bd_normalized = (\<lambda>b. if fst b = 0 then (0, 0) else strip_zeros (fst b) (snd b)),
      bd_abs = (\<lambda>b. (\<bar>fst b\<bar>, snd b)),
      bd_neg = (\<lambda>b. (- fst b, snd b)),
      bd_less = (\<lambda>a b. case align a b of (x, y) \<Rightarrow> x < y),
      bd_eq = (\<lambda>a b. case align a b of (x, y) \<Rightarrow> x = y),
      bd_is_zero = (\<lambda>b. fst b = 0),
      bd_is_negative = (\<lambda>b. fst b < 0),
      bd_is_integer = (\<lambda>b. snd b \<le> 0 \<or> fst b mod 10 ^ nat (snd b) = 0),
      bd_to_i64 = to_i64_decimal\<rparr>"

subsection \<open>The laws\<close>

lemma val_exact [simp]: "bd_val exact_decimal b = dec (fst b) (snd b)"
  by (simp add: bd_val_def exact_decimal_def split_beta)

lemma strip_zeros_val: "dec (fst (strip_zeros c s)) (snd (strip_zeros c s)) = dec c s"
proof (induction c s rule: strip_zeros.induct)
  case (1 c s)
  show ?case
  proof (cases "c \<noteq> 0 \<and> c mod 10 = 0")
    case True
    then have "c = c div 10 * 10 ^ 1" by (simp add: mod_0_imp_dvd)
    then have "dec c s = dec (c div 10) (s - 1)" using dec_mult_pow [of "c div 10" 1 s] by simp
    with 1 True show ?thesis by (simp add: strip_zeros.simps [of c s])
  qed (auto simp: strip_zeros.simps [of c s])
qed

lemma strip_zeros_normal: "c \<noteq> 0 \<Longrightarrow> \<not> 10 dvd fst (strip_zeros c s)"
proof (induction c s rule: strip_zeros.induct)
  case (1 c s)
  show ?case
  proof (cases "c mod 10 = 0")
    case True
    with 1(2) have "c div 10 \<noteq> 0" by auto
    with 1 True show ?thesis by (simp add: strip_zeros.simps [of c s])
  next
    case False
    then show ?thesis by (simp add: strip_zeros.simps [of c s] dvd_eq_mod_eq_0)
  qed
qed

lemma align_val:
  "of_int (fst (align a b)) = dec (fst a) (snd a) * 10 powi max (snd a) (snd b)"
  "of_int (snd (align a b)) = dec (fst b) (snd b) * 10 powi max (snd a) (snd b)"
proof -
  have *: "of_int (c * 10 ^ nat (m - s)) = dec c s * 10 powi m" if "s \<le> m" for c s m
  proof -
    have "dec c s * 10 powi m = dec c (s - m)" by (simp add: dec_shift)
    also have "\<dots> = of_int (c * 10 ^ nat (m - s))"
      using that dec_neg_scale [of c "nat (m - s)"] by simp
    finally show ?thesis by simp
  qed
  show "of_int (fst (align a b)) = dec (fst a) (snd a) * 10 powi max (snd a) (snd b)"
    using * [of "snd a" "max (snd a) (snd b)" "fst a"] by (simp add: align_def Let_def)
  show "of_int (snd (align a b)) = dec (fst b) (snd b) * 10 powi max (snd a) (snd b)"
    using * [of "snd b" "max (snd a) (snd b)" "fst b"] by (simp add: align_def Let_def)
qed

lemma align_less: "fst (align a b) < snd (align a b) \<longleftrightarrow> dec (fst a) (snd a) < dec (fst b) (snd b)"
proof -
  have "fst (align a b) < snd (align a b) \<longleftrightarrow>
      (of_int (fst (align a b)) :: rat) < of_int (snd (align a b))" by simp
  then show ?thesis unfolding align_val by simp
qed

lemma align_eq: "fst (align a b) = snd (align a b) \<longleftrightarrow> dec (fst a) (snd a) = dec (fst b) (snd b)"
proof -
  have "fst (align a b) = snd (align a b) \<longleftrightarrow>
      (of_int (fst (align a b)) :: rat) = of_int (snd (align a b))" by simp
  then show ?thesis unfolding align_val by simp
qed

lemma sgn_dec: "sgn (dec c s) = of_int (sgn c)"
proof -
  have "sgn (of_int c :: rat) = of_int (sgn c)" by (simp add: sgn_if)
  then show ?thesis by (simp add: dec_def sgn_mult)
qed

lemma abs_dec: "\<bar>dec c s\<bar> = dec \<bar>c\<bar> s"
  by (simp add: dec_def abs_mult power_int_abs)

lemma ceiling_div:
  assumes "0 < p"
  shows "ceiling (of_int a / of_int p :: rat) = (a + p - 1) div p"
proof -
  define q r where "q = a div p" and "r = a mod p"
  then have a: "a = q * p + r" and r: "0 \<le> r" "r < p" using assms by simp_all
  have "(a + p - 1) div p = q + (r + p - 1) div p"
    using assms div_mult_self1 [of p "r + p - 1" q] by (simp add: a algebra_simps)
  also have "(r + p - 1) div p = (if r = 0 then 0 else 1)"
  proof (cases "r = 0")
    case True
    with assms show ?thesis by (simp add: div_pos_pos_trivial)
  next
    case False
    have "(r - 1 + p) div p = (r - 1) div p + 1" using assms by (intro div_add_self2) simp
    moreover have "(r - 1) div p = 0" using r False by (intro div_pos_pos_trivial) auto
    ultimately show ?thesis using False by (simp add: algebra_simps)
  qed
  also have "q + (if r = 0 then 0 else 1) = - (- a div p)"
    using assms by (simp add: zdiv_zminus1_eq_if q_def r_def)
  finally show ?thesis by (simp add: ceiling_divide_eq_div)
qed

lemma round_up_exact:
  assumes "n < s"
  shows "dec (sgn c * ((\<bar>c\<bar> + 10 ^ nat (s - n) - 1) div 10 ^ nat (s - n))) n = round_away n (dec c s)"
proof -
  have "\<bar>dec c s\<bar> * 10 powi n = of_int \<bar>c\<bar> * 10 powi (- (s - n))"
    by (simp add: abs_dec) (simp add: dec_def power_int_add [symmetric])
  also have "\<dots> = of_int \<bar>c\<bar> / of_int (10 ^ nat (s - n))"
    using assms by (simp add: power_int_def field_simps)
  finally have "ceiling (\<bar>dec c s\<bar> * 10 powi n) = (\<bar>c\<bar> + 10 ^ nat (s - n) - 1) div 10 ^ nat (s - n)"
    by (simp only: ceiling_div zero_less_power zero_less_numeral)
  then show ?thesis
    by (simp only: round_away_def sgn_dec) (simp add: dec_def)
qed

lemma split_sign_text:
  assumes "body \<noteq> []" "hd body \<noteq> CHR ''+''" "hd body \<noteq> CHR ''-''"
  shows "split_sign (sign_text sg @ body) = (sg, body)"
  using assms by (cases sg; cases body) (simp_all add: split_sign_def)

lemma not_digit [simp]: "\<not> is_ascii_digit (CHR ''+'')" "\<not> is_ascii_digit (CHR ''-'')"
  "\<not> is_ascii_digit (CHR ''.'')"
  by (simp_all add: is_ascii_digit_def)

lemma parse_integer_exact:
  assumes "digits \<noteq> []" "list_all is_ascii_digit digits"
  shows "parse_decimal (sign_text sg @ digits) = Some (apply_sign sg (int (nat_of_digits digits)), 0)"
proof -
  from assms have "hd digits \<noteq> CHR ''+''" "hd digits \<noteq> CHR ''-''" "CHR ''.'' \<notin> set digits"
    by (auto simp: list_all_iff) (metis hd_in_set not_digit)+
  then show ?thesis using assms by (simp add: parse_decimal_def parse_unsigned_def split_sign_text split_once_None_iff [THEN iffD2])
qed

lemma parse_fraction_exact:
  assumes "lead @ trail \<noteq> []" "list_all is_ascii_digit (lead @ trail)"
  shows "parse_decimal (sign_text sg @ lead @ ''.'' @ trail) =
    Some (apply_sign sg (int (nat_of_digits (lead @ trail))), int (length trail))"
proof -
  let ?body = "lead @ CHR ''.'' # trail"
  from assms(2) have "CHR ''.'' \<notin> set lead" by (metis Un_iff list_all_iff not_digit(3) set_append)
  then have split: "split_once (CHR ''.'') ?body = Some (lead, trail)"
    by (simp add: split_once_Some_iff)
  have "hd ?body \<noteq> CHR ''+''" "hd ?body \<noteq> CHR ''-''"
    using assms by (cases lead; auto)+
  with split assms show ?thesis by (simp add: parse_decimal_def parse_unsigned_def split_sign_text)
qed

lemma to_i64_exact:
  assumes "dec (fst b) (snd b) = of_int i"
  shows "to_i64_decimal b = (if i64_min \<le> i \<and> i \<le> i64_max then Some i else None)"
proof (cases "snd b \<le> 0")
  case True
  then have "dec (fst b) (snd b) = of_int (fst b * 10 ^ nat (- snd b))"
    using dec_neg_scale [of "fst b" "nat (- snd b)"] by simp
  with assms have "fst b * 10 ^ nat (- snd b) = i" by (simp only: of_int_eq_iff)
  with True show ?thesis by (simp add: to_i64_decimal_def Let_def)
next
  case False
  have "of_int (fst b) = dec (fst b) (snd b) * 10 powi snd b"
    by (simp add: dec_def mult.assoc power_int_minus)
  also have "\<dots> = of_int (i * 10 ^ nat (snd b))"
    using False assms by (simp add: power_int_def)
  finally have "fst b = i * 10 ^ nat (snd b)" by (simp only: of_int_eq_iff)
  then have "sgn (fst b) * (\<bar>fst b\<bar> div 10 ^ nat (snd b)) = i"
    by (simp add: abs_mult sgn_mult sgn_mult_abs)
  with False show ?thesis by (simp add: to_i64_decimal_def Let_def)
qed

interpretation exact: bigdecimal exact_decimal
proof unfold_locales
  fix b :: decimal
  assume "bd_val exact_decimal b \<noteq> 0"
  then have "fst b \<noteq> 0" unfolding val_exact by simp
  then show "\<not> 10 dvd fst (bd_parts exact_decimal (bd_normalized exact_decimal b))"
    using strip_zeros_normal [of "fst b" "snd b"] by (simp add: exact_decimal_def)
next
  fix b :: decimal
  have "strip_zeros 0 s = (0, s)" for s by (simp add: strip_zeros.simps)
  then show "bd_val exact_decimal (bd_normalized exact_decimal b) = bd_val exact_decimal b"
    using strip_zeros_val [of "fst b" "snd b"] unfolding val_exact
    by (simp add: exact_decimal_def)
next
  fix b :: decimal and n :: int
  assume "n < snd (bd_parts exact_decimal b)"
  then show "bd_val exact_decimal (bd_round_up exact_decimal b n)
      = round_away n (bd_val exact_decimal b)"
    unfolding val_exact by (simp add: exact_decimal_def round_up_exact)
next
  fix b :: decimal and i
  assume "bd_val exact_decimal b = of_int i"
  then show "bd_to_i64 exact_decimal b = (if i64_min \<le> i \<and> i \<le> i64_max then Some i else None)"
    unfolding val_exact by (simp add: exact_decimal_def to_i64_exact)
next
  fix lead trail sg
  assume "lead @ trail \<noteq> []" "list_all is_ascii_digit (lead @ trail)"
  then have "parse_decimal (sign_text sg @ lead @ ''.'' @ trail) =
      Some (apply_sign sg (int (nat_of_digits (lead @ trail))), int (length trail))"
    by (rule parse_fraction_exact)
  then show "\<exists>b. bd_parse exact_decimal (sign_text sg @ lead @ ''.'' @ trail) = Some b
      \<and> bd_val exact_decimal b
        = dec (apply_sign sg (int (nat_of_digits (lead @ trail)))) (int (length trail))"
    unfolding val_exact by (simp add: exact_decimal_def)
next
  fix b :: decimal
  have "\<not> 10 powi (- snd b) < (0 :: rat)" by (simp add: not_less)
  then have "bd_val exact_decimal b < 0 \<longleftrightarrow> fst b < 0"
    unfolding val_exact by (simp add: dec_def mult_less_0_iff)
  then show "bd_is_negative exact_decimal b \<longleftrightarrow> bd_val exact_decimal b < 0"
    by (simp add: exact_decimal_def)
qed (unfold val_exact, simp_all add: exact_decimal_def parse_integer_exact
    abs_dec align_less align_eq split_beta dec_Ints_iff dvd_eq_mod_eq_0,
    simp_all add: dec_def)

end
