(* ===== verification/Quantity_Properties.thy ===== *)
theory Quantity_Properties
  imports Quantity_Correct Exact_Decimal
begin

text \<open>
  The properties of the quantity crate, for every implementation of decimals that satisfies
  the laws of \<open>bigdecimal\<close>. The witnesses apply them to the exact decimals of
  \<open>Exact_Decimal\<close>.
\<close>

lemma exact_decimal_laws: "bigdecimal exact_decimal"
  by (rule exact.bigdecimal_axioms)

definition half :: "decimal quantity" where
  "half = \<lparr>q_value = (5, 1), q_format = DecimalSI\<rparr>"

lemma parse_half: "quantity_from_str exact_decimal ''500m'' = Inr half"
  by code_simp

lemma half_ok: "quantity_ok exact_decimal half"
  using bigdecimal.parsed_ok [OF exact_decimal_laws parse_half] .

lemma half_fits: "exponent_fits exact_decimal half"
  by code_simp

text \<open>Every literal is accepted, and nothing else.\<close>

lemma literals_parse:
  assumes "bigdecimal B" and "literal_ok l"
  shows "\<exists>q. quantity_from_str B (literal_text l) = Inr q \<and> bd_val B (q_value q) = literal_value l"
  using bigdecimal.parse_literal [OF assms] by blast

lemma only_literals_parse:
  assumes "bigdecimal B" and "quantity_from_str B s = Inr q"
  shows "\<exists>l. literal_ok l \<and> literal_text l = s \<and> bd_val B (q_value q) = literal_value l
    \<and> quantity_ok B q"
proof -
  from assms obtain l where l: "literal_ok l" "s = literal_text l"
    using from_str_literal by blast
  with assms show ?thesis using bigdecimal.parse_literal [OF assms(1) l(1)] by auto
qed

text \<open>
  C5: a text parses to a value exactly when it is a well-formed quantity literal that denotes the
  value: the product of its decimal number and its unit, rounded away from zero to nano precision,
  and saturated at the largest \<open>i64\<close> for a binary unit. What is accepted is exact at nano precision
  and, for a binary unit, within the range of \<open>i64\<close>.
\<close>
theorem parses_exactly_literals:
  assumes "bigdecimal B"
  shows "(\<exists>q. quantity_from_str B s = Inr q \<and> bd_val B (q_value q) = v \<and> quantity_ok B q)
    \<longleftrightarrow> (\<exists>l. literal_ok l \<and> literal_text l = s \<and> literal_value l = v)"
  using literals_parse [OF assms] only_literals_parse [OF assms] by metis

theorem parses_exactly_literals_witness:
  "\<exists>q. quantity_from_str exact_decimal ''-1.5Ki'' = Inr q \<and> bd_val exact_decimal (q_value q) = -1536
    \<and> quantity_ok exact_decimal q"
proof -
  let ?l = "Literal Minus ''1'' (Some ''5'') (BinUnit 0)"
  have "literal_ok ?l" by code_simp
  moreover have "literal_text ?l = ''-1.5Ki''" by code_simp
  moreover have "literal_value ?l = -1536" by code_simp
  ultimately show ?thesis using parses_exactly_literals [OF exact_decimal_laws, of "''-1.5Ki''" "-1536"] by blast
qed

text \<open>
  Formatting a quantity that was parsed or made from an integer never panics: neither the
  \<open>expect\<close> on the \<open>i64\<close> conversion nor the index into the table of suffixes can fail.
\<close>
theorem display_never_panics:
  assumes "bigdecimal B" and "quantity_from_str B s = Inr q \<or> q = quantity_from_int B i"
  shows "quantity_display B q \<noteq> None \<and> canonical_decimal B q \<noteq> None"
proof -
  have "quantity_ok B q"
    using assms bigdecimal.parsed_ok bigdecimal.from_int_ok by blast
  then show ?thesis
    using bigdecimal.display_total [OF assms(1)] bigdecimal.format_decimal_total [OF assms(1)]
    by (simp add: canonical_decimal_def quantity_ok_def)
qed

text \<open>
  C6: what is printed parses again, to the same number, when the decimal exponent of the
  value fits the 32-bit exponent of the grammar.
\<close>
theorem display_parse_roundtrip:
  assumes "bigdecimal B" and "quantity_ok B q" and "exponent_fits B q"
  shows "\<exists>s q'. quantity_display B q = Some s \<and> quantity_from_str B s = Inr q' \<and> quantity_eq B q' q"
  using bigdecimal.reparse_display [OF assms] bigdecimal.eq_iff [OF assms(1)]
  by (auto simp: quantity_eq_def)

theorem display_parse_roundtrip_witness:
  "\<exists>s q'. quantity_display exact_decimal half = Some s \<and> quantity_from_str exact_decimal s = Inr q'
    \<and> quantity_eq exact_decimal q' half"
  by (rule display_parse_roundtrip [OF exact_decimal_laws half_ok half_fits])

text \<open>
  C7: the canonical decimal text decides numeric equality: two quantities have the same text
  exactly when they compare equal, whatever their units and however large their exponents, also
  where the parser would reject the exponent of the text.
\<close>
theorem canonical_decimal_decides:
  assumes "bigdecimal B" and "quantity_ok B a" and "quantity_ok B b"
  shows "canonical_decimal B a = canonical_decimal B b \<longleftrightarrow> quantity_eq B a b"
  by (rule bigdecimal.canonical_decimal_eq_iff [OF assms])

definition one_kibi :: "decimal quantity" where
  "one_kibi = \<lparr>q_value = (1024, 0), q_format = BinarySI\<rparr>"

lemma one_kibi_ok: "quantity_ok exact_decimal one_kibi"
proof (rule bigdecimal.parsed_ok [OF exact_decimal_laws])
  show "quantity_from_str exact_decimal ''1Ki'' = Inr one_kibi" by code_simp
qed

theorem canonical_decimal_decides_witness:
  "canonical_decimal exact_decimal half \<noteq> canonical_decimal exact_decimal one_kibi"
proof -
  have "\<not> quantity_eq exact_decimal half one_kibi" by code_simp
  then show ?thesis
    using canonical_decimal_decides [OF exact_decimal_laws half_ok one_kibi_ok]
    by simp
qed

text \<open>
  The bound on the exponent is needed: the parser accepts this text, and the printer answers
  with an exponent that the parser then rejects.
\<close>
definition big_exponent :: "decimal quantity" where
  "big_exponent = \<lparr>q_value = (1, -2147483650), q_format = DecimalExponent\<rparr>"

lemma parse_i32_max: "parse_i32 ''2147483647'' = Some 2147483647"
  by (simp add: parse_i32_def nat_of_digits_def digit_value_def is_ascii_digit_def)

lemma parse_i32_too_big: "parse_i32 ''2147483649'' = None"
  by (simp add: parse_i32_def nat_of_digits_def digit_value_def is_ascii_digit_def)

lemma show_big: "show_nat (Suc 0) = ''1''" "show_nat 10 = ''10''" "show_nat 2147483649 = ''2147483649''"
proof -
  have d: "digit_char 0 = CHR ''0''" "digit_char 1 = CHR ''1''" "digit_char 2 = CHR ''2''"
    "digit_char 3 = CHR ''3''" "digit_char 4 = CHR ''4''" "digit_char 6 = CHR ''6''"
    "digit_char 7 = CHR ''7''" "digit_char 8 = CHR ''8''" "digit_char 9 = CHR ''9''"
    by code_simp+
  show "show_nat (Suc 0) = ''1''" "show_nat 10 = ''10''" "show_nat 2147483649 = ''2147483649''"
    by (simp_all add: show_nat.simps d d(2) [simplified])
qed

lemma display_exponent_overflow:
  "quantity_from_str exact_decimal ''1000e2147483647'' = Inr big_exponent"
  "quantity_display exact_decimal big_exponent = Some ''10e2147483649''"
  "quantity_from_str exact_decimal ''10e2147483649'' = Inl (QuantityParseError ''10e2147483649'')"
proof -
  note exact = exact_decimal_def parse_decimal_def split_sign_def parse_unsigned_def
  have "scan_digits ''1000e2147483647'' 0 = 4" "parse_decimal ''1000'' = Some (1000, 0)" by code_simp+
  then show "quantity_from_str exact_decimal ''1000e2147483647'' = Inr big_exponent"
    by (simp add: quantity_from_str_def apply_suffix_def DECIMAL_SUFFIXES_def BINARY_SUFFIXES_def
        strip_exponent_def parse_i32_max exact_decimal_def finish_quantity_def big_exponent_def
        strip_zeros.simps)
  show "quantity_display exact_decimal big_exponent = Some ''10e2147483649''"
    by (simp add: quantity_display_def big_exponent_def format_decimal_def exact_decimal_def
        strip_zeros.simps show_int_def show_big)

  have "scan_digits ''10e2147483649'' 0 = 2" "parse_decimal ''10'' = Some (10, 0)" by code_simp+
  then show "quantity_from_str exact_decimal ''10e2147483649'' = Inl (QuantityParseError ''10e2147483649'')"
    by (simp add: quantity_from_str_def apply_suffix_def DECIMAL_SUFFIXES_def BINARY_SUFFIXES_def
        strip_exponent_def parse_i32_too_big exact_decimal_def)
qed

end
