(* ===== verification/Rust_Path.thy ===== *)
theory Rust_Path
  imports Rust_String
begin

text \<open>
  Unix semantics of the standard library's \<open>Path\<close> (camino's UTF-8 paths wrap it): absolute
  paths, \<open>join\<close>, the component sequence and \<open>file_name\<close>.
\<close>

datatype path_component = RootDir | CurDir | ParentDir | Normal string

definition is_absolute :: "string \<Rightarrow> bool" where
  "is_absolute p \<longleftrightarrow> starts_with ''/'' p"

definition path_join :: "string \<Rightarrow> string \<Rightarrow> string" where
  "path_join base p =
     (if is_absolute p then p
      else if base = [] \<or> ends_with ''/'' base then base @ p
      else base @ ''/'' @ p)"

definition component_of :: "string \<Rightarrow> path_component list" where
  "component_of s =
     (if s = [] \<or> s = ''.'' then [] else if s = ''..'' then [ParentDir] else [Normal s])"

definition path_components :: "string \<Rightarrow> path_component list" where
  "path_components p =
     (let parts = split_on (CHR ''/'') p
      in (if is_absolute p then [RootDir] else if hd parts = ''.'' then [CurDir] else [])
         @ concat (map component_of parts))"

definition file_name :: "string \<Rightarrow> string option" where
  "file_name p =
     (case path_components p of
        [] \<Rightarrow> None
      | c # cs \<Rightarrow> (case last (c # cs) of Normal s \<Rightarrow> Some s | _ \<Rightarrow> None))"

lemma is_absolute_iff: "is_absolute p \<longleftrightarrow> (\<exists>r. p = CHR ''/'' # r)"
  by (auto simp: is_absolute_def)

lemma path_join_relative:
  "ends_with ''/'' base \<Longrightarrow> \<not> is_absolute p \<Longrightarrow> path_join base p = base @ p"
  by (simp add: path_join_def)

lemma file_name_join:
  assumes "ends_with ''/'' base" "CHR ''/'' \<notin> set p" "p \<noteq> []" "p \<noteq> ''.''" "p \<noteq> ''..''"
  shows "file_name (path_join base p) = Some p"
proof -
  from assms(2,3) have rel: "\<not> is_absolute p" by (auto simp: is_absolute_iff)
  from assms(1) obtain b where b: "base = b @ ''/''" by (auto simp: ends_with_iff)
  have split: "split_on (CHR ''/'') (b @ CHR ''/'' # p) = split_on (CHR ''/'') b @ [p]" for b
    using assms(2)
    by (induction b) (auto simp: split_on_no_sep split: list.splits)
  have "path_join base p = b @ CHR ''/'' # p"
    using rel b assms(1) by (simp add: path_join_relative)
  moreover obtain cs where "path_components (b @ CHR ''/'' # p) = cs @ [Normal p]"
    using assms by (simp add: path_components_def split Let_def component_of_def)
  ultimately show ?thesis
    by (cases cs) (simp_all add: file_name_def)
qed

end
