(* ===== verification/Validation.thy ===== *)
theory Validation
  imports Rust_Path
begin

text \<open>
  \<open>core/src/validation.rs\<close>: the checks on driver, node, pool, resource, counter and device
  names and on paths. The specification side is the RFC 1123 grammar of labels and
  subdomains as inductive predicates; the lemmas show that the checks accept that grammar
  with the Kubernetes length limits and nothing else, and which error each branch returns.
\<close>

subsection \<open>The code\<close>

definition MAX_DEVICE_ID_LEN :: nat where "MAX_DEVICE_ID_LEN = 63"
definition MAX_DRIVER_NAME_LEN :: nat where "MAX_DRIVER_NAME_LEN = 63"
definition MAX_DNS_LABEL_LEN :: nat where "MAX_DNS_LABEL_LEN = 63"
definition MAX_DNS_SUBDOMAIN_LEN :: nat where "MAX_DNS_SUBDOMAIN_LEN = 253"
definition RESERVED_RESOURCE_DOMAIN :: string where
  "RESERVED_RESOURCE_DOMAIN = ''kubernetes.io''"

lemmas validation_consts =
  MAX_DEVICE_ID_LEN_def MAX_DRIVER_NAME_LEN_def MAX_DNS_LABEL_LEN_def
  MAX_DNS_SUBDOMAIN_LEN_def RESERVED_RESOURCE_DOMAIN_def

datatype validation_error =
    InvalidDriverName string
  | InvalidNodeName string
  | InvalidPoolName string
  | DriverNameMismatch (runtime: string) (backend: string)
  | EmptyResourceName
  | MalformedResourceName string
  | InvalidResourceDomain string
  | InvalidResourceNameSuffix string
  | ReservedResourceDomain string
  | EmptyDeviceId
  | DeviceIdTooLong string
  | EmptyPath
  | RelativePath string

text \<open>\<open>Display\<close>; \<open>dbg\<close> is the \<open>{:?}\<close> rendering of a string.\<close>

fun show_validation_error :: "(string \<Rightarrow> string) \<Rightarrow> validation_error \<Rightarrow> string" where
  "show_validation_error dbg (InvalidDriverName n) =
     ''DRA driver name '' @ dbg n @ '' must be a DNS subdomain of at most ''
       @ show_nat MAX_DRIVER_NAME_LEN @ '' characters''"
| "show_validation_error dbg (InvalidNodeName n) =
     ''node name '' @ dbg n @ '' must be a DNS subdomain of at most 253 characters''"
| "show_validation_error dbg (InvalidPoolName n) =
     ''pool name '' @ dbg n
       @ '' must be slash-separated DNS subdomains of at most 253 characters in total''"
| "show_validation_error dbg (DriverNameMismatch r b) =
     ''runtime driver name '' @ dbg r @ '' differs from backend driver name '' @ dbg b"
| "show_validation_error dbg EmptyResourceName = ''resource name must not be empty''"
| "show_validation_error dbg (MalformedResourceName n) =
     ''resource name '' @ dbg n @ '' must have the form '' @ [CHR 0x22] @ ''<domain>/<name>'' @ [CHR 0x22]"
| "show_validation_error dbg (InvalidResourceDomain n) =
     ''resource name domain '' @ dbg n @ '' is not a valid DNS subdomain''"
| "show_validation_error dbg (InvalidResourceNameSuffix n) =
     ''resource name suffix '' @ dbg n @ '' is not a valid DNS label''"
| "show_validation_error dbg (ReservedResourceDomain n) =
     ''resource name domain '' @ dbg n @ '' is reserved for kubernetes.io''"
| "show_validation_error dbg EmptyDeviceId = ''device id must not be empty''"
| "show_validation_error dbg (DeviceIdTooLong n) =
     ''device id '' @ dbg n @ '' exceeds the '' @ show_nat MAX_DEVICE_ID_LEN @ ''-character limit''"
| "show_validation_error dbg EmptyPath = ''path must not be empty''"
| "show_validation_error dbg (RelativePath n) = ''path '' @ dbg n @ '' must be absolute''"

definition is_valid_dns_label :: "string \<Rightarrow> bool" where
  "is_valid_dns_label s \<longleftrightarrow>
     s \<noteq> []
     \<and> length s \<le> MAX_DNS_LABEL_LEN
     \<and> list_all (\<lambda>c. is_ascii_lowercase c \<or> is_ascii_digit c \<or> c = CHR ''-'') s
     \<and> \<not> starts_with ''-'' s
     \<and> \<not> ends_with ''-'' s"

definition is_valid_dns_subdomain :: "string \<Rightarrow> bool" where
  "is_valid_dns_subdomain s \<longleftrightarrow>
     s \<noteq> [] \<and> length s \<le> MAX_DNS_SUBDOMAIN_LEN
     \<and> list_all is_valid_dns_label (split_on (CHR ''.'') s)"

definition is_valid_counter_name :: "string \<Rightarrow> bool" where
  "is_valid_counter_name name = is_valid_dns_label name"

definition validate_driver_name :: "string \<Rightarrow> validation_error + unit" where
  "validate_driver_name name =
     (if length name > MAX_DRIVER_NAME_LEN \<or> \<not> is_valid_dns_subdomain name
      then Inl (InvalidDriverName name) else Inr ())"

definition validate_node_name :: "string \<Rightarrow> validation_error + unit" where
  "validate_node_name name =
     (if \<not> is_valid_dns_subdomain name then Inl (InvalidNodeName name) else Inr ())"

definition validate_pool_name :: "string \<Rightarrow> validation_error + unit" where
  "validate_pool_name name =
     (if length name > MAX_DNS_SUBDOMAIN_LEN
         \<or> \<not> list_all is_valid_dns_subdomain (split_on (CHR ''/'') name)
      then Inl (InvalidPoolName name) else Inr ())"

definition validate_resource_name :: "string \<Rightarrow> validation_error + unit" where
  "validate_resource_name name =
     (if name = [] then Inl EmptyResourceName
      else (case split_once (CHR ''/'') name of
        None \<Rightarrow> Inl (MalformedResourceName name)
      | Some (domain, suffix) \<Rightarrow>
          if CHR ''/'' \<in> set suffix then Inl (MalformedResourceName name)
          else if \<not> is_valid_dns_subdomain domain then Inl (InvalidResourceDomain domain)
          else if \<not> is_valid_dns_label suffix then Inl (InvalidResourceNameSuffix suffix)
          else if domain = RESERVED_RESOURCE_DOMAIN
               \<or> (case strip_suffix RESERVED_RESOURCE_DOMAIN domain of
                     None \<Rightarrow> False | Some prefix \<Rightarrow> ends_with ''.'' prefix)
          then Inl (ReservedResourceDomain domain)
          else Inr ()))"

definition validate_device_id :: "string \<Rightarrow> validation_error + unit" where
  "validate_device_id i =
     (if i = [] then Inl EmptyDeviceId
      else if length i > MAX_DEVICE_ID_LEN then Inl (DeviceIdTooLong i)
      else Inr ())"

definition validate_absolute_path :: "string \<Rightarrow> validation_error + unit" where
  "validate_absolute_path path =
     (if path = [] then Inl EmptyPath
      else if \<not> is_absolute path then Inl (RelativePath path)
      else Inr ())"

lemmas validate_defs =
  validate_driver_name_def validate_node_name_def validate_pool_name_def
  validate_resource_name_def validate_device_id_def validate_absolute_path_def

subsection \<open>The grammar of DNS names (RFC 1123)\<close>

definition label_char :: "char \<Rightarrow> bool" where
  "label_char c \<longleftrightarrow> is_ascii_lowercase c \<or> is_ascii_digit c"

inductive rfc_label :: "string \<Rightarrow> bool" where
  single: "label_char c \<Longrightarrow> rfc_label [c]"
| longer: "label_char c \<Longrightarrow> label_char d \<Longrightarrow>
     list_all (\<lambda>x. label_char x \<or> x = CHR ''-'') m \<Longrightarrow> rfc_label (c # m @ [d])"

inductive rfc_subdomain :: "string \<Rightarrow> bool" where
  one: "rfc_label l \<Longrightarrow> length l \<le> 63 \<Longrightarrow> rfc_subdomain l"
| dot: "rfc_label l \<Longrightarrow> length l \<le> 63 \<Longrightarrow> rfc_subdomain s \<Longrightarrow>
     rfc_subdomain (l @ CHR ''.'' # s)"

lemma not_label_char [simp]:
  "\<not> label_char (CHR ''-'')" "\<not> label_char (CHR ''.'')" "\<not> label_char (CHR ''/'')"
  "\<not> label_char (CHR ''|'')" "\<not> label_char (CHR ''_'')"
  by (simp_all add: label_char_def ascii_defs)

lemma rfc_label_iff:
  "rfc_label s \<longleftrightarrow>
     s \<noteq> [] \<and> list_all (\<lambda>c. label_char c \<or> c = CHR ''-'') s
     \<and> \<not> starts_with ''-'' s \<and> \<not> ends_with ''-'' s"
  (is "_ = ?rhs s")
proof
  assume "rfc_label s"
  then show "?rhs s"
    by (induction rule: rfc_label.induct) (auto simp: ends_with_def)
next
  assume rhs: "?rhs s"
  then obtain c t where s: "s = c # t" by (cases s) auto
  with rhs have c: "label_char c" by auto
  show "rfc_label s"
  proof (cases t rule: rev_cases)
    case Nil
    with s c show ?thesis by (simp add: rfc_label.single)
  next
    case (snoc m d)
    with s rhs have "label_char d" by (auto simp: ends_with_def)
    with s snoc rhs c show ?thesis by (simp add: rfc_label.longer)
  qed
qed

lemma is_valid_dns_label_iff: "is_valid_dns_label s \<longleftrightarrow> rfc_label s \<and> length s \<le> 63"
  by (auto simp: is_valid_dns_label_def rfc_label_iff validation_consts label_char_def)

lemma label_chars:
  "is_valid_dns_label s \<Longrightarrow> c \<in> set s \<Longrightarrow> label_char c \<or> c = CHR ''-''"
  by (auto simp: is_valid_dns_label_iff rfc_label_iff list_all_iff)

lemma label_not_empty: "is_valid_dns_label s \<Longrightarrow> s \<noteq> []"
  by (simp add: is_valid_dns_label_def)

lemma label_no_dot: "is_valid_dns_label s \<Longrightarrow> CHR ''.'' \<notin> set s"
  by (auto dest: label_chars)

lemma rfc_subdomain_split:
  "rfc_subdomain s \<longleftrightarrow> list_all is_valid_dns_label (split_on (CHR ''.'') s)"
proof
  assume "rfc_subdomain s"
  then show "list_all is_valid_dns_label (split_on (CHR ''.'') s)"
  proof (induction rule: rfc_subdomain.induct)
    case (one l)
    then have "is_valid_dns_label l" by (simp add: is_valid_dns_label_iff)
    then show ?case by (simp add: split_on_no_sep label_no_dot)
  next
    case (dot l s)
    then have "is_valid_dns_label l" by (simp add: is_valid_dns_label_iff)
    with dot show ?case by (simp add: split_on_append label_no_dot)
  qed
next
  have *: "list_all is_valid_dns_label ps \<Longrightarrow> ps \<noteq> [] \<Longrightarrow> rfc_subdomain (join_with (CHR ''.'') ps)"
    for ps
    by (induction "CHR ''.''" ps rule: join_with.induct)
      (auto simp: is_valid_dns_label_iff intro: rfc_subdomain.intros)
  assume "list_all is_valid_dns_label (split_on (CHR ''.'') s)"
  then show "rfc_subdomain s" using * [of "split_on (CHR ''.'') s"] by (simp add: join_split_on)
qed

lemma rfc_subdomain_not_empty: "rfc_subdomain s \<Longrightarrow> s \<noteq> []"
  by (induction rule: rfc_subdomain.induct) (auto elim: rfc_label.cases)

lemma is_valid_dns_subdomain_rfc:
  "is_valid_dns_subdomain s \<longleftrightarrow> rfc_subdomain s \<and> length s \<le> 253"
  unfolding is_valid_dns_subdomain_def validation_consts rfc_subdomain_split [symmetric]
  using rfc_subdomain_not_empty by blast

lemma rfc_subdomain_chars:
  "rfc_subdomain s \<Longrightarrow> c \<in> set s \<Longrightarrow> label_char c \<or> c = CHR ''-'' \<or> c = CHR ''.''"
  by (induction rule: rfc_subdomain.induct) (auto simp: rfc_label_iff list_all_iff)

lemma subdomain_chars:
  "is_valid_dns_subdomain s \<Longrightarrow> c \<in> set s \<Longrightarrow> label_char c \<or> c = CHR ''-'' \<or> c = CHR ''.''"
  by (auto simp: is_valid_dns_subdomain_rfc dest: rfc_subdomain_chars)

lemma subdomain_no_slash: "is_valid_dns_subdomain s \<Longrightarrow> CHR ''/'' \<notin> set s"
  using subdomain_chars by fastforce

lemma label_no_slash: "is_valid_dns_label s \<Longrightarrow> CHR ''/'' \<notin> set s"
  using label_chars by fastforce

subsection \<open>Accepted names\<close>

lemma validate_driver_name_ok:
  "validate_driver_name n = Inr () \<longleftrightarrow> rfc_subdomain n \<and> length n \<le> 63"
  by (auto simp: validate_driver_name_def is_valid_dns_subdomain_rfc validation_consts)

lemma validate_node_name_ok:
  "validate_node_name n = Inr () \<longleftrightarrow> rfc_subdomain n \<and> length n \<le> 253"
  by (auto simp: validate_node_name_def is_valid_dns_subdomain_rfc)

lemma validate_pool_name_ok:
  "validate_pool_name n = Inr () \<longleftrightarrow>
     length n \<le> 253
     \<and> (\<exists>ps. ps \<noteq> [] \<and> (\<forall>p \<in> set ps. rfc_subdomain p) \<and> n = join_with (CHR ''/'') ps)"
  (is "_ = ?rhs")
proof
  assume ok: "validate_pool_name n = Inr ()"
  let ?ps = "split_on (CHR ''/'') n"
  from ok have "length n \<le> 253" and "\<forall>p \<in> set ?ps. rfc_subdomain p"
    by (auto simp: validate_pool_name_def validation_consts list_all_iff is_valid_dns_subdomain_rfc
        split: if_splits)
  then show ?rhs by (metis join_split_on split_on_neq_Nil)
next
  assume ?rhs
  then obtain ps where ps: "ps \<noteq> []" "\<forall>p \<in> set ps. rfc_subdomain p"
    and n: "n = join_with (CHR ''/'') ps" "length n \<le> 253"
    by auto
  have "CHR ''/'' \<notin> set p" if "p \<in> set ps" for p
    using ps(2) that rfc_subdomain_chars by fastforce
  then have "split_on (CHR ''/'') n = ps"
    using ps n by (simp add: split_join)
  moreover have "length p \<le> 253" if "p \<in> set ps" for p
    using that n
  proof -
    have "length p \<le> length (join_with (CHR ''/'') ps)" using that
      by (induction "CHR ''/''" ps rule: join_with.induct) auto
    with n show ?thesis by simp
  qed
  ultimately show "validate_pool_name n = Inr ()"
    using ps n by (auto simp: validate_pool_name_def validation_consts list_all_iff
        is_valid_dns_subdomain_rfc)
qed

lemma pool_name_chars:
  "validate_pool_name n = Inr () \<Longrightarrow> c \<in> set n \<Longrightarrow>
     label_char c \<or> c = CHR ''-'' \<or> c = CHR ''.'' \<or> c = CHR ''/''"
  unfolding validate_pool_name_ok using set_join_with rfc_subdomain_chars by fastforce

text \<open>A domain of the form \<open>kubernetes.io\<close> or \<open>\<dots>.kubernetes.io\<close>.\<close>

definition reserved_domain :: "string \<Rightarrow> bool" where
  "reserved_domain d \<longleftrightarrow> d = ''kubernetes.io'' \<or> (\<exists>p. d = p @ ''.kubernetes.io'')"

lemma reserved_check:
  "(domain = RESERVED_RESOURCE_DOMAIN
     \<or> (case strip_suffix RESERVED_RESOURCE_DOMAIN domain of
           None \<Rightarrow> False | Some prefix \<Rightarrow> ends_with ''.'' prefix))
   \<longleftrightarrow> reserved_domain domain"
proof -
  have "(case strip_suffix RESERVED_RESOURCE_DOMAIN domain of
           None \<Rightarrow> False | Some prefix \<Rightarrow> ends_with ''.'' prefix)
     \<longleftrightarrow> (\<exists>p. domain = p @ ''.'' @ ''kubernetes.io'')"
  proof (cases "strip_suffix RESERVED_RESOURCE_DOMAIN domain")
    case None
    have "domain \<noteq> (p @ ''.'') @ ''kubernetes.io''" for p
      using None strip_suffix_Some [of "''kubernetes.io''" domain "p @ ''.''"]
      by (simp add: RESERVED_RESOURCE_DOMAIN_def)
    with None show ?thesis by simp
  next
    case (Some r)
    then have "domain = r @ ''kubernetes.io''"
      by (simp add: strip_suffix_Some RESERVED_RESOURCE_DOMAIN_def)
    with Some show ?thesis by (auto simp: ends_with_iff)
  qed
  then show ?thesis by (simp add: reserved_domain_def RESERVED_RESOURCE_DOMAIN_def)
qed

lemma validate_resource_name_split:
  assumes "CHR ''/'' \<notin> set d"
  shows "validate_resource_name (d @ CHR ''/'' # s) =
     (if CHR ''/'' \<in> set s then Inl (MalformedResourceName (d @ CHR ''/'' # s))
      else if \<not> is_valid_dns_subdomain d then Inl (InvalidResourceDomain d)
      else if \<not> is_valid_dns_label s then Inl (InvalidResourceNameSuffix s)
      else if reserved_domain d then Inl (ReservedResourceDomain d)
      else Inr ())"
proof -
  have "split_once (CHR ''/'') (d @ CHR ''/'' # s) = Some (d, s)"
    using assms by (simp add: split_once_Some_iff)
  then show ?thesis
    unfolding validate_resource_name_def by (simp only: reserved_check) simp
qed

lemma validate_resource_name_ok:
  "validate_resource_name n = Inr () \<longleftrightarrow>
     (\<exists>d s. n = d @ ''/'' @ s \<and> rfc_subdomain d \<and> length d \<le> 253
        \<and> rfc_label s \<and> length s \<le> 63 \<and> \<not> reserved_domain d)"
  (is "_ = ?rhs")
proof
  assume ok: "validate_resource_name n = Inr ()"
  then obtain d s where "split_once (CHR ''/'') n = Some (d, s)"
    by (auto simp: validate_resource_name_def split: if_splits option.splits)
  then have n: "n = d @ CHR ''/'' # s" "CHR ''/'' \<notin> set d"
    by (simp_all add: split_once_Some_iff)
  with ok show ?rhs
    by (intro exI [of _ d] exI [of _ s])
      (simp add: validate_resource_name_split is_valid_dns_subdomain_rfc is_valid_dns_label_iff
        split: if_splits)
next
  assume ?rhs
  then obtain d s where n: "n = d @ CHR ''/'' # s" and d: "is_valid_dns_subdomain d"
    and s: "is_valid_dns_label s" and "\<not> reserved_domain d"
    by (auto simp: is_valid_dns_subdomain_rfc is_valid_dns_label_iff)
  then show "validate_resource_name n = Inr ()"
    by (simp add: validate_resource_name_split subdomain_no_slash label_no_slash)
qed

subsection \<open>Properties\<close>

text \<open>
  C8: a resource name is accepted exactly when it is a DNS subdomain of at most 253 bytes, a slash
  and a DNS label of at most 63 bytes, and the domain is neither \<open>kubernetes.io\<close> nor below it.
\<close>
theorem resource_names_accepted:
  "validate_resource_name n = Inr () \<longleftrightarrow>
     (\<exists>d s. n = d @ ''/'' @ s \<and> rfc_subdomain d \<and> length d \<le> 253
        \<and> rfc_label s \<and> length s \<le> 63 \<and> \<not> reserved_domain d)"
  by (rule validate_resource_name_ok)

text \<open>
  A pool name is accepted exactly when it is a non-empty sequence of DNS subdomains joined by
  slashes, of at most 253 bytes in total.
\<close>
theorem pool_names_accepted:
  "validate_pool_name n = Inr () \<longleftrightarrow>
     length n \<le> 253
     \<and> (\<exists>ps. ps \<noteq> [] \<and> (\<forall>p \<in> set ps. rfc_subdomain p) \<and> n = join_with (CHR ''/'') ps)"
  by (rule validate_pool_name_ok)

lemma resource_names_accepted_witness: "validate_resource_name ''example.com/widget'' = Inr ()"
proof -
  have "is_valid_dns_subdomain ''example.com'' \<and> is_valid_dns_label ''widget''" by code_simp
  moreover have "\<not> reserved_domain ''example.com''"
    using reserved_check [of "''example.com''"]
    by (simp add: RESERVED_RESOURCE_DOMAIN_def strip_suffix_def)
  ultimately show ?thesis
    unfolding resource_names_accepted
    by (intro exI [of _ "''example.com''"] exI [of _ "''widget''"])
      (auto simp: is_valid_dns_subdomain_rfc is_valid_dns_label_iff)
qed

end
