(* ===== verification/Core_Types.thy ===== *)
theory Core_Types
  imports Validation Rust_BTree
begin

text \<open>
  \<open>core/src/{health,permissions,device}.rs\<close> and the data of \<open>core/src/lib.rs\<close>: health,
  permissions, device paths, mounts, devices, container allocations and allocation errors,
  with their constructors and validation.
\<close>

subsection \<open>Health and permissions\<close>

datatype health = Healthy | Unhealthy

fun health_as_str :: "health \<Rightarrow> string" where
  "health_as_str Healthy = ''Healthy''"
| "health_as_str Unhealthy = ''Unhealthy''"

record device_permissions =
  perm_read :: bool
  perm_write :: bool
  perm_mknod :: bool

definition permissions_rdonly :: device_permissions where
  "permissions_rdonly = \<lparr>perm_read = True, perm_write = False, perm_mknod = False\<rparr>"

definition permissions_rdwr :: device_permissions where
  "permissions_rdwr = \<lparr>perm_read = True, perm_write = True, perm_mknod = False\<rparr>"

definition permissions_as_str :: "device_permissions \<Rightarrow> string" where
  "permissions_as_str p =
     (case (perm_read p, perm_write p, perm_mknod p) of
        (True, True, True) \<Rightarrow> ''rwm''
      | (True, True, False) \<Rightarrow> ''rw''
      | (True, False, True) \<Rightarrow> ''rm''
      | (True, False, False) \<Rightarrow> ''r''
      | (False, True, True) \<Rightarrow> ''wm''
      | (False, True, False) \<Rightarrow> ''w''
      | (False, False, True) \<Rightarrow> ''m''
      | (False, False, False) \<Rightarrow> '''')"

lemma permissions_as_str_chars:
  "set (permissions_as_str p) =
     (if perm_read p then {CHR ''r''} else {}) \<union> (if perm_write p then {CHR ''w''} else {})
       \<union> (if perm_mknod p then {CHR ''m''} else {})"
  by (auto simp: permissions_as_str_def split: bool.splits)

lemma permissions_as_str_inj: "permissions_as_str p = permissions_as_str q \<Longrightarrow> p = q"
  by (cases p; cases q) (auto simp: permissions_as_str_def split: bool.splits)

subsection \<open>Devices\<close>

record device_path =
  dp_host_path :: string
  dp_container_path :: string
  dp_permissions :: device_permissions

record host_mount =
  hm_host_path :: string
  hm_container_path :: string
  hm_read_only :: bool

record device =
  dev_id :: string
  dev_health :: health
  dev_paths :: "device_path list"

definition device_path_rdwr :: "string \<Rightarrow> device_path" where
  "device_path_rdwr path =
     \<lparr>dp_host_path = path, dp_container_path = path, dp_permissions = permissions_rdwr\<rparr>"

definition device_path_validate :: "device_path \<Rightarrow> validation_error + unit" where
  "device_path_validate p =
     res_bind (validate_absolute_path (dp_host_path p))
       (\<lambda>_. validate_absolute_path (dp_container_path p))"

definition host_mount_validate :: "host_mount \<Rightarrow> validation_error + unit" where
  "host_mount_validate m =
     res_bind (validate_absolute_path (hm_host_path m))
       (\<lambda>_. validate_absolute_path (hm_container_path m))"

definition device_validate :: "device \<Rightarrow> validation_error + unit" where
  "device_validate d =
     res_bind (validate_device_id (dev_id d)) (\<lambda>_. for_each device_path_validate (dev_paths d))"

definition device_new :: "string \<Rightarrow> device" where
  "device_new i = \<lparr>dev_id = i, dev_health = Healthy, dev_paths = []\<rparr>"

definition device_rdwr :: "string \<Rightarrow> string \<Rightarrow> device" where
  "device_rdwr i path = \<lparr>dev_id = i, dev_health = Healthy, dev_paths = [device_path_rdwr path]\<rparr>"

definition device_health :: "device \<Rightarrow> health \<Rightarrow> device" where
  "device_health d h = d\<lparr>dev_health := h\<rparr>"

subsection \<open>Allocations\<close>

record container_allocation =
  ca_device_paths :: "device_path list"
  ca_mounts :: "host_mount list"
  ca_envs :: "(string, string) btree"
  ca_annotations :: "(string, string) btree"
  ca_cdi_devices :: "string list"

definition container_allocation_default :: container_allocation where
  "container_allocation_default =
     \<lparr>ca_device_paths = [], ca_mounts = [], ca_envs = [], ca_annotations = [], ca_cdi_devices = []\<rparr>"

definition container_allocation_validate :: "container_allocation \<Rightarrow> validation_error + unit" where
  "container_allocation_validate a =
     res_bind (for_each device_path_validate (ca_device_paths a))
       (\<lambda>_. for_each host_mount_validate (ca_mounts a))"

datatype allocation_error =
    DeviceNotFound string
  | PreferredAllocationUnavailable
  | HookFailed string
  | DeviceUnavailable string

fun show_allocation_error :: "allocation_error \<Rightarrow> string" where
  "show_allocation_error (DeviceNotFound s) = ''device not found: '' @ s"
| "show_allocation_error PreferredAllocationUnavailable =
     ''preferred allocation is not available for this plugin''"
| "show_allocation_error (HookFailed s) = ''hook failed: '' @ s"
| "show_allocation_error (DeviceUnavailable s) = ''device unavailable: '' @ s"

subsection \<open>What validation accepts\<close>

lemma validate_absolute_path_ok: "validate_absolute_path p = Inr () \<longleftrightarrow> is_absolute p"
  by (auto simp: validate_absolute_path_def is_absolute_iff)

lemma device_path_validate_ok:
  "device_path_validate p = Inr () \<longleftrightarrow>
     is_absolute (dp_host_path p) \<and> is_absolute (dp_container_path p)"
  by (auto simp: device_path_validate_def res_simps validate_absolute_path_ok)

lemma host_mount_validate_ok:
  "host_mount_validate m = Inr () \<longleftrightarrow>
     is_absolute (hm_host_path m) \<and> is_absolute (hm_container_path m)"
  by (auto simp: host_mount_validate_def res_simps validate_absolute_path_ok)

lemma validate_device_id_ok: "validate_device_id i = Inr () \<longleftrightarrow> i \<noteq> [] \<and> length i \<le> 63"
  by (auto simp: validate_device_id_def validation_consts)

lemma device_validate_ok:
  "device_validate d = Inr () \<longleftrightarrow>
     dev_id d \<noteq> [] \<and> length (dev_id d) \<le> 63
     \<and> (\<forall>p \<in> set (dev_paths d). is_absolute (dp_host_path p) \<and> is_absolute (dp_container_path p))"
  by (auto simp: device_validate_def res_simps validate_device_id_ok device_path_validate_ok)

lemma container_allocation_validate_ok:
  "container_allocation_validate a = Inr () \<longleftrightarrow>
     (\<forall>p \<in> set (ca_device_paths a). is_absolute (dp_host_path p) \<and> is_absolute (dp_container_path p))
     \<and> (\<forall>m \<in> set (ca_mounts a). is_absolute (hm_host_path m) \<and> is_absolute (hm_container_path m))"
  by (auto simp: container_allocation_validate_def res_simps device_path_validate_ok
      host_mount_validate_ok)

end
