(* ===== verification/Inventory.thy ===== *)
theory Inventory
  imports Core_Types Quantity
begin

text \<open>
  \<open>core/src/dra.rs\<close>, \<open>core/src/dra/attribute.rs\<close> and \<open>core/src/dra/inventory.rs\<close>: the data a
  DRA backend hands to the runtime (devices, attributes, capacities, taints, bindings, shared
  counters), claim references with the derived order, prepared devices, and the default
  methods of the backend traits. Quantities are over the \<open>bigdecimal\<close> type \<open>'b\<close>.
\<close>

subsection \<open>Attributes and devices\<close>

datatype attribute_value =
  AttrString string | AttrInt int | AttrBool bool | AttrVersion string

record 'b pool_device =
  pd_name :: string
  pd_attributes :: "(string, attribute_value) btree"
  pd_capacity :: "(string, 'b quantity) btree"
  pd_health :: health

definition pool_device_new :: "string \<Rightarrow> 'b pool_device" where
  "pool_device_new n = \<lparr>pd_name = n, pd_attributes = [], pd_capacity = [], pd_health = Healthy\<rparr>"

definition pool_device_health :: "'b pool_device \<Rightarrow> health \<Rightarrow> 'b pool_device" where
  "pool_device_health d h = d\<lparr>pd_health := h\<rparr>"

definition pool_device_attribute ::
    "'b pool_device \<Rightarrow> string \<Rightarrow> attribute_value \<Rightarrow> 'b pool_device" where
  "pool_device_attribute d key value = d\<lparr>pd_attributes := bt_insert key value (pd_attributes d)\<rparr>"

definition pool_device_capacity :: "'b pool_device \<Rightarrow> string \<Rightarrow> 'b quantity \<Rightarrow> 'b pool_device" where
  "pool_device_capacity d key q = d\<lparr>pd_capacity := bt_insert key q (pd_capacity d)\<rparr>"

subsection \<open>Taints, bindings, counters and pools\<close>

datatype device_taint_effect = EffectNone | NoSchedule | NoExecute

fun taint_effect_as_str :: "device_taint_effect \<Rightarrow> string" where
  "taint_effect_as_str EffectNone = ''None''"
| "taint_effect_as_str NoSchedule = ''NoSchedule''"
| "taint_effect_as_str NoExecute = ''NoExecute''"

record device_taint =
  dt_key :: string
  dt_value :: string
  dt_effect :: device_taint_effect
  dt_time_added :: "int option"

definition device_taint_new :: "string \<Rightarrow> device_taint_effect \<Rightarrow> device_taint" where
  "device_taint_new key eff =
     \<lparr>dt_key = key, dt_value = '''', dt_effect = eff, dt_time_added = None\<rparr>"

definition device_taint_with_value :: "device_taint \<Rightarrow> string \<Rightarrow> device_taint" where
  "device_taint_with_value t v = t\<lparr>dt_value := v\<rparr>"

definition device_taint_with_time_added :: "device_taint \<Rightarrow> int \<Rightarrow> device_taint" where
  "device_taint_with_time_added t unix_seconds = t\<lparr>dt_time_added := Some unix_seconds\<rparr>"

record device_binding =
  db_conditions :: "string list"
  db_failure_conditions :: "string list"
  db_binds_to_node :: bool

definition device_binding_new :: device_binding where
  "device_binding_new =
     \<lparr>db_conditions = [], db_failure_conditions = [], db_binds_to_node = False\<rparr>"

definition device_binding_with_condition :: "device_binding \<Rightarrow> string \<Rightarrow> device_binding" where
  "device_binding_with_condition b c = b\<lparr>db_conditions := db_conditions b @ [c]\<rparr>"

definition device_binding_with_failure_condition :: "device_binding \<Rightarrow> string \<Rightarrow> device_binding" where
  "device_binding_with_failure_condition b c =
     b\<lparr>db_failure_conditions := db_failure_conditions b @ [c]\<rparr>"

definition device_binding_with_node_binding :: "device_binding \<Rightarrow> device_binding" where
  "device_binding_with_node_binding b = b\<lparr>db_binds_to_node := True\<rparr>"

record 'b counter_set =
  cs_name :: string
  cs_counters :: "(string, 'b quantity) btree"

definition counter_set_new :: "string \<Rightarrow> 'b counter_set" where
  "counter_set_new n = \<lparr>cs_name = n, cs_counters = []\<rparr>"

definition counter_set_counter :: "'b counter_set \<Rightarrow> string \<Rightarrow> 'b quantity \<Rightarrow> 'b counter_set" where
  "counter_set_counter s n v = s\<lparr>cs_counters := bt_insert n v (cs_counters s)\<rparr>"

record 'b device_counter_consumption =
  cc_counter_set :: string
  cc_counters :: "(string, 'b quantity) btree"

definition counter_consumption_new :: "string \<Rightarrow> 'b device_counter_consumption" where
  "counter_consumption_new n = \<lparr>cc_counter_set = n, cc_counters = []\<rparr>"

definition counter_consumption_counter ::
    "'b device_counter_consumption \<Rightarrow> string \<Rightarrow> 'b quantity \<Rightarrow> 'b device_counter_consumption" where
  "counter_consumption_counter c n v = c\<lparr>cc_counters := bt_insert n v (cc_counters c)\<rparr>"

record 'b inventory_device =
  id_device :: "'b pool_device"
  id_taints :: "device_taint list"
  id_binding :: "device_binding option"
  id_consumes_counters :: "'b device_counter_consumption list"

definition inventory_device_new :: "'b pool_device \<Rightarrow> 'b inventory_device" where
  "inventory_device_new d =
     \<lparr>id_device = d, id_taints = [], id_binding = None, id_consumes_counters = []\<rparr>"

definition inventory_device_with_taint :: "'b inventory_device \<Rightarrow> device_taint \<Rightarrow> 'b inventory_device" where
  "inventory_device_with_taint d t = d\<lparr>id_taints := id_taints d @ [t]\<rparr>"

definition inventory_device_with_binding ::
    "'b inventory_device \<Rightarrow> device_binding \<Rightarrow> 'b inventory_device" where
  "inventory_device_with_binding d b = d\<lparr>id_binding := Some b\<rparr>"

definition inventory_device_with_consumes_counters ::
    "'b inventory_device \<Rightarrow> 'b device_counter_consumption \<Rightarrow> 'b inventory_device" where
  "inventory_device_with_consumes_counters d c =
     d\<lparr>id_consumes_counters := id_consumes_counters d @ [c]\<rparr>"

record 'b pool_inventory =
  pi_devices :: "'b inventory_device list"
  pi_shared_counters :: "'b counter_set list"

definition pool_inventory_new :: "'b inventory_device list \<Rightarrow> 'b pool_inventory" where
  "pool_inventory_new ds = \<lparr>pi_devices = ds, pi_shared_counters = []\<rparr>"

definition pool_inventory_with_counter_set ::
    "'b pool_inventory \<Rightarrow> 'b counter_set \<Rightarrow> 'b pool_inventory" where
  "pool_inventory_with_counter_set p c = p\<lparr>pi_shared_counters := pi_shared_counters p @ [c]\<rparr>"

text \<open>The default methods \<open>ResourcePool::inventory\<close> and \<open>ResourcePool::snapshot\<close>.\<close>

definition default_inventory ::
    "(string, 'b pool_device list) btree \<Rightarrow> (string, 'b inventory_device list) btree" where
  "default_inventory devices =
     bt_collect (map (\<lambda>(pool, ds). (pool, map inventory_device_new ds)) devices)"

definition default_snapshot ::
    "(string, 'b inventory_device list) btree \<Rightarrow> (string, 'b pool_inventory) btree" where
  "default_snapshot inventory = bt_collect (map (\<lambda>(name, ds). (name, pool_inventory_new ds)) inventory)"

subsection \<open>Claims\<close>

datatype claim_ref = ClaimRef (cr_namespace: string) (cr_uid: string) (cr_name: string)

text \<open>The derived \<open>Ord\<close>: lexicographic in the order of the fields.\<close>

definition claim_key :: "claim_ref \<Rightarrow> string \<times> string \<times> string" where
  "claim_key c = (cr_namespace c, cr_uid c, cr_name c)"

lemma claim_key_inj: "claim_key a = claim_key b \<longleftrightarrow> a = b"
  by (cases a; cases b) (auto simp: claim_key_def)

instantiation claim_ref :: linorder
begin

definition less_eq_claim_ref :: "claim_ref \<Rightarrow> claim_ref \<Rightarrow> bool" where
  "less_eq_claim_ref a b \<longleftrightarrow> claim_key a \<le> claim_key b"

definition less_claim_ref :: "claim_ref \<Rightarrow> claim_ref \<Rightarrow> bool" where
  "less_claim_ref a b \<longleftrightarrow> claim_key a < claim_key b"

instance
proof
  fix a b c :: claim_ref
  show "a < b \<longleftrightarrow> a \<le> b \<and> \<not> b \<le> a"
    by (simp add: less_eq_claim_ref_def less_claim_ref_def less_le_not_le)
  show "a \<le> a" by (simp add: less_eq_claim_ref_def)
  show "a \<le> b \<Longrightarrow> b \<le> c \<Longrightarrow> a \<le> c" unfolding less_eq_claim_ref_def by (rule order_trans)
  show "a \<le> b \<Longrightarrow> b \<le> a \<Longrightarrow> a = b"
    unfolding less_eq_claim_ref_def by (metis antisym claim_key_inj)
  show "a \<le> b \<or> b \<le> a" unfolding less_eq_claim_ref_def by (rule linear)
qed

end

record allocated_device =
  ad_pool_name :: string
  ad_device_name :: string
  ad_request_name :: "string option"

record resolved_claim =
  rc_claim :: claim_ref
  rc_devices :: "allocated_device list"

record prepared_device =
  pr_request_names :: "string list"
  pr_pool_name :: string
  pr_device_name :: string
  pr_cdi_device_ids :: "string list"

record prepared_with_metadata =
  pm_device :: prepared_device
  pm_attributes :: "(string, attribute_value) btree"

definition prepared_with_metadata_new :: "prepared_device \<Rightarrow> prepared_with_metadata" where
  "prepared_with_metadata_new d = \<lparr>pm_device = d, pm_attributes = []\<rparr>"

definition prepared_with_attribute ::
    "prepared_with_metadata \<Rightarrow> string \<Rightarrow> attribute_value \<Rightarrow> prepared_with_metadata" where
  "prepared_with_attribute p n v = p\<lparr>pm_attributes := bt_insert n v (pm_attributes p)\<rparr>"

datatype prepare_error =
    ClaimNotAllocated claim_ref
  | PrepareDeviceUnavailable string
  | PrepareHookFailed string
  | ResolutionFailed string

text \<open>\<open>Display\<close>; \<open>dbg\<close> is the derived \<open>Debug\<close> text of the claim reference.\<close>

fun show_prepare_error :: "(claim_ref \<Rightarrow> string) \<Rightarrow> prepare_error \<Rightarrow> string" where
  "show_prepare_error dbg (ClaimNotAllocated c) = ''claim is not allocated: '' @ dbg c"
| "show_prepare_error dbg (PrepareDeviceUnavailable s) = ''device unavailable: '' @ s"
| "show_prepare_error dbg (PrepareHookFailed s) = ''hook failed: '' @ s"
| "show_prepare_error dbg (ResolutionFailed s) = ''failed to resolve claim: '' @ s"

text \<open>The default method \<open>ClaimPreparer::prepare_with_metadata\<close>.\<close>

definition default_prepare_with_metadata ::
    "(claim_ref, prepare_error + prepared_device list) btree
      \<Rightarrow> (claim_ref, prepare_error + prepared_with_metadata list) btree" where
  "default_prepare_with_metadata results =
     bt_collect (map (\<lambda>(claim, result). (claim, res_map (map prepared_with_metadata_new) result)) results)"

subsection \<open>The default methods keep every key\<close>

lemma bt_collect_map_values:
  assumes "bt_ok m"
  shows "bt_collect (map (\<lambda>(k, v). (k, f v)) m) = bt_map_values f m"
proof (rule bt.entries_ext)
  have keys: "map fst (map (\<lambda>(k, v). (k, f v)) m) = map fst m" by (simp add: split_beta)
  show "bt_ok (bt_map_values f m)" using assms by simp
  fix k
  have "bt_lookup (bt_collect (map (\<lambda>(k, v). (k, f v)) m)) k = map_of (map (\<lambda>(k, v). (k, f v)) m) k"
    unfolding bt_collect_eq
    by (rule bt.lookup_collect_distinct) (simp only: keys bt_ok_distinct [OF assms])
  then show "bt_lookup (bt_collect (map (\<lambda>(k, v). (k, f v)) m)) k = bt_lookup (bt_map_values f m) k"
    by (simp add: bt_map_values_def bt_lookup_def)
qed simp

lemma default_inventory_lookup:
  "bt_ok devices \<Longrightarrow>
     bt_lookup (default_inventory devices) p = map_option (map inventory_device_new) (bt_lookup devices p)"
  by (simp add: default_inventory_def bt_collect_map_values bt_lookup_map_values)

lemma default_snapshot_lookup:
  "bt_ok inventory \<Longrightarrow>
     bt_lookup (default_snapshot inventory) p = map_option pool_inventory_new (bt_lookup inventory p)"
  by (simp add: default_snapshot_def bt_collect_map_values bt_lookup_map_values)

lemma default_prepare_with_metadata_lookup:
  "bt_ok results \<Longrightarrow>
     bt_lookup (default_prepare_with_metadata results) c =
       map_option (res_map (map prepared_with_metadata_new)) (bt_lookup results c)"
  by (simp add: default_prepare_with_metadata_def bt_collect_map_values bt_lookup_map_values)

end
