(* ===== verification/Rust_Io.thy ===== *)
theory Rust_Io
  imports Rust_String
begin

text \<open>
  \<open>std::io::Error\<close>: the kinds the program inspects or creates and a message; and durations in
  nanoseconds with Rust's bounds.
\<close>

datatype io_kind =
    TimedOut | Interrupted | WouldBlock | ConnectionRefused | ConnectionReset
  | ConnectionAborted | NotConnected | BrokenPipe | UnexpectedEof | NotFound | AlreadyExists
  | AddrInUse | InvalidInput | InvalidData | OtherKind

datatype io_error = IoError (io_error_kind: io_kind) (io_error_text: string)

definition io_other :: "string \<Rightarrow> io_error" where
  "io_other message = IoError OtherKind message"

definition DURATION_MAX :: nat where
  "DURATION_MAX = (2 ^ 64 - 1) * 1000000000 + 999999999"

definition millis :: "nat \<Rightarrow> nat" where "millis n = n * 1000000"
definition seconds :: "nat \<Rightarrow> nat" where "seconds n = n * 1000000000"

text \<open>\<open>Duration * u32\<close> panics on overflow.\<close>

definition duration_mul :: "nat \<Rightarrow> nat \<Rightarrow> nat option" where
  "duration_mul d n = (if d * n \<le> DURATION_MAX then Some (d * n) else None)"

end
