(* ===== verification/Kube.thy ===== *)
theory Kube
  imports Inventory Rust_Io
begin

text \<open>
  What the DRA runtime uses of its environment. \<open>kube::Error\<close> with the chain of sources that
  \<open>claim.rs\<close> inspects; a failure of an asynchronous function is an error or a panic; a
  function that calls the API server takes the history of the requests made so far and returns
  its result with the extended history. The API server is a record of functions from the
  history to a response, so that every behaviour of the server, of other clients and of the
  network is covered. The crates the runtime calls are a record as well.
\<close>

subsection \<open>Errors\<close>

text \<open>
  \<open>ApiError\<close> has the code, reason and message of the returned \<open>Status\<close>; \<open>ServiceError\<close> has
  the error and its chain of \<open>source()\<close>s, each a Kubernetes error, an I/O error or another.
\<close>

datatype kube_error =
    ApiError (status_code: nat) (status_reason: string) (status_message: string)
  | HyperError string
  | ServiceError "error_node list"
  | OtherError string
and error_node = KubeNode kube_error | IoNode io_kind | PlainNode string

datatype failure = Failed kube_error | Panicked

definition api_status :: "string \<Rightarrow> kube_error" where
  "api_status message = ApiError 422 ''Invalid'' message"

text \<open>\<open>invalid_pool_error\<close> of \<open>resourceslice.rs\<close>.\<close>

definition invalid_pool_error :: "string \<Rightarrow> string \<Rightarrow> failure" where
  "invalid_pool_error pool_name reason =
     Failed (api_status (''ResourcePool '' @ pool_name @ '' '' @ reason))"

lemma invalid_pool_error_not_panic [simp]: "invalid_pool_error p r \<noteq> Panicked"
  by (simp add: invalid_pool_error_def)

definition panicking :: "'a option \<Rightarrow> failure + 'a" where
  "panicking m = ok_or Panicked m"

lemma panicking_Some [simp]: "panicking (Some x) = Inr x"
  by (simp add: panicking_def)

lemma panicking_Inr_iff [res_simps]: "panicking m = Inr x \<longleftrightarrow> m = Some x"
  by (simp add: panicking_def res_simps)

lemma panicking_Inl_iff [res_simps]: "panicking m = Inl e \<longleftrightarrow> m = None \<and> e = Panicked"
  by (auto simp: panicking_def res_simps)

subsection \<open>The crates\<close>

record 'b crates =
  env_big :: "'b bigdecimal_ops"
  env_debug :: "string \<Rightarrow> string" \<comment> \<open>\<open>{:?}\<close> of a \<open>str\<close>\<close>
  env_timestamp :: "int \<Rightarrow> int option" \<comment> \<open>\<open>jiff::Timestamp::from_second\<close>\<close>

subsection \<open>Calls of the API server\<close>

type_synonym ('r, 'a) io = "'r list \<Rightarrow> (failure + 'a) \<times> 'r list"

definition io_return :: "'a \<Rightarrow> ('r, 'a) io" where
  "io_return x h = (Inr x, h)"

definition io_lift :: "failure + 'a \<Rightarrow> ('r, 'a) io" where
  "io_lift m h = (m, h)"

definition io_bind :: "('r, 'a) io \<Rightarrow> ('a \<Rightarrow> ('r, 'b) io) \<Rightarrow> ('r, 'b) io" where
  "io_bind m f h = (case m h of (Inl e, h') \<Rightarrow> (Inl e, h') | (Inr x, h') \<Rightarrow> f x h')"

text \<open>One request: the response may depend on all requests before it.\<close>

definition call :: "('r list \<Rightarrow> kube_error + 'a) \<Rightarrow> 'r \<Rightarrow> ('r, 'a) io" where
  "call respond r h = (res_map_err Failed (respond h), h @ [r])"

text \<open>A loop that threads a local variable and stops at the first error.\<close>

fun io_fold :: "('s \<Rightarrow> 'a \<Rightarrow> ('r, 's) io) \<Rightarrow> 's \<Rightarrow> 'a list \<Rightarrow> ('r, 's) io" where
  "io_fold f s [] = io_return s"
| "io_fold f s (x # xs) = io_bind (f s x) (\<lambda>s'. io_fold f s' xs)"

text \<open>
  \<open>traces m Q\<close>: from every history, \<open>m\<close> only appends requests, and the result and the
  requests it appended satisfy \<open>Q\<close>.
\<close>

definition traces :: "('r, 'a) io \<Rightarrow> ((failure + 'a) \<Rightarrow> 'r list \<Rightarrow> bool) \<Rightarrow> bool" where
  "traces m Q \<longleftrightarrow> (\<forall>h. \<exists>t. snd (m h) = h @ t \<and> Q (fst (m h)) t)"

lemma tracesI: "(\<And>h. \<exists>t. snd (m h) = h @ t \<and> Q (fst (m h)) t) \<Longrightarrow> traces m Q"
  by (simp add: traces_def)

lemma tracesD: "traces m Q \<Longrightarrow> m h = (r, h') \<Longrightarrow> \<exists>t. h' = h @ t \<and> Q r t"
  unfolding traces_def by (metis fst_conv snd_conv)

lemma traces_mono: "traces m P \<Longrightarrow> (\<And>r t. P r t \<Longrightarrow> Q r t) \<Longrightarrow> traces m Q"
  unfolding traces_def by blast

lemma traces_return: "Q (Inr x) [] \<Longrightarrow> traces (io_return x) Q"
  by (simp add: traces_def io_return_def)

lemma traces_lift: "Q m [] \<Longrightarrow> traces (io_lift m) Q"
  by (simp add: traces_def io_lift_def)

lemma traces_call: "(\<And>m. Q m [r]) \<Longrightarrow> traces (call respond r) Q"
  by (simp add: traces_def call_def)

lemma traces_bind:
  assumes "traces m P"
    and "\<And>e t. P (Inl e) t \<Longrightarrow> Q (Inl e) t"
    and "\<And>x t. P (Inr x) t \<Longrightarrow> traces (f x) (\<lambda>r u. Q r (t @ u))"
  shows "traces (io_bind m f) Q"
proof (rule tracesI)
  fix h
  obtain r h' where m: "m h = (r, h')" by fastforce
  then obtain t where t: "h' = h @ t" "P r t" using tracesD [OF assms(1)] by blast
  show "\<exists>t. snd (io_bind m f h) = h @ t \<and> Q (fst (io_bind m f h)) t"
  proof (cases r)
    case (Inl e)
    with m t assms(2) show ?thesis by (auto simp: io_bind_def)
  next
    case (Inr x)
    with t assms(3) have "traces (f x) (\<lambda>r u. Q r (t @ u))" by simp
    then obtain u where "snd (f x h') = h' @ u \<and> Q (fst (f x h')) (t @ u)"
      unfolding traces_def by blast
    with m t Inr show ?thesis by (auto simp: io_bind_def)
  qed
qed

lemma traces_call_bind:
  assumes "\<And>e. Q (Inl e) [r]" "\<And>x. traces (f x) (\<lambda>m u. Q m (r # u))"
  shows "traces (io_bind (call respond r) f) Q"
  by (rule traces_bind [where P = "\<lambda>_ t. t = [r]", OF traces_call]) (use assms in auto)

lemma traces_lift_bind:
  assumes "\<And>e. m = Inl e \<Longrightarrow> Q (Inl e) []" "\<And>x. m = Inr x \<Longrightarrow> traces (f x) Q"
  shows "traces (io_bind (io_lift m) f) Q"
  by (rule traces_bind [where P = "\<lambda>m' t. m' = m \<and> t = []", OF traces_lift]) (use assms in auto)

text \<open>A loop, with a relation between the start, the requests and the end of the loop.\<close>

lemma traces_fold_rel:
  assumes step: "\<And>s x. x \<in> set xs \<Longrightarrow> I s \<Longrightarrow>
      traces (f s x) (\<lambda>r t. P t \<and> (\<forall>s'. r = Inr s' \<longrightarrow> I s' \<and> R s t s'))"
    and nil: "P []" "\<And>s. R s [] s"
    and app: "\<And>t u. P t \<Longrightarrow> P u \<Longrightarrow> P (t @ u)"
      "\<And>s t s' u s''. R s t s' \<Longrightarrow> R s' u s'' \<Longrightarrow> R s (t @ u) s''"
    and "I s"
  shows "traces (io_fold f s xs) (\<lambda>r t. P t \<and> (\<forall>s'. r = Inr s' \<longrightarrow> I s' \<and> R s t s'))"
  using step \<open>I s\<close>
proof (induction xs arbitrary: s)
  case Nil
  then show ?case by (auto intro!: traces_return simp: nil)
next
  case (Cons x xs)
  have a: "traces (f s x) (\<lambda>r t. P t \<and> (\<forall>s'. r = Inr s' \<longrightarrow> I s' \<and> R s t s'))"
    using Cons.prems by simp
  have b: "traces (io_fold f s' xs) (\<lambda>r u. P (t @ u) \<and> (\<forall>s''. r = Inr s'' \<longrightarrow> I s'' \<and> R s (t @ u) s''))"
    if that: "P t" "I s'" "R s t s'" for s' t
  proof -
    have "traces (io_fold f s' xs) (\<lambda>r u. P u \<and> (\<forall>s''. r = Inr s'' \<longrightarrow> I s'' \<and> R s' u s''))"
      using Cons.IH Cons.prems(1) that(2) by simp
    then show ?thesis by (rule traces_mono) (auto intro: app that)
  qed
  show ?case
    unfolding io_fold.simps by (rule traces_bind [OF a]) (use b in auto)
qed

lemma io_bind_lift [simp]:
  "io_bind (io_lift (Inr x)) f = f x" "io_bind (io_lift (Inl e)) f = io_lift (Inl e)"
  by (auto simp: io_bind_def io_lift_def)

lemma io_bind_return [simp]: "io_bind (io_return x) f = f x"
  by (auto simp: io_bind_def io_return_def)

lemma io_bind_run:
  "io_bind m f h = (r, h') \<longleftrightarrow>
     (\<exists>e. m h = (Inl e, h') \<and> r = Inl e) \<or> (\<exists>x h1. m h = (Inr x, h1) \<and> f x h1 = (r, h'))"
  by (auto simp: io_bind_def split: prod.splits sum.splits)

lemma io_return_run [simp]: "io_return x h = (r, h') \<longleftrightarrow> r = Inr x \<and> h' = h"
  by (auto simp: io_return_def)

lemma io_lift_run [simp]: "io_lift m h = (r, h') \<longleftrightarrow> r = m \<and> h' = h"
  by (auto simp: io_lift_def)

end
