(* ===== verification/Socket_Name.thy ===== *)
theory Socket_Name
  imports Validation "HOL-Library.Word"
begin

unbundle bit_operations_syntax

text \<open>
  \<open>core/src/socket_name.rs\<close>: the sanitized, hash-suffixed names used for socket files and
  ResourceSlice objects, with FNV-1a on 64-bit words. The lemmas bound the length for every
  budget, give the alphabet of the result, show that the hash survives truncation, and
  reduce a collision of names to a collision of hashes.
\<close>

definition MAX_SOCKET_PATH_LEN :: nat where "MAX_SOCKET_PATH_LEN = 107"

definition invalid_char :: "char \<Rightarrow> bool" where
  "invalid_char c \<longleftrightarrow> \<not> (is_ascii_alphanumeric c \<or> c = CHR ''-'' \<or> c = CHR ''_'')"

text \<open>
  \<open>name.replace(invalid_char, "_")\<close> works on characters: a multi-byte UTF-8 character gives
  one underscore. On bytes: a continuation byte (10xxxxxx) gives nothing, the lead byte
  gives the underscore.
\<close>

definition is_continuation :: "char \<Rightarrow> bool" where
  "is_continuation c \<longleftrightarrow> 128 \<le> byte c \<and> byte c < 192"

definition replace_byte :: "char \<Rightarrow> string" where
  "replace_byte c =
     (if is_continuation c then [] else if invalid_char c then ''_'' else [c])"

definition replace_invalid :: "string \<Rightarrow> string" where
  "replace_invalid s = concat (map replace_byte s)"

definition fnv_offset_basis :: "64 word" where "fnv_offset_basis = 0xcbf29ce484222325"
definition fnv_prime :: "64 word" where "fnv_prime = 0x100000001b3"

definition fnv1a64 :: "string \<Rightarrow> 64 word" where
  "fnv1a64 bytes = foldl (\<lambda>hash b. (hash XOR of_nat (byte b)) * fnv_prime) fnv_offset_basis bytes"

definition hash_suffix :: "string \<Rightarrow> string" where
  "hash_suffix name = ''-'' @ hex_digits 16 (unat (fnv1a64 name))"

definition sanitize_socket_name :: "string \<Rightarrow> nat \<Rightarrow> string" where
  "sanitize_socket_name name max_len =
     (let sanitized = replace_invalid name;
          suffix = hash_suffix name
      in if max_len < length suffix then take max_len suffix
         else let budget = max_len - length suffix;
                  truncated = take budget sanitized
              in truncated @ suffix)"

subsection \<open>Length, alphabet and collisions\<close>

definition safe_char :: "char \<Rightarrow> bool" where
  "safe_char c \<longleftrightarrow> is_ascii_alphanumeric c \<or> c = CHR ''-'' \<or> c = CHR ''_''"

lemma invalid_char_iff: "invalid_char c \<longleftrightarrow> \<not> safe_char c"
  by (simp add: invalid_char_def safe_char_def)

lemma length_hash_suffix [simp]: "length (hash_suffix name) = 17"
  by (simp add: hash_suffix_def)

lemma hash_suffix_safe: "c \<in> set (hash_suffix name) \<Longrightarrow> safe_char c"
  using hex_digits_class
  by (auto simp: hash_suffix_def safe_char_def is_ascii_alphanumeric_def is_ascii_alphabetic_def)

lemma replace_invalid_safe: "c \<in> set (replace_invalid s) \<Longrightarrow> safe_char c"
  by (auto simp: replace_invalid_def replace_byte_def invalid_char_iff safe_char_def
      split: if_splits)

lemma hash_suffix_inj: "hash_suffix a = hash_suffix b \<longleftrightarrow> fnv1a64 a = fnv1a64 b"
proof
  assume "hash_suffix a = hash_suffix b"
  then have "hex_digits 16 (unat (fnv1a64 a)) = hex_digits 16 (unat (fnv1a64 b))"
    by (simp add: hash_suffix_def)
  moreover have "unat w < 16 ^ 16" for w :: "64 word"
  proof -
    have "unat w < 2 ^ LENGTH(64)" by (rule unsigned_less)
    then show ?thesis by simp
  qed
  ultimately have "unat (fnv1a64 a) = unat (fnv1a64 b)"
    using hex_digits_inj [of "unat (fnv1a64 a)" 16 "unat (fnv1a64 b)"] by blast
  then show "fnv1a64 a = fnv1a64 b" by (simp add: word_unat_eq_iff)
qed (simp add: hash_suffix_def)

lemma sanitize_socket_name_small:
  "n < 17 \<Longrightarrow> sanitize_socket_name name n = take n (hash_suffix name)"
  by (simp add: sanitize_socket_name_def)

lemma sanitize_socket_name_big:
  "17 \<le> n \<Longrightarrow> sanitize_socket_name name n = take (n - 17) (replace_invalid name) @ hash_suffix name"
  by (simp add: sanitize_socket_name_def Let_def)

lemma length_sanitize_socket_name: "length (sanitize_socket_name name n) \<le> n"
  by (cases "n < 17") (simp_all add: sanitize_socket_name_small sanitize_socket_name_big)

lemma length_sanitize_tiny: "n < 17 \<Longrightarrow> length (sanitize_socket_name name n) = n"
  by (simp add: sanitize_socket_name_small)

lemma sanitize_safe: "c \<in> set (sanitize_socket_name name n) \<Longrightarrow> safe_char c"
  by (cases "n < 17")
    (auto simp: sanitize_socket_name_small sanitize_socket_name_big
      dest!: in_set_takeD dest: hash_suffix_safe replace_invalid_safe)

lemma sanitize_collision:
  assumes "17 \<le> n" "sanitize_socket_name a n = sanitize_socket_name b m" "17 \<le> m"
  shows "fnv1a64 a = fnv1a64 b"
proof -
  from assms have "hash_suffix a = hash_suffix b"
    by (simp add: sanitize_socket_name_big append_eq_append_conv)
  then show ?thesis by (simp add: hash_suffix_inj)
qed

lemma safe_char_path: "safe_char c \<Longrightarrow> c \<noteq> CHR ''/'' \<and> c \<noteq> CHR ''.'' \<and> c \<noteq> CHR 0x00"
  by (auto simp: safe_char_def ascii_defs)

lemma sanitize_path_part:
  assumes "0 < n"
  shows "CHR ''/'' \<notin> set (sanitize_socket_name name n)" "sanitize_socket_name name n \<noteq> []"
    "sanitize_socket_name name n \<noteq> ''.''" "sanitize_socket_name name n \<noteq> ''..''"
proof -
  show "CHR ''/'' \<notin> set (sanitize_socket_name name n)"
    using safe_char_path sanitize_safe by blast
  have "hash_suffix name \<noteq> []" by (simp add: hash_suffix_def)
  with assms show "sanitize_socket_name name n \<noteq> []"
    by (cases "n < 17") (simp_all add: sanitize_socket_name_small sanitize_socket_name_big)
  have "CHR ''.'' \<notin> set (sanitize_socket_name name n)"
    using safe_char_path sanitize_safe by blast
  then show "sanitize_socket_name name n \<noteq> ''.''" "sanitize_socket_name name n \<noteq> ''..''" by auto
qed

subsection \<open>Properties\<close>

text \<open>
  For every name and budget the socket name is within the budget and consists of ASCII
  letters, digits, dashes and underscores, so it is a single safe path component.
\<close>
theorem socket_names_safe:
  "length (sanitize_socket_name name n) \<le> n
   \<and> list_all (\<lambda>c. is_ascii_alphanumeric c \<or> c = CHR ''-'' \<or> c = CHR ''_'')
        (sanitize_socket_name name n)"
  using length_sanitize_socket_name sanitize_safe by (auto simp: safe_char_def list_all_iff)

text \<open>
  With a budget of at least 17 bytes, names with different hashes have different socket
  names, whatever the two budgets: truncation never removes the hash of the original name.
\<close>
theorem socket_names_distinct:
  assumes "17 \<le> n" and "17 \<le> m" and "fnv1a64 a \<noteq> fnv1a64 b"
  shows "sanitize_socket_name a n \<noteq> sanitize_socket_name b m"
  using sanitize_collision assms by blast

end
