(* ===== verification/Slice_Wire.thy ===== *)
theory Slice_Wire
  imports Kube Socket_Name
begin

text \<open>
  The wire side of \<open>dra/src/resourceslice.rs\<close> and \<open>dra/src/resourceslice/counters.rs\<close>: the
  ResourceSlice objects, the conversion of a backend's inventory with its limits, the counter
  checks, the canonical form used for comparison, and the preservation of taint times. Fields
  of the API types that the source only copies are one opaque \<open>other\<close> field (\<open>''''\<close> is the
  default); the schema is the one of Kubernetes 1.37.
\<close>

subsection \<open>API objects\<close>

record wire_taint =
  wt_key :: string
  wt_value :: "string option"
  wt_effect :: string
  wt_time_added :: "int option"

record device_attribute =
  da_string :: "string option"
  da_int :: "int option"
  da_bool :: "bool option"
  da_version :: "string option"
  da_other :: string

record request_policy =
  rp_valid_values :: "string list option"
  rp_other :: string

record device_capacity =
  dc_request_policy :: "request_policy option"
  dc_value :: string

record wire_consumption =
  wc_counter_set :: string
  wc_counters :: "(string, string) btree"
  wc_compatibility_groups :: "string list option"

record wire_device =
  wd_name :: string
  wd_attributes :: "(string, device_attribute) btree option"
  wd_capacity :: "(string, device_capacity) btree option"
  wd_node_allocatable :: "(string, string) btree option"
  wd_consumes_counters :: "wire_consumption list option"
  wd_binding_conditions :: "string list option"
  wd_binding_failure_conditions :: "string list option"
  wd_binds_to_node :: "bool option"
  wd_taints :: "wire_taint list option"
  wd_other :: string

record wire_counter_set =
  ws_name :: string
  ws_counters :: "(string, string) btree"

record slice_pool =
  sp_name :: string
  sp_generation :: int
  sp_slice_count :: int

record slice_spec =
  ss_driver :: string
  ss_node_name :: "string option"
  ss_pool :: slice_pool
  ss_devices :: "wire_device list option"
  ss_shared_counters :: "wire_counter_set list option"
  ss_skip_node_operations :: "string list option"
  ss_other :: string

record owner_reference =
  or_api_version :: string
  or_kind :: string
  or_name :: string
  or_uid :: string
  or_controller :: "bool option"
  or_block_owner_deletion :: "bool option"

record object_meta =
  om_name :: "string option"
  om_uid :: "string option"
  om_resource_version :: "string option"
  om_owner_references :: "owner_reference list option"
  om_other :: string

record resource_slice =
  rs_metadata :: object_meta
  rs_spec :: slice_spec

definition MAX_DEVICES_PER_SLICE :: nat where "MAX_DEVICES_PER_SLICE = 128"
definition MAX_DEVICES_PER_ADVANCED_SLICE :: nat where "MAX_DEVICES_PER_ADVANCED_SLICE = 64"
definition MAX_TAINTS_PER_DEVICE :: nat where "MAX_TAINTS_PER_DEVICE = 16"
definition MAX_BINDING_CONDITIONS_PER_DEVICE :: nat where "MAX_BINDING_CONDITIONS_PER_DEVICE = 4"
definition MAX_COUNTER_SETS_PER_SLICE :: nat where "MAX_COUNTER_SETS_PER_SLICE = 8"
definition MAX_COUNTERS :: nat where "MAX_COUNTERS = 32"
definition MAX_CONSUMPTIONS_PER_DEVICE :: nat where "MAX_CONSUMPTIONS_PER_DEVICE = 2"

text \<open>\<open>(!values.is_empty()).then_some(values)\<close>, and \<open>take().filter(|v| !v.is_empty())\<close>.\<close>

definition non_empty :: "'a list \<Rightarrow> 'a list option" where
  "non_empty xs = (if xs = [] then None else Some xs)"

definition drop_empty :: "'a list option \<Rightarrow> 'a list option" where
  "drop_empty m = (case m of None \<Rightarrow> None | Some xs \<Rightarrow> non_empty xs)"

definition opt_list :: "'a list option \<Rightarrow> 'a list" where
  "opt_list m = (case m of None \<Rightarrow> [] | Some xs \<Rightarrow> xs)"

subsection \<open>Names\<close>

definition slice_name :: "string \<Rightarrow> string \<Rightarrow> string \<Rightarrow> nat \<Rightarrow> string" where
  "slice_name driver_name node_name pool_name index =
     (let identity = driver_name @ ''|'' @ node_name @ ''|'' @ pool_name;
          prefix = ''slice-'' @ show_nat index @ ''-'';
          suffix = map (\<lambda>c. if c = CHR ''_'' then CHR ''-'' else c)
                     (sanitize_socket_name identity (63 - length prefix))
      in prefix @ suffix)"

subsection \<open>Counters\<close>

text \<open>\<open>quantity.into()\<close>: the wire text; \<open>Display\<close> may panic.\<close>

definition quantity_to_wire :: "'b crates \<Rightarrow> 'b quantity \<Rightarrow> failure + string" where
  "quantity_to_wire E q = panicking (quantity_display (env_big E) q)"

definition validate_counter_name :: "'b crates \<Rightarrow> string \<Rightarrow> string \<Rightarrow> failure + unit" where
  "validate_counter_name E name pool_name =
     ensure (is_valid_counter_name name)
       (invalid_pool_error pool_name
         (''counter name '' @ env_debug E name @ '' must be a DNS label of at most 63 characters''))"

definition counters_to_wire ::
    "'b crates \<Rightarrow> (string, 'b quantity) btree \<Rightarrow> string \<Rightarrow> failure + (string, string) btree" where
  "counters_to_wire E counters pool_name =
     (if counters = [] \<or> length counters > MAX_COUNTERS
      then Inl (invalid_pool_error pool_name ''counter maps must contain 1 to 32 counters'')
      else res_map bt_collect
        (traverse (\<lambda>(name, quantity).
            res_bind (validate_counter_name E name pool_name) (\<lambda>_.
              res_map (Pair name) (quantity_to_wire E quantity))) counters))"

text \<open>The closures over the set \<open>names\<close> in the two conversions.\<close>

definition counter_set_to_wire ::
    "'b crates \<Rightarrow> string \<Rightarrow> string set \<Rightarrow> 'b counter_set \<Rightarrow> failure + (wire_counter_set \<times> string set)" where
  "counter_set_to_wire E pool_name names c =
     res_bind (validate_counter_name E (cs_name c) pool_name) (\<lambda>_.
       if cs_name c \<in> names
       then Inl (invalid_pool_error pool_name ''contains duplicate counter-set names'')
       else res_bind (counters_to_wire E (cs_counters c) pool_name) (\<lambda>counters.
         Inr (\<lparr>ws_name = cs_name c, ws_counters = counters\<rparr>, insert (cs_name c) names)))"

definition counter_sets_to_wire ::
    "'b crates \<Rightarrow> 'b counter_set list \<Rightarrow> string \<Rightarrow> failure + wire_counter_set list" where
  "counter_sets_to_wire E sets pool_name =
     res_map (sort_key ws_name) (traverse_st (counter_set_to_wire E pool_name) {} sets)"

definition consumption_to_wire ::
    "'b crates \<Rightarrow> string \<Rightarrow> string set \<Rightarrow> 'b device_counter_consumption
      \<Rightarrow> failure + (wire_consumption \<times> string set)" where
  "consumption_to_wire E pool_name names c =
     res_bind (validate_counter_name E (cc_counter_set c) pool_name) (\<lambda>_.
       if cc_counter_set c \<in> names
       then Inl (invalid_pool_error pool_name ''has duplicate device counter-set references'')
       else res_bind (counters_to_wire E (cc_counters c) pool_name) (\<lambda>counters.
         Inr (\<lparr>wc_counter_set = cc_counter_set c, wc_counters = counters,
               wc_compatibility_groups = None\<rparr>, insert (cc_counter_set c) names)))"

definition consumptions_to_wire ::
    "'b crates \<Rightarrow> 'b device_counter_consumption list \<Rightarrow> string \<Rightarrow> failure + wire_consumption list option" where
  "consumptions_to_wire E consumptions pool_name =
     (if length consumptions > MAX_CONSUMPTIONS_PER_DEVICE
      then Inl (invalid_pool_error pool_name ''has a device with more than two counter consumptions'')
      else res_map non_empty (traverse_st (consumption_to_wire E pool_name) {} consumptions))"

definition validate_counter_references ::
    "wire_device list \<Rightarrow> wire_counter_set list \<Rightarrow> string \<Rightarrow> failure + unit" where
  "validate_counter_references devices sets pool_name =
     (let sets = bt_collect (map (\<lambda>set. (ws_name set, ws_counters set)) sets)
      in for_each (\<lambda>consumption.
           case bt_lookup sets (wc_counter_set consumption) of
             None \<Rightarrow> Inl (invalid_pool_error pool_name ''device references an unknown counter set'')
           | Some counters \<Rightarrow>
               if list_ex (\<lambda>name. bt_lookup counters name = None) (map fst (wc_counters consumption))
               then Inl (invalid_pool_error pool_name ''device references an unknown counter'')
               else Inr ())
         (concat (map (\<lambda>device. opt_list (wd_consumes_counters device)) devices)))"

subsection \<open>Devices\<close>

definition device_attribute_default :: device_attribute where
  "device_attribute_default =
     \<lparr>da_string = None, da_int = None, da_bool = None, da_version = None, da_other = ''''\<rparr>"

fun attribute_value_to_wire :: "attribute_value \<Rightarrow> device_attribute" where
  "attribute_value_to_wire (AttrString s) = device_attribute_default\<lparr>da_string := Some s\<rparr>"
| "attribute_value_to_wire (AttrInt i) = device_attribute_default\<lparr>da_int := Some i\<rparr>"
| "attribute_value_to_wire (AttrBool b) = device_attribute_default\<lparr>da_bool := Some b\<rparr>"
| "attribute_value_to_wire (AttrVersion v) = device_attribute_default\<lparr>da_version := Some v\<rparr>"

definition pool_device_to_wire :: "'b crates \<Rightarrow> 'b pool_device \<Rightarrow> failure + wire_device" where
  "pool_device_to_wire E d =
     (let attributes =
            (if pd_attributes d = [] then None
             else Some (bt_collect (map (\<lambda>(name, value). (name, attribute_value_to_wire value)) (pd_attributes d))))
      in res_bind
           (if pd_capacity d = [] then Inr None
            else res_map (\<lambda>entries. Some (bt_collect entries))
              (traverse (\<lambda>(name, quantity).
                  res_map (\<lambda>v. (name, \<lparr>dc_request_policy = None, dc_value = v\<rparr>))
                    (quantity_to_wire E quantity)) (pd_capacity d)))
           (\<lambda>capacity. Inr
             \<lparr>wd_name = pd_name d, wd_attributes = attributes, wd_capacity = capacity,
              wd_node_allocatable = None, wd_consumes_counters = None, wd_binding_conditions = None,
              wd_binding_failure_conditions = None, wd_binds_to_node = None, wd_taints = None,
              wd_other = ''''\<rparr>))"

text \<open>The closure over the set \<open>identities\<close> in \<open>inventory_device_to_wire\<close>.\<close>

definition taint_to_wire ::
    "'b crates \<Rightarrow> string \<Rightarrow> (string \<times> string) set \<Rightarrow> device_taint
      \<Rightarrow> failure + (wire_taint \<times> (string \<times> string) set)" where
  "taint_to_wire E pool_name identities taint =
     (let eff = taint_effect_as_str (dt_effect taint)
      in if (dt_key taint, eff) \<in> identities
         then Inl (invalid_pool_error pool_name ''has duplicate device taint keys/effects'')
         else res_bind
           (case dt_time_added taint of
              None \<Rightarrow> Inr None
            | Some time_added \<Rightarrow>
                res_map Some (ok_or (invalid_pool_error pool_name ''has an invalid taint timestamp'')
                  (env_timestamp E time_added)))
           (\<lambda>time_added. Inr
             (\<lparr>wt_key = dt_key taint, wt_value = non_empty (dt_value taint), wt_effect = eff,
               wt_time_added = time_added\<rparr>,
              insert (dt_key taint, eff) identities)))"

definition check_conditions :: "string \<Rightarrow> string list \<Rightarrow> failure + unit" where
  "check_conditions pool_name conditions =
     res_bind (ensure (length conditions \<le> MAX_BINDING_CONDITIONS_PER_DEVICE)
         (invalid_pool_error pool_name ''has more than four device binding conditions''))
       (\<lambda>_. ensure (card (set conditions) = length conditions)
         (invalid_pool_error pool_name ''has duplicate device binding conditions''))"

definition inventory_device_to_wire ::
    "'b crates \<Rightarrow> string \<Rightarrow> 'b inventory_device \<Rightarrow> failure + wire_device" where
  "inventory_device_to_wire E pool_name inventory =
     (if length (id_taints inventory) > MAX_TAINTS_PER_DEVICE
      then Inl (invalid_pool_error pool_name ''has a device with more than 16 taints'')
      else res_bind (traverse_st (taint_to_wire E pool_name) {} (id_taints inventory)) (\<lambda>taints.
        res_bind (consumptions_to_wire E (id_consumes_counters inventory) pool_name) (\<lambda>consumes.
          res_bind (pool_device_to_wire E (id_device inventory)) (\<lambda>base.
            let wire = base\<lparr>wd_taints := non_empty taints, wd_consumes_counters := consumes\<rparr>
            in case id_binding inventory of
                 None \<Rightarrow> Inr wire
               | Some binding \<Rightarrow>
                   res_map (\<lambda>_. wire
                     \<lparr>wd_binding_conditions := non_empty (db_conditions binding),
                      wd_binding_failure_conditions := non_empty (db_failure_conditions binding),
                      wd_binds_to_node := (if db_binds_to_node binding then Some True else None)\<rparr>)
                   (for_each (check_conditions pool_name)
                     [db_conditions binding, db_failure_conditions binding])))))"

subsection \<open>Canonical form\<close>

definition taint_sort_key :: "wire_taint \<Rightarrow> string \<times> string \<times> string option" where
  "taint_sort_key t = (wt_key t, wt_effect t, wt_value t)"

definition canonical_taint :: "wire_taint \<Rightarrow> wire_taint" where
  "canonical_taint t = (if wt_value t = Some '''' then t\<lparr>wt_value := None\<rparr> else t)"

definition canonical_consumption :: "wire_consumption \<Rightarrow> wire_consumption" where
  "canonical_consumption c =
     c\<lparr>wc_compatibility_groups := drop_empty (wc_compatibility_groups c)\<rparr>"

definition sorted_some :: "('a \<Rightarrow> 'k :: linorder) \<Rightarrow> 'a list option \<Rightarrow> 'a list option" where
  "sorted_some key m = drop_empty (map_option (sort_key key) m)"

definition canonical_device :: "wire_device \<Rightarrow> wire_device" where
  "canonical_device d =
     d\<lparr>wd_attributes := drop_empty (wd_attributes d),
       wd_capacity := drop_empty (wd_capacity d),
       wd_node_allocatable := drop_empty (wd_node_allocatable d),
       wd_consumes_counters :=
         sorted_some wc_counter_set (map_option (map canonical_consumption) (wd_consumes_counters d)),
       wd_binding_conditions := sorted_some (\<lambda>c. c) (wd_binding_conditions d),
       wd_binding_failure_conditions := sorted_some (\<lambda>c. c) (wd_binding_failure_conditions d),
       wd_binds_to_node := (if wd_binds_to_node d = Some False then None else wd_binds_to_node d),
       wd_taints := sorted_some taint_sort_key (map_option (map canonical_taint) (wd_taints d))\<rparr>"

definition canonicalize_devices :: "wire_device list \<Rightarrow> wire_device list" where
  "canonicalize_devices devices = sort_key wd_name (map canonical_device devices)"

definition canonicalize_quantity :: "'b crates \<Rightarrow> string \<Rightarrow> string option" where
  "canonicalize_quantity E v =
     (case quantity_from_str (env_big E) v of
        Inl _ \<Rightarrow> Some v
      | Inr quantity \<Rightarrow> canonical_decimal (env_big E) quantity)"

text \<open>Loops over \<open>values_mut()\<close>; \<open>None\<close> is a panic.\<close>

fun map_opt :: "('a \<Rightarrow> 'b option) \<Rightarrow> 'a list \<Rightarrow> 'b list option" where
  "map_opt f [] = Some []"
| "map_opt f (x # xs) =
     (case f x of None \<Rightarrow> None | Some y \<Rightarrow> map_option ((#) y) (map_opt f xs))"

definition update_values :: "('v \<Rightarrow> 'w option) \<Rightarrow> ('k, 'v) btree \<Rightarrow> ('k, 'w) btree option" where
  "update_values f m = map_opt (\<lambda>(k, v). map_option (Pair k) (f v)) m"

definition under_opt :: "('a \<Rightarrow> 'b option) \<Rightarrow> 'a option \<Rightarrow> 'b option option" where
  "under_opt f m = (case m of None \<Rightarrow> Some None | Some x \<Rightarrow> map_option Some (f x))"

definition canonicalize_capacity :: "'b crates \<Rightarrow> device_capacity \<Rightarrow> device_capacity option" where
  "canonicalize_capacity E c =
     map_option (\<lambda>v. c\<lparr>dc_value := v,
         dc_request_policy := map_option
           (\<lambda>p. p\<lparr>rp_valid_values := drop_empty (rp_valid_values p)\<rparr>) (dc_request_policy c)\<rparr>)
       (canonicalize_quantity E (dc_value c))"

definition canonicalize_device_values :: "'b crates \<Rightarrow> wire_device \<Rightarrow> wire_device option" where
  "canonicalize_device_values E d =
     (case under_opt (update_values (canonicalize_capacity E)) (wd_capacity d) of
        None \<Rightarrow> None
      | Some capacity \<Rightarrow>
          map_option (\<lambda>consumptions. d\<lparr>wd_capacity := capacity, wd_consumes_counters := consumptions\<rparr>)
            (under_opt (map_opt (\<lambda>c. map_option (\<lambda>counters. c\<lparr>wc_counters := counters\<rparr>)
               (update_values (canonicalize_quantity E) (wc_counters c)))) (wd_consumes_counters d)))"

definition canonicalize_slice_spec :: "'b crates \<Rightarrow> slice_spec \<Rightarrow> slice_spec option" where
  "canonicalize_slice_spec E spec =
     (let devices = map_option canonicalize_devices (drop_empty (ss_devices spec));
          shared = drop_empty (ss_shared_counters spec);
          skip = drop_empty (ss_skip_node_operations spec)
      in case under_opt (map_opt (canonicalize_device_values E)) devices of
           None \<Rightarrow> None
         | Some devices \<Rightarrow>
             map_option (\<lambda>shared. spec\<lparr>ss_devices := devices, ss_shared_counters := shared,
                 ss_skip_node_operations := skip\<rparr>)
               (under_opt (\<lambda>sets. map_opt (\<lambda>set. map_option (\<lambda>counters. set\<lparr>ws_counters := counters\<rparr>)
                  (update_values (canonicalize_quantity E) (ws_counters set))) (sort_key ws_name sets))
                 shared))"

subsection \<open>Taint times\<close>

definition current_devices :: "(string \<times> resource_slice) list \<Rightarrow> (string, int \<times> wire_device) btree" where
  "current_devices existing =
     foldl (\<lambda>current (slice_generation, device).
         case bt_lookup current (wd_name device) of
           None \<Rightarrow> bt_insert (wd_name device) (slice_generation, device) current
         | Some (g, _) \<Rightarrow>
             if slice_generation > g then bt_insert (wd_name device) (slice_generation, device) current
             else current)
       []
       (concat (map (\<lambda>(_, slice). map (Pair (sp_generation (ss_pool (rs_spec slice))))
          (opt_list (ss_devices (rs_spec slice)))) existing))"

definition opt_text :: "string option \<Rightarrow> string" where
  "opt_text m = (case m of None \<Rightarrow> '''' | Some s \<Rightarrow> s)"

definition same_taint :: "wire_taint \<Rightarrow> wire_taint \<Rightarrow> bool" where
  "same_taint previous taint \<longleftrightarrow>
     wt_key previous = wt_key taint \<and> wt_effect previous = wt_effect taint
     \<and> opt_text (wt_value previous) = opt_text (wt_value taint)"

definition preserve_taint_time :: "wire_taint list \<Rightarrow> wire_taint \<Rightarrow> wire_taint" where
  "preserve_taint_time previous taint =
     (if wt_time_added taint = None
      then (case List.find (\<lambda>previous. same_taint previous taint) previous of
              None \<Rightarrow> taint
            | Some previous \<Rightarrow> taint\<lparr>wt_time_added := wt_time_added previous\<rparr>)
      else taint)"

definition preserve_taint_times ::
    "(string \<times> resource_slice) list \<Rightarrow> wire_device list \<Rightarrow> wire_device list" where
  "preserve_taint_times existing desired =
     (let current = current_devices existing
      in map (\<lambda>device.
           case bt_lookup current (wd_name device) of
             None \<Rightarrow> device
           | Some (_, previous) \<Rightarrow>
               device\<lparr>wd_taints := map_option
                 (map (preserve_taint_time (opt_list (wd_taints previous)))) (wd_taints device)\<rparr>)
         desired)"

end
