(* ===== verification/Slice_Publisher.thy ===== *)
theory Slice_Publisher
  imports Slice_Wire
begin

text \<open>
  The publisher of \<open>dra/src/resourceslice.rs\<close>: one reconciliation lists the slices of the
  driver on the node, writes the desired slices of every pool of the snapshot and then deletes
  what is left, each deletion conditional on the UID and resource version that were listed.
  \<open>reconcile_pool\<close> is split where it computes (\<open>pool_chunks\<close>, \<open>desired_slices\<close>,
  \<open>pool_generation\<close>) and where it calls the API server (\<open>apply_slice\<close> in a loop). Durations are
  nanoseconds.
\<close>

subsection \<open>Requests and the server\<close>

datatype slice_request =
    GetNode string
  | ListSlices string
  | CreateSlice resource_slice
  | ReplaceSlice string resource_slice
  | DeleteSlice (deleted_name: string) (deleted_uid: string) (deleted_version: string)

text \<open>
  The server's answers, each from the requests made before. A node is what
  \<open>node.owner_ref()\<close> gives: absent when the node object has no UID.
\<close>

record slice_api =
  api_get_node :: "slice_request list \<Rightarrow> string \<Rightarrow> kube_error + owner_reference option"
  api_list :: "slice_request list \<Rightarrow> string \<Rightarrow> kube_error + resource_slice list"
  api_create :: "slice_request list \<Rightarrow> resource_slice \<Rightarrow> kube_error + unit"
  api_replace :: "slice_request list \<Rightarrow> string \<Rightarrow> resource_slice \<Rightarrow> kube_error + unit"
  api_delete :: "slice_request list \<Rightarrow> string \<Rightarrow> string \<Rightarrow> string \<Rightarrow> kube_error + unit"

subsection \<open>Durations and the publisher\<close>

definition DEFAULT_POLL_INTERVAL :: nat where "DEFAULT_POLL_INTERVAL = seconds 30"
definition DEFAULT_RETRY_BASE_DELAY :: nat where "DEFAULT_RETRY_BASE_DELAY = seconds 1"
definition DEFAULT_RETRY_MAX_DELAY :: nat where "DEFAULT_RETRY_MAX_DELAY = seconds 30"

record publisher =
  pub_driver_name :: string
  pub_node_name :: string
  pub_poll_interval :: nat
  pub_retry_base_delay :: nat
  pub_retry_max_delay :: nat

definition publisher_new :: "string \<Rightarrow> string \<Rightarrow> validation_error + publisher" where
  "publisher_new driver_name node_name =
     res_bind (validate_driver_name driver_name) (\<lambda>_.
       res_bind (validate_node_name node_name) (\<lambda>_.
         Inr \<lparr>pub_driver_name = driver_name, pub_node_name = node_name,
              pub_poll_interval = DEFAULT_POLL_INTERVAL,
              pub_retry_base_delay = DEFAULT_RETRY_BASE_DELAY,
              pub_retry_max_delay = DEFAULT_RETRY_MAX_DELAY\<rparr>))"

definition with_poll_interval :: "publisher \<Rightarrow> nat \<Rightarrow> publisher" where
  "with_poll_interval p poll_interval = p\<lparr>pub_poll_interval := max poll_interval (millis 1)\<rparr>"

definition with_retry_backoff :: "publisher \<Rightarrow> nat \<Rightarrow> nat \<Rightarrow> publisher" where
  "with_retry_backoff p base_delay max_delay =
     (let base = max base_delay (millis 1)
      in p\<lparr>pub_retry_base_delay := base, pub_retry_max_delay := max max_delay base\<rparr>)"

definition retry_delay :: "nat \<Rightarrow> nat \<Rightarrow> nat \<Rightarrow> nat" where
  "retry_delay base max_delay failed_attempts =
     (let shift = min (failed_attempts - 1) 31;
          multiplier = (if shift < 32 then 2 ^ shift else 2 ^ 32 - 1)
      in min (min (base * multiplier) DURATION_MAX) max_delay)"

text \<open>
  One round of the loop in \<open>spawn\<close>: the new attempt counter (\<open>u32\<close>, saturating) and the delay.
  A panic ends the task.
\<close>

definition spawn_step :: "publisher \<Rightarrow> failure + unit \<Rightarrow> nat \<Rightarrow> (nat \<times> nat) option" where
  "spawn_step p outcome failed_attempts =
     (case outcome of
        Inr () \<Rightarrow> Some (0, pub_poll_interval p)
      | Inl Panicked \<Rightarrow> None
      | Inl (Failed err) \<Rightarrow>
          (let failed_attempts = min (failed_attempts + 1) (2 ^ 32 - 1)
           in Some (failed_attempts,
                retry_delay (pub_retry_base_delay p) (pub_retry_max_delay p) failed_attempts)))"

text \<open>The delays slept after each of a sequence of publications.\<close>

fun spawn_delays :: "publisher \<Rightarrow> nat \<Rightarrow> (failure + unit) list \<Rightarrow> nat list" where
  "spawn_delays p failed_attempts [] = []"
| "spawn_delays p failed_attempts (outcome # outcomes) =
     (case spawn_step p outcome failed_attempts of
        None \<Rightarrow> []
      | Some (failed_attempts', delay) \<Rightarrow> delay # spawn_delays p failed_attempts' outcomes)"

subsection \<open>The desired slices of a pool\<close>

definition duplicate_names :: "wire_device list \<Rightarrow> bool" where
  "duplicate_names devices \<longleftrightarrow>
     list_ex (\<lambda>(a, b). wd_name a = wd_name b) (zip devices (tl devices))"

definition chunk_size :: "wire_device list \<Rightarrow> nat" where
  "chunk_size devices =
     (if list_ex (\<lambda>d. wd_taints d \<noteq> None \<or> wd_consumes_counters d \<noteq> None) devices
      then MAX_DEVICES_PER_ADVANCED_SLICE else MAX_DEVICES_PER_SLICE)"

type_synonym slice_chunk = "wire_device list option \<times> wire_counter_set list option"

definition pool_chunks ::
    "'b crates \<Rightarrow> string \<Rightarrow> 'b pool_inventory \<Rightarrow> (string \<times> resource_slice) list
      \<Rightarrow> failure + slice_chunk list" where
  "pool_chunks E pool_name inventory pool_existing =
     res_bind (res_map_err (\<lambda>error. invalid_pool_error pool_name (show_validation_error (env_debug E) error))
         (validate_pool_name pool_name)) (\<lambda>_.
     res_bind (counter_sets_to_wire E (pi_shared_counters inventory) pool_name) (\<lambda>counters.
     res_bind (traverse (inventory_device_to_wire E pool_name) (pi_devices inventory)) (\<lambda>wire_devices.
     let wire_devices = canonicalize_devices wire_devices
     in res_bind (validate_counter_references wire_devices counters pool_name) (\<lambda>_.
     res_bind (ensure (\<not> duplicate_names wire_devices)
         (invalid_pool_error pool_name ''contains duplicate device names'')) (\<lambda>_.
     let wire_devices = preserve_taint_times pool_existing wire_devices;
         size = chunk_size wire_devices
     in Inr (map (\<lambda>c. (Some c, None)) (chunks_of size wire_devices)
         @ map (\<lambda>c. (None, Some c)) (chunks_of MAX_COUNTER_SETS_PER_SLICE counters)))))))"

definition desired_slice ::
    "publisher \<Rightarrow> owner_reference \<Rightarrow> string \<Rightarrow> int \<Rightarrow> nat \<times> slice_chunk \<Rightarrow> resource_slice" where
  "desired_slice p owner pool_name slice_count = (\<lambda>(index, devices, shared_counters).
     \<lparr>rs_metadata =
        \<lparr>om_name = Some (slice_name (pub_driver_name p) (pub_node_name p) pool_name index),
         om_uid = None, om_resource_version = None, om_owner_references = Some [owner],
         om_other = ''''\<rparr>,
      rs_spec =
        \<lparr>ss_driver = pub_driver_name p, ss_node_name = Some (pub_node_name p),
         ss_pool = \<lparr>sp_name = pool_name, sp_generation = 0, sp_slice_count = slice_count\<rparr>,
         ss_devices = devices, ss_shared_counters = shared_counters,
         ss_skip_node_operations = None, ss_other = ''''\<rparr>\<rparr>)"

definition desired_slices ::
    "publisher \<Rightarrow> owner_reference \<Rightarrow> string \<Rightarrow> slice_chunk list \<Rightarrow> failure + resource_slice list" where
  "desired_slices p owner pool_name chunks =
     res_bind (ensure (int (length chunks) \<le> i64_max)
         (invalid_pool_error pool_name ''requires too many ResourceSlices'')) (\<lambda>_.
       Inr (map (desired_slice p owner pool_name (int (length chunks))) (enumerate 0 chunks)))"

definition slice_name_of :: "resource_slice \<Rightarrow> string option" where
  "slice_name_of s = om_name (rs_metadata s)"

abbreviation slice_pool_name :: "resource_slice \<Rightarrow> string" where
  "slice_pool_name s \<equiv> sp_name (ss_pool (rs_spec s))"

abbreviation slice_generation :: "resource_slice \<Rightarrow> int" where
  "slice_generation s \<equiv> sp_generation (ss_pool (rs_spec s))"

definition with_generation :: "int \<Rightarrow> slice_spec \<Rightarrow> slice_spec" where
  "with_generation g spec = spec\<lparr>ss_pool := (ss_pool spec)\<lparr>sp_generation := g\<rparr>\<rparr>"

text \<open>\<open>existing.iter().all(..)\<close> with the panics of the canonical form: \<open>None\<close>.\<close>

fun all_opt :: "('a \<Rightarrow> bool option) \<Rightarrow> 'a list \<Rightarrow> bool option" where
  "all_opt f [] = Some True"
| "all_opt f (x # xs) =
     (case f x of None \<Rightarrow> None | Some b \<Rightarrow> if b then all_opt f xs else Some False)"

definition expected_specs :: "'b crates \<Rightarrow> resource_slice list \<Rightarrow> (string, slice_spec) btree option" where
  "expected_specs E desired =
     map_option bt_collect
       (map_opt (\<lambda>slice.
          case canonicalize_slice_spec E (rs_spec slice) of
            None \<Rightarrow> None
          | Some spec \<Rightarrow> map_option (\<lambda>name. (name, spec)) (slice_name_of slice)) desired)"

definition spec_unchanged ::
    "'b crates \<Rightarrow> (string, slice_spec) btree \<Rightarrow> string \<times> resource_slice \<Rightarrow> bool option" where
  "spec_unchanged E expected = (\<lambda>(name, slice).
     case bt_lookup expected name of
       None \<Rightarrow> Some False
     | Some desired \<Rightarrow>
         map_option (\<lambda>current. with_generation (sp_generation (ss_pool desired)) current = desired)
           (canonicalize_slice_spec E (rs_spec slice)))"

definition pool_generation ::
    "'b crates \<Rightarrow> (string \<times> resource_slice) list \<Rightarrow> string \<Rightarrow> resource_slice list \<Rightarrow> failure + int" where
  "pool_generation E existing pool_name desired =
     res_bind (panicking (expected_specs E desired)) (\<lambda>expected.
       let generations = remdups (map (\<lambda>(_, slice). slice_generation slice) existing)
       in res_bind
            (if expected \<noteq> [] \<and> length existing = length expected \<and> length generations = 1
             then panicking (all_opt (spec_unchanged E expected) existing) else Inr False)
            (\<lambda>unchanged.
              if unchanged then Inr (hd generations)
              else let current = (if generations = [] then 0 else Max (set generations))
                   in ok_or (invalid_pool_error pool_name ''generation cannot be incremented'')
                        (if current + 1 \<le> i64_max then Some (current + 1) else None)))"

subsection \<open>Applying the plan\<close>

abbreviation existing_of_pool :: "(string, resource_slice) btree \<Rightarrow> string \<Rightarrow> (string \<times> resource_slice) list" where
  "existing_of_pool existing pool_name \<equiv> filter (\<lambda>(_, s). slice_pool_name s = pool_name) existing"

definition resource_slice_matches ::
    "'b crates \<Rightarrow> resource_slice \<Rightarrow> resource_slice \<Rightarrow> bool option" where
  "resource_slice_matches E current desired =
     (case (canonicalize_slice_spec E (rs_spec current), canonicalize_slice_spec E (rs_spec desired)) of
        (Some current_spec, Some desired_spec) \<Rightarrow>
          Some (current_spec = desired_spec
            \<and> om_owner_references (rs_metadata current) = om_owner_references (rs_metadata desired))
      | _ \<Rightarrow> None)"

text \<open>One round of \<open>for mut desired in desired\<close>: the new local map \<open>existing\<close>.\<close>

definition apply_slice ::
    "'b crates \<Rightarrow> slice_api \<Rightarrow> string \<Rightarrow> int \<Rightarrow> (string, resource_slice) btree \<Rightarrow> resource_slice
      \<Rightarrow> (slice_request, (string, resource_slice) btree) io" where
  "apply_slice E A pool_name generation existing desired =
     (let desired = desired\<lparr>rs_spec := with_generation generation (rs_spec desired)\<rparr>
      in io_bind (io_lift (panicking (slice_name_of desired))) (\<lambda>name.
         if (case bt_lookup existing name of None \<Rightarrow> False | Some s \<Rightarrow> slice_pool_name s \<noteq> pool_name)
         then io_lift (Inl (invalid_pool_error pool_name ''slice name is owned by another pool''))
         else (case bt_lookup existing name of
             Some current \<Rightarrow>
               io_bind (io_lift (panicking (resource_slice_matches E current desired))) (\<lambda>unchanged.
                 if unchanged then io_return (bt_remove name existing)
                 else
                   (let current =
                      \<lparr>rs_metadata = (rs_metadata current)
                         \<lparr>om_owner_references := om_owner_references (rs_metadata desired)\<rparr>,
                       rs_spec = rs_spec desired\<rparr>
                    in io_bind (call (\<lambda>h. api_replace A h name current) (ReplaceSlice name current))
                         (\<lambda>_. io_return (bt_remove name existing))))
           | None \<Rightarrow>
               io_bind (call (\<lambda>h. api_create A h desired) (CreateSlice desired))
                 (\<lambda>_. io_return existing))))"

definition reconcile_pool ::
    "'b crates \<Rightarrow> slice_api \<Rightarrow> publisher \<Rightarrow> owner_reference \<Rightarrow> (string, resource_slice) btree
      \<Rightarrow> string \<times> 'b pool_inventory \<Rightarrow> (slice_request, (string, resource_slice) btree) io" where
  "reconcile_pool E A p owner existing = (\<lambda>(pool_name, inventory).
     let pool_existing = existing_of_pool existing pool_name
     in io_bind (io_lift (pool_chunks E pool_name inventory pool_existing)) (\<lambda>chunks.
        if chunks = [] then io_return existing
        else io_bind (io_lift (desired_slices p owner pool_name chunks)) (\<lambda>desired.
             io_bind (io_lift (pool_generation E pool_existing pool_name desired)) (\<lambda>generation.
             io_fold (apply_slice E A pool_name generation) existing desired))))"

subsection \<open>One publication\<close>

definition owner_reference_of_node ::
    "slice_api \<Rightarrow> publisher \<Rightarrow> (slice_request, owner_reference) io" where
  "owner_reference_of_node A p =
     io_bind (call (\<lambda>h. api_get_node A h (pub_node_name p)) (GetNode (pub_node_name p))) (\<lambda>node.
       io_lift (ok_or (Failed (api_status ''node object is missing a UID''))
         (map_option (\<lambda>owner. owner\<lparr>or_controller := Some True, or_block_owner_deletion := Some False\<rparr>)
           node)))"

definition slice_selector :: "publisher \<Rightarrow> string" where
  "slice_selector p =
     ''spec.driver='' @ pub_driver_name p @ '',spec.nodeName='' @ pub_node_name p"

definition in_scope :: "publisher \<Rightarrow> resource_slice \<Rightarrow> bool" where
  "in_scope p s \<longleftrightarrow>
     ss_driver (rs_spec s) = pub_driver_name p \<and> ss_node_name (rs_spec s) = Some (pub_node_name p)"

definition listed_slices :: "publisher \<Rightarrow> resource_slice list \<Rightarrow> (string, resource_slice) btree" where
  "listed_slices p items =
     bt_collect (List.map_filter (\<lambda>s. map_option (\<lambda>name. (name, s)) (slice_name_of s))
       (filter (in_scope p) items))"

definition delete_stale ::
    "slice_api \<Rightarrow> unit \<Rightarrow> string \<times> resource_slice \<Rightarrow> (slice_request, unit) io" where
  "delete_stale A u = (\<lambda>(name, s).
     io_bind (io_lift (ok_or (invalid_pool_error (slice_pool_name s) ''stale slice is missing a UID'')
         (drop_empty (om_uid (rs_metadata s))))) (\<lambda>uid.
     io_bind (io_lift (ok_or
         (invalid_pool_error (slice_pool_name s) ''stale slice is missing a resourceVersion'')
         (drop_empty (om_resource_version (rs_metadata s))))) (\<lambda>resource_version.
     \<lambda>h. case call (\<lambda>h. api_delete A h name uid resource_version)
                   (DeleteSlice name uid resource_version) h of
         (Inl (Failed (ApiError code reason message)), h') \<Rightarrow>
           (if code = 404 then Inr () else Inl (Failed (ApiError code reason message)), h')
       | outcome \<Rightarrow> outcome)))"

definition publish_once ::
    "'b crates \<Rightarrow> slice_api \<Rightarrow> publisher \<Rightarrow> (string, 'b pool_inventory) btree
      \<Rightarrow> (slice_request, unit) io" where
  "publish_once E A p snapshot =
     io_bind (owner_reference_of_node A p) (\<lambda>owner.
     io_bind (call (\<lambda>h. api_list A h (slice_selector p)) (ListSlices (slice_selector p))) (\<lambda>items.
     io_bind (io_fold (reconcile_pool E A p owner) (listed_slices p items) snapshot) (\<lambda>existing.
     io_fold (delete_stale A) () existing)))"

end
