(* ===== verification/Slice_Limits.thy ===== *)
theory Slice_Limits
  imports Slice_Publisher Quantity_Correct "HOL-Library.Multiset"
begin

text \<open>
  Which inventories the publisher accepts: the limits of the API as predicates on the backend's
  data, and the proof that the conversion to wire objects succeeds exactly on those, with the
  shape of its result.
\<close>

subsection \<open>Counters\<close>

definition displayable :: "'b crates \<Rightarrow> 'b quantity \<Rightarrow> bool" where
  "displayable E q \<longleftrightarrow> quantity_display (env_big E) q \<noteq> None"

definition wire_text :: "'b crates \<Rightarrow> 'b quantity \<Rightarrow> string" where
  "wire_text E q = the (quantity_display (env_big E) q)"

lemma quantity_to_wire_iff: "quantity_to_wire E q = Inr s \<longleftrightarrow> displayable E q \<and> s = wire_text E q"
  by (auto simp: quantity_to_wire_def displayable_def wire_text_def res_simps)

definition valid_counters :: "(string, 'b quantity) btree \<Rightarrow> bool" where
  "valid_counters counters \<longleftrightarrow>
     counters \<noteq> [] \<and> length counters \<le> 32 \<and> (\<forall>(name, q) \<in> set counters. is_valid_dns_label name)"

definition wire_counters :: "'b crates \<Rightarrow> (string, 'b quantity) btree \<Rightarrow> (string, string) btree" where
  "wire_counters E counters = bt_collect (map (\<lambda>(name, q). (name, wire_text E q)) counters)"

definition displayable_values :: "'b crates \<Rightarrow> (string, 'b quantity) btree \<Rightarrow> bool" where
  "displayable_values E counters \<longleftrightarrow> (\<forall>(name, q) \<in> set counters. displayable E q)"

lemma validate_counter_name_iff: "validate_counter_name E n p = Inr u \<longleftrightarrow> is_valid_dns_label n"
  by (simp add: validate_counter_name_def res_simps is_valid_counter_name_def)

lemma list_all2_P_eq:
  "list_all2 (\<lambda>x y. P x \<and> y = f x) xs ys \<longleftrightarrow> (\<forall>x \<in> set xs. P x) \<and> ys = map f xs"
  by (induction xs arbitrary: ys) (auto simp: list_all2_Cons1)

lemma counters_to_wire_iff:
  "counters_to_wire E counters p = Inr m \<longleftrightarrow>
     valid_counters counters \<and> displayable_values E counters \<and> m = wire_counters E counters"
proof -
  have entry: "(case x of (name, q) \<Rightarrow> res_bind (validate_counter_name E name p)
        (\<lambda>_. res_map (Pair name) (quantity_to_wire E q))) = Inr y \<longleftrightarrow>
      (case x of (name, q) \<Rightarrow> is_valid_dns_label name \<and> displayable E q)
        \<and> y = (case x of (name, q) \<Rightarrow> (name, wire_text E q))" for x y
    by (auto simp: res_simps validate_counter_name_iff quantity_to_wire_iff split: prod.splits)
  show ?thesis
    by (auto simp: counters_to_wire_def res_simps entry list_all2_P_eq valid_counters_def
        displayable_values_def wire_counters_def MAX_COUNTERS_def)
qed

definition valid_counter_sets :: "'b counter_set list \<Rightarrow> bool" where
  "valid_counter_sets sets \<longleftrightarrow>
     distinct (map cs_name sets)
     \<and> (\<forall>set \<in> set sets. is_valid_dns_label (cs_name set) \<and> valid_counters (cs_counters set))"

definition wire_counter_set :: "'b crates \<Rightarrow> 'b counter_set \<Rightarrow> wire_counter_set" where
  "wire_counter_set E c = \<lparr>ws_name = cs_name c, ws_counters = wire_counters E (cs_counters c)\<rparr>"

lemma counter_set_to_wire_iff:
  "counter_set_to_wire E p names c = Inr (w, names') \<longleftrightarrow>
     cs_name c \<notin> names
     \<and> ((is_valid_dns_label (cs_name c) \<and> valid_counters (cs_counters c)
         \<and> displayable_values E (cs_counters c)) \<and> w = wire_counter_set E c)
     \<and> names' = insert (cs_name c) names"
  by (auto simp: counter_set_to_wire_def res_simps validate_counter_name_iff counters_to_wire_iff
      wire_counter_set_def)

lemma counter_sets_to_wire_iff:
  "counter_sets_to_wire E sets p = Inr ws \<longleftrightarrow>
     valid_counter_sets sets \<and> (\<forall>c \<in> set sets. displayable_values E (cs_counters c))
     \<and> ws = sort_key ws_name (map (wire_counter_set E) sets)"
proof -
  have "traverse_st (counter_set_to_wire E p) {} sets = Inr ys \<longleftrightarrow>
      valid_counter_sets sets \<and> (\<forall>c \<in> set sets. displayable_values E (cs_counters c))
      \<and> ys = map (wire_counter_set E) sets" for ys
    unfolding traverse_st_distinct [OF counter_set_to_wire_iff] list_all2_P_eq
    by (auto simp: valid_counter_sets_def)
  then show ?thesis by (auto simp: counter_sets_to_wire_def res_simps)
qed

definition valid_consumptions :: "'b device_counter_consumption list \<Rightarrow> bool" where
  "valid_consumptions cs \<longleftrightarrow>
     length cs \<le> 2 \<and> distinct (map cc_counter_set cs)
     \<and> (\<forall>c \<in> set cs. is_valid_dns_label (cc_counter_set c) \<and> valid_counters (cc_counters c))"

definition wire_consumption_of :: "'b crates \<Rightarrow> 'b device_counter_consumption \<Rightarrow> wire_consumption" where
  "wire_consumption_of E c =
     \<lparr>wc_counter_set = cc_counter_set c, wc_counters = wire_counters E (cc_counters c),
      wc_compatibility_groups = None\<rparr>"

lemma consumption_to_wire_iff:
  "consumption_to_wire E p names c = Inr (w, names') \<longleftrightarrow>
     cc_counter_set c \<notin> names
     \<and> ((is_valid_dns_label (cc_counter_set c) \<and> valid_counters (cc_counters c)
         \<and> displayable_values E (cc_counters c)) \<and> w = wire_consumption_of E c)
     \<and> names' = insert (cc_counter_set c) names"
  by (auto simp: consumption_to_wire_def res_simps validate_counter_name_iff counters_to_wire_iff
      wire_consumption_of_def)

lemma consumptions_to_wire_iff:
  "consumptions_to_wire E cs p = Inr ws \<longleftrightarrow>
     valid_consumptions cs \<and> (\<forall>c \<in> set cs. displayable_values E (cc_counters c))
     \<and> ws = non_empty (map (wire_consumption_of E) cs)"
proof -
  have "traverse_st (consumption_to_wire E p) {} cs = Inr ys \<longleftrightarrow>
      distinct (map cc_counter_set cs)
      \<and> (\<forall>c \<in> set cs. is_valid_dns_label (cc_counter_set c) \<and> valid_counters (cc_counters c))
      \<and> (\<forall>c \<in> set cs. displayable_values E (cc_counters c))
      \<and> ys = map (wire_consumption_of E) cs" for ys
    unfolding traverse_st_distinct [OF consumption_to_wire_iff] list_all2_P_eq by auto
  then show ?thesis
    by (auto simp: consumptions_to_wire_def res_simps valid_consumptions_def
        MAX_CONSUMPTIONS_PER_DEVICE_def)
qed

subsection \<open>Devices\<close>

definition wire_capacity :: "'b crates \<Rightarrow> 'b quantity \<Rightarrow> device_capacity" where
  "wire_capacity E q = \<lparr>dc_request_policy = None, dc_value = wire_text E q\<rparr>"

definition wire_pool_device :: "'b crates \<Rightarrow> 'b pool_device \<Rightarrow> wire_device" where
  "wire_pool_device E d =
     \<lparr>wd_name = pd_name d,
      wd_attributes =
        (if pd_attributes d = [] then None
         else Some (bt_collect (map (\<lambda>(n, v). (n, attribute_value_to_wire v)) (pd_attributes d)))),
      wd_capacity =
        (if pd_capacity d = [] then None
         else Some (bt_collect (map (\<lambda>(n, q). (n, wire_capacity E q)) (pd_capacity d)))),
      wd_node_allocatable = None, wd_consumes_counters = None, wd_binding_conditions = None,
      wd_binding_failure_conditions = None, wd_binds_to_node = None, wd_taints = None,
      wd_other = ''''\<rparr>"

lemma pool_device_to_wire_iff:
  "pool_device_to_wire E d = Inr w \<longleftrightarrow>
     displayable_values E (pd_capacity d) \<and> w = wire_pool_device E d"
proof -
  have entry: "(case x of (name, q) \<Rightarrow>
        res_map (\<lambda>v. (name, \<lparr>dc_request_policy = None, dc_value = v\<rparr>)) (quantity_to_wire E q)) = Inr y
      \<longleftrightarrow> (case x of (name, q) \<Rightarrow> displayable E q) \<and> y = (case x of (name, q) \<Rightarrow> (name, wire_capacity E q))"
    for x y
    by (auto simp: res_simps quantity_to_wire_iff wire_capacity_def split: prod.splits)
  show ?thesis
    by (auto simp: pool_device_to_wire_def Let_def res_simps entry list_all2_P_eq
        displayable_values_def wire_pool_device_def)
qed

definition taint_id :: "device_taint \<Rightarrow> string \<times> string" where
  "taint_id t = (dt_key t, taint_effect_as_str (dt_effect t))"

definition time_ok :: "'b crates \<Rightarrow> device_taint \<Rightarrow> bool" where
  "time_ok E t \<longleftrightarrow> (\<forall>s. dt_time_added t = Some s \<longrightarrow> env_timestamp E s \<noteq> None)"

definition wire_taint_of :: "'b crates \<Rightarrow> device_taint \<Rightarrow> wire_taint" where
  "wire_taint_of E t =
     \<lparr>wt_key = dt_key t, wt_value = non_empty (dt_value t),
      wt_effect = taint_effect_as_str (dt_effect t),
      wt_time_added = Option.bind (dt_time_added t) (env_timestamp E)\<rparr>"

lemma taint_to_wire_iff:
  "taint_to_wire E p ids t = Inr (w, ids') \<longleftrightarrow>
     taint_id t \<notin> ids \<and> (time_ok E t \<and> w = wire_taint_of E t) \<and> ids' = insert (taint_id t) ids"
  by (auto simp: taint_to_wire_def Let_def res_simps taint_id_def time_ok_def wire_taint_of_def
      split: option.splits)

definition valid_conditions :: "string list \<Rightarrow> bool" where
  "valid_conditions cs \<longleftrightarrow> length cs \<le> 4 \<and> distinct cs"

lemma check_conditions_iff: "check_conditions p cs = Inr u \<longleftrightarrow> valid_conditions cs"
  by (auto simp: check_conditions_def res_simps valid_conditions_def
      MAX_BINDING_CONDITIONS_PER_DEVICE_def card_distinct distinct_card)

definition valid_inventory_device :: "'b crates \<Rightarrow> 'b inventory_device \<Rightarrow> bool" where
  "valid_inventory_device E d \<longleftrightarrow>
     length (id_taints d) \<le> 16 \<and> distinct (map taint_id (id_taints d))
     \<and> (\<forall>t \<in> set (id_taints d). time_ok E t)
     \<and> valid_consumptions (id_consumes_counters d)
     \<and> (\<forall>b. id_binding d = Some b \<longrightarrow>
          valid_conditions (db_conditions b) \<and> valid_conditions (db_failure_conditions b))"

definition displayable_device :: "'b crates \<Rightarrow> 'b inventory_device \<Rightarrow> bool" where
  "displayable_device E d \<longleftrightarrow>
     displayable_values E (pd_capacity (id_device d))
     \<and> (\<forall>c \<in> set (id_consumes_counters d). displayable_values E (cc_counters c))"

definition wire_device_of :: "'b crates \<Rightarrow> 'b inventory_device \<Rightarrow> wire_device" where
  "wire_device_of E d =
     (let wire = (wire_pool_device E (id_device d))
        \<lparr>wd_taints := non_empty (map (wire_taint_of E) (id_taints d)),
         wd_consumes_counters := non_empty (map (wire_consumption_of E) (id_consumes_counters d))\<rparr>
      in case id_binding d of
           None \<Rightarrow> wire
         | Some b \<Rightarrow> wire
             \<lparr>wd_binding_conditions := non_empty (db_conditions b),
              wd_binding_failure_conditions := non_empty (db_failure_conditions b),
              wd_binds_to_node := (if db_binds_to_node b then Some True else None)\<rparr>)"

lemma inventory_device_to_wire_iff:
  "inventory_device_to_wire E p d = Inr w \<longleftrightarrow>
     (valid_inventory_device E d \<and> displayable_device E d) \<and> w = wire_device_of E d"
proof -
  have taints: "traverse_st (taint_to_wire E p) {} (id_taints d) = Inr ts \<longleftrightarrow>
      distinct (map taint_id (id_taints d)) \<and> (\<forall>t \<in> set (id_taints d). time_ok E t)
      \<and> ts = map (wire_taint_of E) (id_taints d)" for ts
    unfolding traverse_st_distinct [OF taint_to_wire_iff] list_all2_P_eq by auto
  show ?thesis
  proof (cases "id_binding d")
    case None
    then show ?thesis
      by (auto simp: inventory_device_to_wire_def res_simps taints consumptions_to_wire_iff
          pool_device_to_wire_iff valid_inventory_device_def displayable_device_def
          wire_device_of_def Let_def MAX_TAINTS_PER_DEVICE_def)
  next
    case (Some b)
    then show ?thesis
      by (auto simp: inventory_device_to_wire_def res_simps taints consumptions_to_wire_iff
          pool_device_to_wire_iff check_conditions_iff valid_inventory_device_def
          displayable_device_def wire_device_of_def Let_def MAX_TAINTS_PER_DEVICE_def)
  qed
qed

lemma wire_device_of_fields [simp]:
  "wd_name (wire_device_of E d) = pd_name (id_device d)"
  "wd_taints (wire_device_of E d) = non_empty (map (wire_taint_of E) (id_taints d))"
  "wd_consumes_counters (wire_device_of E d)
     = non_empty (map (wire_consumption_of E) (id_consumes_counters d))"
  by (simp_all add: wire_device_of_def wire_pool_device_def Let_def split: option.splits)

subsection \<open>References to counters\<close>

lemma opt_list_drop_empty [simp]: "opt_list (drop_empty m) = opt_list m"
  by (cases m) (auto simp: opt_list_def drop_empty_def non_empty_def)

lemma opt_list_non_empty [simp]: "opt_list (non_empty xs) = xs"
  by (simp add: opt_list_def non_empty_def)

lemma opt_list_map [simp]: "opt_list (map_option (map f) m) = map f (opt_list m)"
  by (cases m) (simp_all add: opt_list_def)

lemma opt_list_sorted_some: "opt_list (sorted_some key m) = sort_key key (opt_list m)"
  by (cases m) (simp_all add: sorted_some_def opt_list_def drop_empty_def non_empty_def)

lemma keys_bt_collect [simp]: "fst ` set (bt_collect xs) = fst ` set xs"
proof -
  have "k \<in> fst ` set (bt_collect xs) \<longleftrightarrow> k \<in> fst ` set xs" for k
  proof -
    have "k \<in> fst ` set (bt_collect xs) \<longleftrightarrow> bt_lookup (bt_collect xs) k \<noteq> None"
      by (simp add: bt_lookup_def map_of_eq_None_iff)
    also have "\<dots> \<longleftrightarrow> k \<in> fst ` set xs"
      by (simp add: bt_lookup_collect map_of_eq_None_iff)
    finally show ?thesis .
  qed
  then show ?thesis by blast
qed

lemma keys_wire_counters [simp]: "fst ` set (wire_counters E m) = fst ` set m"
  by (force simp: wire_counters_def)

definition wire_references_ok :: "wire_device list \<Rightarrow> wire_counter_set list \<Rightarrow> bool" where
  "wire_references_ok devices sets \<longleftrightarrow>
     (\<forall>d \<in> set devices. \<forall>c \<in> set (opt_list (wd_consumes_counters d)).
        \<exists>s \<in> set sets. ws_name s = wc_counter_set c
          \<and> fst ` set (wc_counters c) \<subseteq> fst ` set (ws_counters s))"

lemma validate_counter_references_iff:
  assumes "distinct (map ws_name sets)"
  shows "validate_counter_references devices sets p = Inr u \<longleftrightarrow> wire_references_ok devices sets"
proof -
  have keys: "map fst (map (\<lambda>s. (ws_name s, ws_counters s)) sets) = map ws_name sets" by simp
  have lookup: "bt_lookup (bt_collect (map (\<lambda>s. (ws_name s, ws_counters s)) sets)) n = Some m \<longleftrightarrow>
      (\<exists>s \<in> set sets. ws_name s = n \<and> ws_counters s = m)" for n m
    using assms unfolding bt_collect_eq
    by (subst bt.lookup_collect_distinct) (auto simp: keys comp_def)
  have check: "list_ex (\<lambda>name. bt_lookup m name = None) (map fst (wc_counters c)) \<longleftrightarrow>
      \<not> fst ` set (wc_counters c) \<subseteq> fst ` set m" for c and m :: "(string, string) btree"
    by (auto simp: list_ex_iff bt_lookup_def map_of_eq_None_iff)
  have unique: "s = s'" if "s \<in> set sets" "s' \<in> set sets" "ws_name s = ws_name s'" for s s'
    using assms that by (auto simp: distinct_map dest: inj_onD)
  have one: "(case bt_lookup (bt_collect (map (\<lambda>s. (ws_name s, ws_counters s)) sets)) (wc_counter_set c) of
       None \<Rightarrow> Inl (invalid_pool_error p ''device references an unknown counter set'')
     | Some counters \<Rightarrow>
         if list_ex (\<lambda>name. bt_lookup counters name = None) (map fst (wc_counters c))
         then Inl (invalid_pool_error p ''device references an unknown counter'') else Inr ()) = Inr ()
     \<longleftrightarrow> (\<exists>s \<in> set sets. ws_name s = wc_counter_set c
          \<and> fst ` set (wc_counters c) \<subseteq> fst ` set (ws_counters s))" for c
  proof (cases "bt_lookup (bt_collect (map (\<lambda>s. (ws_name s, ws_counters s)) sets)) (wc_counter_set c)")
    case None
    then have "\<not> (\<exists>s \<in> set sets. ws_name s = wc_counter_set c)"
      using lookup [of "wc_counter_set c"] by fastforce
    with None show ?thesis by auto
  next
    case (Some m)
    then obtain s where s: "s \<in> set sets" "ws_name s = wc_counter_set c" "ws_counters s = m"
      using lookup by blast
    then have "(\<exists>s \<in> set sets. ws_name s = wc_counter_set c
        \<and> fst ` set (wc_counters c) \<subseteq> fst ` set (ws_counters s))
      \<longleftrightarrow> fst ` set (wc_counters c) \<subseteq> fst ` set m"
      using unique by metis
    with Some show ?thesis by (simp add: check)
  qed
  show ?thesis
    by (simp add: validate_counter_references_def Let_def res_simps one wire_references_ok_def)
qed

subsection \<open>The chunks of a pool\<close>

lemma canonical_device_name [simp]: "wd_name (canonical_device d) = wd_name d"
  by (simp add: canonical_device_def)

lemma canonical_device_consumptions [simp]:
  "set (opt_list (wd_consumes_counters (canonical_device d)))
     = canonical_consumption ` set (opt_list (wd_consumes_counters d))"
  by (simp add: canonical_device_def opt_list_sorted_some)

lemma canonical_consumption_fields [simp]:
  "wc_counter_set (canonical_consumption c) = wc_counter_set c"
  "wc_counters (canonical_consumption c) = wc_counters c"
  by (simp_all add: canonical_consumption_def)

lemma set_canonicalize_devices [simp]:
  "set (canonicalize_devices devices) = canonical_device ` set devices"
  by (simp add: canonicalize_devices_def)

lemma canonicalize_devices_names:
  "map wd_name (canonicalize_devices devices) = sort (map wd_name devices)"
proof (rule sym, rule properties_for_sort)
  show "mset (map wd_name (canonicalize_devices devices)) = mset (map wd_name devices)"
    by (simp add: canonicalize_devices_def multiset.map_comp comp_def)
  show "sorted (map wd_name (canonicalize_devices devices))"
    by (simp add: canonicalize_devices_def)
qed

lemma sorted_adjacent_distinct:
  fixes xs :: "'a :: linorder list"
  assumes "sorted xs"
  shows "list_ex (\<lambda>(a, b). a = b) (zip xs (tl xs)) \<longleftrightarrow> \<not> distinct xs"
  using assms
proof (induction xs)
  case (Cons x xs)
  show ?case
  proof (cases xs)
    case (Cons y ys)
    with Cons.prems have "x \<in> set xs \<longleftrightarrow> x = y" by (auto simp: antisym)
    with Cons Cons.IH Cons.prems show ?thesis by auto
  qed simp
qed simp

lemma duplicate_names_iff:
  assumes "sorted (map wd_name devices)"
  shows "duplicate_names devices \<longleftrightarrow> \<not> distinct (map wd_name devices)"
proof -
  have "duplicate_names devices \<longleftrightarrow>
      list_ex (\<lambda>(a, b). a = b) (zip (map wd_name devices) (tl (map wd_name devices)))"
    by (auto simp: duplicate_names_def list_ex_iff zip_map_map map_tl [symmetric] split: prod.splits)
  then show ?thesis using sorted_adjacent_distinct [OF assms] by simp
qed

definition references_ok :: "'b pool_inventory \<Rightarrow> bool" where
  "references_ok pinv \<longleftrightarrow>
     (\<forall>d \<in> set (pi_devices pinv). \<forall>c \<in> set (id_consumes_counters d).
        \<exists>s \<in> set (pi_shared_counters pinv). cs_name s = cc_counter_set c
          \<and> fst ` set (cc_counters c) \<subseteq> fst ` set (cs_counters s))"

definition device_names :: "'b pool_inventory \<Rightarrow> string list" where
  "device_names pinv = map (\<lambda>d. pd_name (id_device d)) (pi_devices pinv)"

definition valid_pool :: "'b crates \<Rightarrow> string \<Rightarrow> 'b pool_inventory \<Rightarrow> bool" where
  "valid_pool E pool_name pinv \<longleftrightarrow>
     validate_pool_name pool_name = Inr ()
     \<and> valid_counter_sets (pi_shared_counters pinv)
     \<and> (\<forall>d \<in> set (pi_devices pinv). valid_inventory_device E d)
     \<and> references_ok pinv
     \<and> distinct (device_names pinv)"

definition displayable_pool :: "'b crates \<Rightarrow> 'b pool_inventory \<Rightarrow> bool" where
  "displayable_pool E pinv \<longleftrightarrow>
     (\<forall>c \<in> set (pi_shared_counters pinv). displayable_values E (cs_counters c))
     \<and> (\<forall>d \<in> set (pi_devices pinv). displayable_device E d)"

definition pool_devices ::
    "'b crates \<Rightarrow> 'b pool_inventory \<Rightarrow> (string \<times> resource_slice) list \<Rightarrow> wire_device list" where
  "pool_devices E pinv existing =
     preserve_taint_times existing (canonicalize_devices (map (wire_device_of E) (pi_devices pinv)))"

definition pool_counter_sets :: "'b crates \<Rightarrow> 'b pool_inventory \<Rightarrow> wire_counter_set list" where
  "pool_counter_sets E pinv = sort_key ws_name (map (wire_counter_set E) (pi_shared_counters pinv))"

definition chunks_for :: "wire_device list \<Rightarrow> wire_counter_set list \<Rightarrow> slice_chunk list" where
  "chunks_for devices sets =
     map (\<lambda>c. (Some c, None)) (chunks_of (chunk_size devices) devices)
       @ map (\<lambda>c. (None, Some c)) (chunks_of 8 sets)"

lemma wire_references_ok_pool:
  "wire_references_ok (canonicalize_devices (map (wire_device_of E) (pi_devices pinv)))
      (pool_counter_sets E pinv) \<longleftrightarrow> references_ok pinv"
  by (simp add: wire_references_ok_def references_ok_def pool_counter_sets_def
      wire_consumption_of_def wire_counter_set_def)

lemma distinct_pool_counter_sets:
  assumes "valid_counter_sets (pi_shared_counters pinv)"
  shows "distinct (map ws_name (pool_counter_sets E pinv))"
proof -
  have "mset (map ws_name (pool_counter_sets E pinv)) = mset (map cs_name (pi_shared_counters pinv))"
    by (simp add: pool_counter_sets_def wire_counter_set_def multiset.map_comp comp_def)
  then have "distinct (map ws_name (pool_counter_sets E pinv))
      = distinct (map cs_name (pi_shared_counters pinv))"
    by (rule mset_eq_imp_distinct_iff)
  with assms show ?thesis by (simp add: valid_counter_sets_def)
qed

lemma pool_chunks_iff:
  "pool_chunks E pool_name pinv existing = Inr chunks \<longleftrightarrow>
     valid_pool E pool_name pinv \<and> displayable_pool E pinv
     \<and> chunks = chunks_for (pool_devices E pinv existing) (pool_counter_sets E pinv)"
proof -
  let ?ds = "canonicalize_devices (map (wire_device_of E) (pi_devices pinv))"
  have dup: "duplicate_names ?ds \<longleftrightarrow> \<not> distinct (device_names pinv)"
    by (subst duplicate_names_iff)
      (simp_all add: canonicalize_devices_names device_names_def comp_def)
  have sets: "counter_sets_to_wire E (pi_shared_counters pinv) pool_name = Inr ws \<longleftrightarrow>
      valid_counter_sets (pi_shared_counters pinv)
      \<and> (\<forall>c \<in> set (pi_shared_counters pinv). displayable_values E (cs_counters c))
      \<and> ws = pool_counter_sets E pinv" for ws
    by (simp add: counter_sets_to_wire_iff pool_counter_sets_def)
  have devs: "traverse (inventory_device_to_wire E pool_name) (pi_devices pinv) = Inr ds \<longleftrightarrow>
      (\<forall>d \<in> set (pi_devices pinv). valid_inventory_device E d \<and> displayable_device E d)
      \<and> ds = map (wire_device_of E) (pi_devices pinv)" for ds
    unfolding res_simps inventory_device_to_wire_iff list_all2_P_eq by simp
  have refs: "validate_counter_references ?ds (pool_counter_sets E pinv) pool_name = Inr u
      \<longleftrightarrow> references_ok pinv" if "valid_counter_sets (pi_shared_counters pinv)" for u
    using validate_counter_references_iff [OF distinct_pool_counter_sets [OF that]]
    by (simp add: wire_references_ok_pool)
  show ?thesis
    by (auto simp: pool_chunks_def Let_def res_bind_Inr_iff res_map_err_Inr_iff ensure_Inr_iff sets devs
        refs dup valid_pool_def displayable_pool_def chunks_for_def pool_devices_def
        MAX_COUNTER_SETS_PER_SLICE_def)
qed

subsection \<open>The devices of the chunks\<close>

definition preserve_device :: "(string \<times> resource_slice) list \<Rightarrow> wire_device \<Rightarrow> wire_device" where
  "preserve_device existing d =
     (case bt_lookup (current_devices existing) (wd_name d) of
        None \<Rightarrow> d
      | Some (_, previous) \<Rightarrow>
          d\<lparr>wd_taints := map_option (map (preserve_taint_time (opt_list (wd_taints previous)))) (wd_taints d)\<rparr>)"

lemma preserve_taint_times_eq: "preserve_taint_times existing ds = map (preserve_device existing) ds"
  by (simp add: preserve_taint_times_def Let_def preserve_device_def)

lemma preserve_device_fields [simp]:
  "wd_name (preserve_device existing d) = wd_name d"
  "wd_taints (preserve_device existing d) = None \<longleftrightarrow> wd_taints d = None"
  "wd_consumes_counters (preserve_device existing d) = wd_consumes_counters d"
  by (auto simp: preserve_device_def split: option.splits)

lemma pool_devices_names: "map wd_name (pool_devices E pinv existing) = sort (device_names pinv)"
proof -
  have "map wd_name (pool_devices E pinv existing)
      = map wd_name (canonicalize_devices (map (wire_device_of E) (pi_devices pinv)))"
    by (simp add: pool_devices_def preserve_taint_times_eq)
  then show ?thesis by (simp add: canonicalize_devices_names device_names_def comp_def)
qed

definition advanced :: "'b pool_inventory \<Rightarrow> bool" where
  "advanced pinv \<longleftrightarrow> list_ex (\<lambda>d. id_taints d \<noteq> [] \<or> id_consumes_counters d \<noteq> []) (pi_devices pinv)"

lemma sorted_some_None [simp]: "sorted_some key m = None \<longleftrightarrow> opt_list m = []"
proof (cases m)
  case (Some xs)
  have "sort_key key xs = [] \<longleftrightarrow> xs = []" by (metis length_0_conv length_sort)
  with Some show ?thesis by (simp add: sorted_some_def drop_empty_def non_empty_def opt_list_def)
qed (simp add: sorted_some_def drop_empty_def opt_list_def)

lemma opt_list_eq_Nil_map [simp]: "opt_list (map_option (map f) m) = [] \<longleftrightarrow> opt_list m = []"
  by (simp only: opt_list_map) simp

lemma canonical_device_None:
  "wd_taints (canonical_device d) = None \<longleftrightarrow> opt_list (wd_taints d) = []"
  "wd_consumes_counters (canonical_device d) = None \<longleftrightarrow> opt_list (wd_consumes_counters d) = []"
  by (simp_all add: canonical_device_def)

lemma chunk_size_pool: "chunk_size (pool_devices E pinv existing) = (if advanced pinv then 64 else 128)"
proof -
  have "list_ex (\<lambda>d. wd_taints d \<noteq> None \<or> wd_consumes_counters d \<noteq> None) (pool_devices E pinv existing)
      \<longleftrightarrow> advanced pinv"
    unfolding pool_devices_def preserve_taint_times_eq list_ex_iff
    by (simp add: canonical_device_None advanced_def list_ex_iff del: not_None_eq)
  then show ?thesis
    by (simp add: chunk_size_def MAX_DEVICES_PER_SLICE_def MAX_DEVICES_PER_ADVANCED_SLICE_def)
qed

end
