(* ===== verification/Slice_Reconcile.thy ===== *)
theory Slice_Reconcile
  imports Slice_Limits
begin

text \<open>
  What one publication sends to the API server, for every server: the order of the requests,
  the slices it may write and the slices it may delete.
\<close>

subsection \<open>Writes\<close>

fun write_target :: "slice_request \<Rightarrow> string option" where
  "write_target (CreateSlice s) = slice_name_of s"
| "write_target (ReplaceSlice n s) = Some n"
| "write_target _ = None"

fun is_write :: "slice_request \<Rightarrow> bool" where
  "is_write (CreateSlice s) = True"
| "is_write (ReplaceSlice n s) = True"
| "is_write _ = False"

fun is_delete :: "slice_request \<Rightarrow> bool" where
  "is_delete (DeleteSlice n uid version) = True"
| "is_delete _ = False"

text \<open>
  A write is proper for a map of listed slices: a created slice is in the publisher's scope and
  its name was not listed; a replaced slice keeps the metadata of the listed object of that
  name and pool, except for the owner references, and is in scope.
\<close>

definition scoped :: "publisher \<Rightarrow> resource_slice \<Rightarrow> bool" where
  "scoped p s \<longleftrightarrow>
     ss_driver (rs_spec s) = pub_driver_name p \<and> ss_node_name (rs_spec s) = Some (pub_node_name p)"

lemma in_scope_iff: "in_scope p s \<longleftrightarrow> scoped p s"
  by (simp add: in_scope_def scoped_def)

definition proper_create :: "publisher \<Rightarrow> (string, resource_slice) btree \<Rightarrow> resource_slice \<Rightarrow> bool" where
  "proper_create p listed s \<longleftrightarrow>
     scoped p s \<and> om_uid (rs_metadata s) = None \<and> om_resource_version (rs_metadata s) = None
     \<and> (\<exists>i < 2 ^ 64. slice_name_of s
            = Some (slice_name (pub_driver_name p) (pub_node_name p) (slice_pool_name s) i))"

definition proper_replace ::
    "publisher \<Rightarrow> (string, resource_slice) btree \<Rightarrow> string \<Rightarrow> resource_slice \<Rightarrow> bool" where
  "proper_replace p listed n s \<longleftrightarrow>
     scoped p s
     \<and> (\<exists>i < 2 ^ 64. n = slice_name (pub_driver_name p) (pub_node_name p) (slice_pool_name s) i)
     \<and> (\<exists>old. bt_lookup listed n = Some old \<and> slice_pool_name old = slice_pool_name s
          \<and> (\<exists>refs. rs_metadata s = (rs_metadata old)\<lparr>om_owner_references := refs\<rparr>))"

fun proper_write :: "publisher \<Rightarrow> (string, resource_slice) btree \<Rightarrow> slice_request \<Rightarrow> bool" where
  "proper_write p listed (CreateSlice s) = proper_create p listed s"
| "proper_write p listed (ReplaceSlice n s) = proper_replace p listed n s"
| "proper_write p listed _ = False"

lemma proper_write_is_write: "proper_write p listed r \<Longrightarrow> is_write r"
  by (cases r) auto

text \<open>What is left of the listed slices: a part of them, without the names written.\<close>

definition remaining ::
    "(string, resource_slice) btree \<Rightarrow> slice_request list \<Rightarrow> (string, resource_slice) btree \<Rightarrow> bool" where
  "remaining before t after \<longleftrightarrow>
     set after \<subseteq> set before \<and> (\<forall>r \<in> set t. \<forall>n. write_target r = Some n \<longrightarrow> n \<notin> fst ` set after)"

lemma remaining_refl: "remaining m [] m"
  by (simp add: remaining_def)

lemma remaining_trans: "remaining a t b \<Longrightarrow> remaining b u c \<Longrightarrow> remaining a (t @ u) c"
  unfolding remaining_def set_append using image_mono [of "set c" "set b" fst] by blast

definition listed_part :: "(string, resource_slice) btree \<Rightarrow> (string, resource_slice) btree \<Rightarrow> bool" where
  "listed_part listed m \<longleftrightarrow> bt_ok m \<and> set m \<subseteq> set listed"

lemma bt_remove_key: "bt_ok m \<Longrightarrow> k \<notin> fst ` set (bt_remove k m)"
  using bt_lookup_remove [of m k k] bt_lookup_None by metis

lemma listed_part_remove: "listed_part listed m \<Longrightarrow> listed_part listed (bt_remove k m)"
  using set_bt_remove [of k m] by (auto simp: listed_part_def bt_ok_remove)

lemma lookup_in_part:
  assumes "bt_ok listed" "listed_part listed m" "bt_lookup m k = Some v"
  shows "bt_lookup listed k = Some v"
  using assms bt_lookup_in by (fastforce simp: listed_part_def bt_lookup_def bt_ok_distinct)

definition desired_ok :: "publisher \<Rightarrow> string \<Rightarrow> resource_slice \<Rightarrow> bool" where
  "desired_ok p pool_name s \<longleftrightarrow>
     scoped p s \<and> slice_pool_name s = pool_name
     \<and> om_uid (rs_metadata s) = None \<and> om_resource_version (rs_metadata s) = None
     \<and> (\<exists>i < 2 ^ 64. slice_name_of s = Some (slice_name (pub_driver_name p) (pub_node_name p) pool_name i))"

lemma desired_slice_ok: "fst chunk < 2 ^ 64 \<Longrightarrow> desired_ok p pool_name (desired_slice p owner pool_name n chunk)"
  by (cases chunk) (auto simp: desired_ok_def desired_slice_def scoped_def slice_name_of_def split: prod.splits)

definition replacement :: "resource_slice \<Rightarrow> resource_slice \<Rightarrow> resource_slice" where
  "replacement current desired =
     \<lparr>rs_metadata = (rs_metadata current)
        \<lparr>om_owner_references := om_owner_references (rs_metadata desired)\<rparr>,
      rs_spec = rs_spec desired\<rparr>"

definition at_generation :: "int \<Rightarrow> resource_slice \<Rightarrow> resource_slice" where
  "at_generation g s = s\<lparr>rs_spec := with_generation g (rs_spec s)\<rparr>"

lemma slice_name_at_generation [simp]: "slice_name_of (at_generation g s) = slice_name_of s"
  by (simp add: slice_name_of_def at_generation_def)

lemma apply_slice_eq:
  assumes "slice_name_of desired = Some n"
  shows "apply_slice E A pool_name g existing desired =
    (case bt_lookup existing n of
       None \<Rightarrow>
         io_bind (call (\<lambda>h. api_create A h (at_generation g desired)) (CreateSlice (at_generation g desired)))
           (\<lambda>_. io_return existing)
     | Some current \<Rightarrow>
         if slice_pool_name current \<noteq> pool_name
         then io_lift (Inl (invalid_pool_error pool_name ''slice name is owned by another pool''))
         else io_bind (io_lift (panicking (resource_slice_matches E current (at_generation g desired))))
           (\<lambda>unchanged.
             if unchanged then io_return (bt_remove n existing)
             else io_bind (call (\<lambda>h. api_replace A h n (replacement current (at_generation g desired)))
                      (ReplaceSlice n (replacement current (at_generation g desired))))
                    (\<lambda>_. io_return (bt_remove n existing))))"
  using slice_name_at_generation [of g desired] assms
  by (simp add: apply_slice_def Let_def at_generation_def replacement_def split: option.splits cong: if_cong)

lemma desired_ok_at_generation: "desired_ok p pool_name s \<Longrightarrow> desired_ok p pool_name (at_generation g s)"
  by (auto simp: desired_ok_def scoped_def at_generation_def with_generation_def slice_name_of_def)

lemma proper_replacement:
  assumes "desired_ok p pool_name desired" "slice_name_of desired = Some n"
    and "bt_lookup listed n = Some old" "slice_pool_name old = pool_name"
  shows "proper_replace p listed n (replacement old desired)"
  using assms by (auto simp: proper_replace_def replacement_def desired_ok_def scoped_def)

lemma apply_slice_traces:
  assumes "bt_ok listed" "desired_ok p pool_name desired" "listed_part listed existing"
  shows "traces (apply_slice E A pool_name g existing desired)
    (\<lambda>r t. (\<forall>q \<in> set t. proper_write p listed q)
       \<and> (\<forall>after. r = Inr after \<longrightarrow> listed_part listed after \<and> remaining existing t after))"
proof -
  obtain n where n: "slice_name_of desired = Some n" using assms(2) by (auto simp: desired_ok_def)
  note ok = desired_ok_at_generation [OF assms(2), of g]
  have part: "bt_ok existing" using assms(3) by (simp add: listed_part_def)
  show ?thesis
  proof (cases "bt_lookup existing n")
    case None
    then have "(n, s) \<notin> set existing" for s by (force simp: bt_lookup_None)
    with None n ok assms(3) show ?thesis
      by (auto simp: apply_slice_eq [OF n] proper_create_def desired_ok_def remaining_def
          intro!: traces_call_bind traces_return)
  next
    case (Some old)
    have old: "bt_lookup listed n = Some old" using lookup_in_part assms(1,3) Some by blast
    have removed: "listed_part listed (bt_remove n existing)"
      "set (bt_remove n existing) \<subseteq> set existing" "(n, s) \<notin> set (bt_remove n existing)" for s
      using assms(3) part bt_remove_key [of existing n]
      by (force simp: listed_part_remove dest: subsetD [OF set_bt_remove])+
    have "proper_replace p listed n (replacement old (at_generation g desired))"
      if "slice_pool_name old = pool_name"
      using proper_replacement [OF ok _ old that] n by simp
    with Some removed show ?thesis
      by (auto simp: apply_slice_eq [OF n] remaining_def
          intro!: traces_lift_bind traces_call_bind traces_return traces_lift)
  qed
qed

lemma desired_slices_ok:
  "desired_slices p owner pool_name chunks = Inr ds \<Longrightarrow> s \<in> set ds \<Longrightarrow> desired_ok p pool_name s"
  by (auto simp: desired_slices_def res_simps in_set_enumerate_eq i64_max_def intro!: desired_slice_ok)

text \<open>What a step of the loop over pools, or within a pool, may do.\<close>

abbreviation good_step where
  "good_step p listed existing \<equiv> \<lambda>r t. (\<forall>q \<in> set t. proper_write p listed q)
     \<and> (\<forall>after. r = Inr after \<longrightarrow> listed_part listed after \<and> remaining existing t after)"

lemma reconcile_pool_traces:
  assumes "bt_ok listed" "listed_part listed existing"
  shows "traces (reconcile_pool E A p owner existing pool) (good_step p listed existing)"
proof -
  obtain pool_name pinv where pool: "pool = (pool_name, pinv)" by fastforce
  have loop: "traces (io_fold (apply_slice E A pool_name g) existing desired) (good_step p listed existing)"
    if "desired_slices p owner pool_name chunks = Inr desired" for chunks g desired
  proof (rule traces_fold_rel)
    fix s x assume "x \<in> set desired" "listed_part listed s"
    then show "traces (apply_slice E A pool_name g s x) (good_step p listed s)"
      using apply_slice_traces desired_slices_ok that assms(1) by blast
  qed (auto simp: assms(2) remaining_refl intro: remaining_trans)
  show ?thesis
    unfolding reconcile_pool_def pool Let_def prod.case
    by (intro traces_lift_bind)
      (auto intro!: traces_return traces_lift_bind loop simp: assms(2) remaining_refl)
qed

subsection \<open>Deletions\<close>

text \<open>A deletion names a listed slice with the UID and resource version that were listed.\<close>

fun proper_delete :: "(string, resource_slice) btree \<Rightarrow> slice_request \<Rightarrow> bool" where
  "proper_delete m (DeleteSlice n uid version) \<longleftrightarrow>
     (\<exists>s. (n, s) \<in> set m \<and> om_uid (rs_metadata s) = Some uid \<and> uid \<noteq> []
        \<and> om_resource_version (rs_metadata s) = Some version \<and> version \<noteq> [])"
| "proper_delete m _ = False"

lemma drop_empty_Some: "drop_empty m = Some x \<longleftrightarrow> m = Some x \<and> x \<noteq> []"
  by (cases m) (auto simp: drop_empty_def non_empty_def)

lemma delete_stale_traces:
  assumes "x \<in> set existing"
  shows "traces (delete_stale A u x) (\<lambda>r t. \<forall>q \<in> set t. proper_delete existing q)"
proof -
  obtain n s where x: "x = (n, s)" by fastforce
  have one: "traces (\<lambda>h. case call (\<lambda>h. api_delete A h n uid v) (DeleteSlice n uid v) h of
         (Inl (Failed (ApiError code reason message)), h') \<Rightarrow>
           (if code = 404 then Inr () else Inl (Failed (ApiError code reason message)), h')
       | outcome \<Rightarrow> outcome) (\<lambda>r t. \<forall>q \<in> set t. proper_delete existing q)"
    if "drop_empty (om_uid (rs_metadata s)) = Some uid"
      "drop_empty (om_resource_version (rs_metadata s)) = Some v" for uid v
    using that assms
    by (intro tracesI)
      (auto simp: call_def x drop_empty_Some split: sum.splits failure.splits kube_error.splits)
  show ?thesis
    unfolding delete_stale_def x prod.case
    by (intro traces_lift_bind) (auto simp: res_simps intro!: traces_lift_bind one)
qed

subsection \<open>A publication\<close>

abbreviation node_request :: "publisher \<Rightarrow> slice_request" where
  "node_request p \<equiv> GetNode (pub_node_name p)"

abbreviation list_request :: "publisher \<Rightarrow> slice_request" where
  "list_request p \<equiv> ListSlices (slice_selector p)"

text \<open>The answer to the list request of a publication.\<close>

definition answered_list :: "slice_api \<Rightarrow> publisher \<Rightarrow> resource_slice list \<Rightarrow> bool" where
  "answered_list A p items \<longleftrightarrow> api_list A [node_request p] (slice_selector p) = Inr items"

lemma bt_ok_listed [simp]: "bt_ok (listed_slices p items)"
  by (simp add: listed_slices_def)

lemma in_listed_slices:
  assumes "(n, s) \<in> set (listed_slices p items)"
  shows "s \<in> set items \<and> scoped p s \<and> slice_name_of s = Some n"
proof -
  let ?xs = "List.map_filter (\<lambda>s. map_option (\<lambda>n. (n, s)) (slice_name_of s)) (filter (in_scope p) items)"
  have "bt_lookup (bt_collect ?xs) n = Some s"
    using assms bt_ok_distinct [OF bt_ok_collect [of ?xs]]
    by (simp add: listed_slices_def bt_lookup_def map_of_is_SomeI)
  then have "(n, s) \<in> set ?xs" by (simp add: bt_lookup_collect) (metis map_of_SomeD set_rev)
  then show ?thesis by (auto simp: List.map_filter_def in_scope_iff split: option.splits if_splits)
qed

lemma owner_reference_traces:
  "traces (owner_reference_of_node A p) (\<lambda>r t. t = [node_request p])"
  by (auto simp: owner_reference_of_node_def intro!: traces_call_bind traces_lift)

lemma reconcile_all_traces:
  "traces (io_fold (reconcile_pool E A p owner) (listed_slices p items) snapshot)
     (good_step p (listed_slices p items) (listed_slices p items))"
  by (rule traces_fold_rel)
    (simp_all add: reconcile_pool_traces remaining_refl listed_part_def [of "listed_slices p items" "listed_slices p items"],
      auto intro: remaining_trans)

lemma delete_all_traces:
  "traces (io_fold (delete_stale A) () existing) (\<lambda>r t. \<forall>q \<in> set t. proper_delete existing q)"
  using traces_fold_rel [where I = "\<lambda>_. True" and R = "\<lambda>_ _ _. True" and xs = existing
      and f = "delete_stale A" and P = "\<lambda>t. \<forall>q \<in> set t. proper_delete existing q" and s = "()"]
    delete_stale_traces [of _ existing A]
  by (auto elim: traces_mono)

text \<open>The three ways a publication ends: before the list, within the pools, or after them.\<close>

lemma publish_once_cases:
  assumes "publish_once E A p snapshot [] = (r, h)"
  obtains (unlisted) e where "r = Inl e" "set h \<subseteq> {node_request p, list_request p}"
  | (failed) items owner e t where "answered_list A p items" "r = Inl e"
      "io_fold (reconcile_pool E A p owner) (listed_slices p items) snapshot
         [node_request p, list_request p] = (Inl e, h)"
      "h = [node_request p, list_request p] @ t"
      "\<forall>q \<in> set t. proper_write p (listed_slices p items) q"
  | (reconciled) items owner existing t u where "answered_list A p items"
      "io_fold (reconcile_pool E A p owner) (listed_slices p items) snapshot
         [node_request p, list_request p] = (Inr existing, [node_request p, list_request p] @ t)"
      "\<forall>q \<in> set t. proper_write p (listed_slices p items) q"
      "listed_part (listed_slices p items) existing" "remaining (listed_slices p items) t existing"
      "h = [node_request p, list_request p] @ t @ u"
      "\<forall>q \<in> set u. proper_delete existing q"
proof -
  obtain ro h1 where o: "owner_reference_of_node A p [] = (ro, h1)" by fastforce
  then have h1: "h1 = [node_request p]" using tracesD [OF owner_reference_traces] by fastforce
  show thesis
  proof (cases ro)
    case (Inl e)
    with assms o have "r = Inl e" "h = h1" by (auto simp: publish_once_def io_bind_def)
    with h1 unlisted show thesis by auto
  next
    case (Inr owner)
    note o = o [unfolded Inr]
    show thesis
    proof (cases "api_list A [node_request p] (slice_selector p)")
      case (Inl e)
      with assms o h1 have "r = Inl (Failed e)" "h = [node_request p, list_request p]"
        by (auto simp: publish_once_def io_bind_def call_def)
      with unlisted show thesis by auto
    next
      case (Inr items)
      let ?h2 = "[node_request p, list_request p]"
      obtain rf h3 where f: "io_fold (reconcile_pool E A p owner) (listed_slices p items) snapshot ?h2
          = (rf, h3)" by fastforce
      obtain t where t: "h3 = ?h2 @ t"
        "good_step p (listed_slices p items) (listed_slices p items) rf t"
        using tracesD [OF reconcile_all_traces f] by blast
      have list: "answered_list A p items" using Inr by (simp add: answered_list_def)
      show thesis
      proof (cases rf)
        case (Inl e)
        with assms o h1 \<open>api_list _ _ _ = _\<close> f have "r = Inl e" "h = h3"
          by (auto simp: publish_once_def io_bind_def call_def)
        with failed list f t Inl show thesis by simp
      next
        case (Inr existing)
        with assms o h1 \<open>api_list _ _ _ = _\<close> f
        have d: "io_fold (delete_stale A) () existing h3 = (r, h)"
          by (auto simp: publish_once_def io_bind_def call_def)
        obtain u where "h = h3 @ u" "\<forall>q \<in> set u. proper_delete existing q"
          using tracesD [OF delete_all_traces d] by blast
        with reconciled [of items owner existing t u] list f t Inr show thesis by simp
      qed
    qed
  qed
qed

end
