(* ===== verification/Slice_Properties.thy ===== *)
theory Slice_Properties
  imports Slice_Reconcile Exact_Decimal
begin

text \<open>
  The properties of the ResourceSlice publisher, with a small cluster on which the witnesses
  run it.
\<close>

subsection \<open>A small cluster\<close>

definition sample_crates :: "decimal crates" where
  "sample_crates = \<lparr>env_big = exact_decimal, env_debug = (\<lambda>s. s), env_timestamp = Some\<rparr>"

definition sample_publisher :: publisher where
  "sample_publisher = \<lparr>pub_driver_name = ''gpu.example'', pub_node_name = ''n1'',
     pub_poll_interval = DEFAULT_POLL_INTERVAL, pub_retry_base_delay = DEFAULT_RETRY_BASE_DELAY,
     pub_retry_max_delay = DEFAULT_RETRY_MAX_DELAY\<rparr>"

definition sample_owner :: owner_reference where
  "sample_owner = \<lparr>or_api_version = ''v1'', or_kind = ''Node'', or_name = ''n1'', or_uid = ''u1'',
     or_controller = None, or_block_owner_deletion = None\<rparr>"

definition sample_api :: "resource_slice list \<Rightarrow> slice_api" where
  "sample_api items =
     \<lparr>api_get_node = (\<lambda>_ _. Inr (Some sample_owner)), api_list = (\<lambda>_ _. Inr items),
      api_create = (\<lambda>_ _. Inr ()), api_replace = (\<lambda>_ _ _. Inr ()), api_delete = (\<lambda>_ _ _ _. Inr ())\<rparr>"

definition stale_slice :: resource_slice where
  "stale_slice =
     \<lparr>rs_metadata = \<lparr>om_name = Some ''old'', om_uid = Some ''u9'', om_resource_version = Some ''7'',
        om_owner_references = None, om_other = ''''\<rparr>,
      rs_spec = \<lparr>ss_driver = ''gpu.example'', ss_node_name = Some ''n1'',
        ss_pool = \<lparr>sp_name = ''p'', sp_generation = 3, sp_slice_count = 1\<rparr>,
        ss_devices = None, ss_shared_counters = None, ss_skip_node_operations = None, ss_other = ''''\<rparr>\<rparr>"

definition sample_device :: "decimal inventory_device" where
  "sample_device = inventory_device_with_taint
     (inventory_device_new (pool_device_capacity (pool_device_new ''gpu-0'') ''memory''
        \<lparr>q_value = (8, 0), q_format = DecimalSI\<rparr>))
     (device_taint_new ''example.com/sick'' NoSchedule)"

definition sample_inventory :: "decimal pool_inventory" where
  "sample_inventory = pool_inventory_new [sample_device]"

definition sample_wire :: wire_device where
  "sample_wire = \<lparr>wd_name = ''gpu-0'', wd_attributes = None,
     wd_capacity = Some [(''memory'', \<lparr>dc_request_policy = None, dc_value = ''8''\<rparr>)],
     wd_node_allocatable = None, wd_consumes_counters = None, wd_binding_conditions = None,
     wd_binding_failure_conditions = None, wd_binds_to_node = None,
     wd_taints = Some [\<lparr>wt_key = ''example.com/sick'', wt_value = None, wt_effect = ''NoSchedule'',
        wt_time_added = None\<rparr>],
     wd_other = ''''\<rparr>"
lemma sample_chunks: "pool_chunks sample_crates ''p'' sample_inventory [] = Inr [(Some [sample_wire], None)]"
  by code_simp
definition sample_desired :: resource_slice where
  "sample_desired = desired_slice sample_publisher
     (sample_owner\<lparr>or_controller := Some True, or_block_owner_deletion := Some False\<rparr>) ''p'' 1 (0, Some [sample_wire], None)"
lemma sample_canonical: "map_opt (canonicalize_device_values sample_crates) [sample_wire] = Some [sample_wire]"
  by code_simp
lemma sample_spec: "canonicalize_slice_spec sample_crates (rs_spec sample_desired) = Some (rs_spec sample_desired)"
proof -
  have "canonicalize_devices [sample_wire] = [sample_wire]" by code_simp
  then show ?thesis
    by (simp add: canonicalize_slice_spec_def Let_def sample_desired_def desired_slice_def
        drop_empty_def non_empty_def under_opt_def sample_canonical del: map_opt.simps)
qed

lemma sample_generation: "pool_generation sample_crates [] ''p'' [sample_desired] = Inr 1"
  by (simp add: pool_generation_def expected_specs_def sample_spec i64_max_def Let_def)
    (simp add: sample_desired_def desired_slice_def slice_name_of_def i64_max_def Let_def)

lemma sample_name: "slice_name_of sample_desired = Some (slice_name ''gpu.example'' ''n1'' ''p'' 0)"
  by (simp add: sample_desired_def desired_slice_def slice_name_of_def sample_publisher_def)

lemma sample_run:
  "publish_once sample_crates (sample_api []) sample_publisher [(''p'', sample_inventory)] []
     = (Inr (), [GetNode ''n1'', ListSlices ''spec.driver=gpu.example,spec.nodeName=n1'',
         CreateSlice (at_generation 1 sample_desired)])"
  by (simp add: publish_once_def owner_reference_of_node_def io_bind_def call_def io_lift_def
      io_return_def sample_api_def listed_slices_def slice_selector_def bt_collect_def
      reconcile_pool_def sample_chunks desired_slices_def i64_max_def sample_desired_def [symmetric]
      ensure_def sample_generation apply_slice_eq [OF sample_name])
    (simp add: sample_publisher_def)

subsection \<open>Requests\<close>

text \<open>
  C2: the requests of a publication come in the order node, list, writes, deletions: no slice is
  deleted before every write of the publication was made.
\<close>
theorem publication_order:
  assumes "publish_once E A p snapshot [] = (r, h)"
  shows "\<exists>reads writes deletes. h = reads @ writes @ deletes
    \<and> set reads \<subseteq> {GetNode (pub_node_name p), ListSlices (slice_selector p)}
    \<and> list_all is_write writes \<and> list_all is_delete deletes"
proof -
  have del: "is_delete q" if "proper_delete m q" for m q using that by (cases q) auto
  from assms show ?thesis
  proof (cases rule: publish_once_cases)
    case (unlisted e)
    then show ?thesis by (intro exI [of _ h] exI [of _ "[]"]) auto
  next
    case (failed items owner e t)
    then show ?thesis
      by (intro exI [of _ "[node_request p, list_request p]"] exI [of _ t] exI [of _ "[]"])
        (auto simp: list_all_iff dest: proper_write_is_write)
  next
    case (reconciled items owner existing t u)
    then show ?thesis
      by (intro exI [of _ "[node_request p, list_request p]"] exI [of _ t] exI [of _ u])
        (auto simp: list_all_iff dest: proper_write_is_write del)
  qed
qed

lemma stale_run:
  "publish_once sample_crates (sample_api [stale_slice]) sample_publisher [] []
     = (Inr (), [GetNode ''n1'', ListSlices ''spec.driver=gpu.example,spec.nodeName=n1'',
         DeleteSlice ''old'' ''u9'' ''7''])"
  by (simp add: publish_once_def owner_reference_of_node_def io_bind_def call_def io_lift_def io_return_def
      sample_api_def sample_publisher_def listed_slices_def slice_selector_def in_scope_def
      stale_slice_def slice_name_of_def List.map_filter_def bt_collect_def delete_stale_def
      drop_empty_def non_empty_def)

theorem publication_order_witness:
  "\<exists>reads writes deletes. [GetNode ''n1'', ListSlices ''spec.driver=gpu.example,spec.nodeName=n1'',
       DeleteSlice ''old'' ''u9'' ''7''] = reads @ writes @ deletes
    \<and> set reads \<subseteq> {GetNode (pub_node_name sample_publisher), ListSlices (slice_selector sample_publisher)}
    \<and> list_all is_write writes \<and> list_all is_delete deletes"
  by (rule publication_order [OF stale_run])

text \<open>
  C1: a publication deletes a slice only when the server listed it for this driver and node,
  with the UID and resource version of the listed object as preconditions, and never a slice
  that the publication wrote.
\<close>
theorem deletes_only_listed:
  assumes "publish_once E A p snapshot [] = (r, h)" and "DeleteSlice n uid version \<in> set h"
  shows "\<exists>items s. answered_list A p items \<and> s \<in> set items \<and> scoped p s
    \<and> slice_name_of s = Some n \<and> om_uid (rs_metadata s) = Some uid \<and> uid \<noteq> []
    \<and> om_resource_version (rs_metadata s) = Some version \<and> version \<noteq> []
    \<and> Some n \<notin> write_target ` set h"
  using assms(1)
proof (cases rule: publish_once_cases)
  case (unlisted e)
  with assms(2) show ?thesis by auto
next
  case (failed items owner e t)
  with assms(2) show ?thesis by auto
next
  case (reconciled items owner existing t u)
  have "\<not> proper_write p (listed_slices p items) (DeleteSlice n uid version)" by simp
  with reconciled assms(2) have "proper_delete existing (DeleteSlice n uid version)" by auto
  then obtain s where s: "(n, s) \<in> set existing" "om_uid (rs_metadata s) = Some uid" "uid \<noteq> []"
      "om_resource_version (rs_metadata s) = Some version" "version \<noteq> []" by auto
  then have listed: "(n, s) \<in> set (listed_slices p items)"
    using reconciled by (auto simp: listed_part_def)
  have "write_target q \<noteq> Some n" if "q \<in> set t" for q
    using reconciled(5) s(1) that by (force simp: remaining_def)
  moreover have "write_target q \<noteq> Some n" if "q \<in> set u" for q
    using reconciled(7) that by (cases q) auto
  ultimately have "Some n \<notin> write_target ` set h" using reconciled(6) by (auto simp: image_iff) metis+
  with reconciled(1) s in_listed_slices [OF listed] show ?thesis by blast
qed

theorem deletes_only_listed_witness:
  "\<exists>items s. answered_list (sample_api [stale_slice]) sample_publisher items \<and> s \<in> set items
    \<and> scoped sample_publisher s
    \<and> slice_name_of s = Some ''old'' \<and> om_uid (rs_metadata s) = Some ''u9'' \<and> ''u9'' \<noteq> []
    \<and> om_resource_version (rs_metadata s) = Some ''7'' \<and> ''7'' \<noteq> []
    \<and> Some ''old'' \<notin> write_target ` set [GetNode ''n1'',
          ListSlices ''spec.driver=gpu.example,spec.nodeName=n1'', DeleteSlice ''old'' ''u9'' ''7'']"
  by (rule deletes_only_listed [OF stale_run]) simp

lemma io_fold_Inr:
  "io_fold f s xs h = (Inr s', h') \<Longrightarrow> x \<in> set xs \<Longrightarrow> \<exists>a g b g'. f a x g = (Inr b, g')"
  by (induction xs arbitrary: s h) (auto simp: io_bind_run)

lemma reconcile_pool_Inr:
  "reconcile_pool E A p owner existing (pool_name, pinv) h = (Inr after, h') \<Longrightarrow>
     valid_pool E pool_name pinv \<and> displayable_pool E pinv"
  by (auto simp: reconcile_pool_def Let_def io_bind_run pool_chunks_iff
      dest!: sym [where t = "pool_chunks _ _ _ _"])

text \<open>
  When the snapshot holds a pool that breaks a limit of the API, or a quantity that cannot
  be printed, the publication fails and deletes nothing: the slices that are there stay.
\<close>
theorem bad_pool_deletes_nothing:
  assumes "publish_once E A p snapshot [] = (r, h)" and "(pool_name, pinv) \<in> set snapshot"
    and "\<not> (valid_pool E pool_name pinv \<and> displayable_pool E pinv)"
  shows "(\<exists>e. r = Inl e) \<and> True \<notin> is_delete ` set h"
proof -
  have no_del: "\<not> is_delete q" if "proper_write p m q" for m q using that by (cases q) auto
  from assms(1) show ?thesis
  proof (cases rule: publish_once_cases)
    case (unlisted e)
    then show ?thesis by auto
  next
    case (failed items owner e t)
    then show ?thesis using no_del by auto
  next
    case (reconciled items owner existing t u)
    from io_fold_Inr [OF reconciled(2) assms(2)] obtain a g b g' where
      "reconcile_pool E A p owner a (pool_name, pinv) g = (Inr b, g')" by blast
    with assms(3) reconcile_pool_Inr show ?thesis by blast
  qed
qed

subsection \<open>Limits\<close>

text \<open>
  C4: exactly the valid inventories are converted: the pool name and the counter names follow
  their grammars, there are at most 16 taints, four binding conditions of a kind and two counter
  consumptions on a device, 1 to 32 counters in a map, no repeated device, counter set, taint
  or condition, and every counter a device consumes is declared by the pool.
\<close>
theorem accepted_inventories:
  assumes "bigdecimal (env_big E)"
    and "\<forall>c \<in> set (pi_shared_counters pinv). \<forall>(n, q) \<in> set (cs_counters c). quantity_ok (env_big E) q"
    and "\<forall>d \<in> set (pi_devices pinv). (\<forall>(n, q) \<in> set (pd_capacity (id_device d)). quantity_ok (env_big E) q)
      \<and> (\<forall>c \<in> set (id_consumes_counters d). \<forall>(n, q) \<in> set (cc_counters c). quantity_ok (env_big E) q)"
  shows "(\<exists>chunks. pool_chunks E pool_name pinv existing = Inr chunks) \<longleftrightarrow> valid_pool E pool_name pinv"
proof -
  have "displayable E q" if "quantity_ok (env_big E) q" for q
    using bigdecimal.display_total [OF assms(1) that] by (simp add: displayable_def)
  then have "displayable_pool E pinv"
    using assms(2,3) by (fastforce simp: displayable_pool_def displayable_values_def displayable_device_def)
  then show ?thesis by (simp add: pool_chunks_iff)
qed

theorem accepted_inventories_witness:
  "(\<exists>chunks. pool_chunks sample_crates ''p'' sample_inventory [] = Inr chunks)
     \<longleftrightarrow> valid_pool sample_crates ''p'' sample_inventory"
proof (rule accepted_inventories)
  have "quantity_from_str exact_decimal ''8'' = Inr \<lparr>q_value = (8, 0), q_format = DecimalSI\<rparr>"
    by code_simp
  then have "quantity_ok exact_decimal \<lparr>q_value = (8, 0), q_format = DecimalSI\<rparr>"
    by (rule bigdecimal.parsed_ok [OF exact.bigdecimal_axioms])
  then show "\<forall>d \<in> set (pi_devices sample_inventory).
      (\<forall>(n, q) \<in> set (pd_capacity (id_device d)). quantity_ok (env_big sample_crates) q)
      \<and> (\<forall>c \<in> set (id_consumes_counters d). \<forall>(n, q) \<in> set (cc_counters c).
           quantity_ok (env_big sample_crates) q)"
    by (simp add: sample_inventory_def pool_inventory_new_def sample_device_def sample_crates_def
        inventory_device_with_taint_def inventory_device_new_def pool_device_capacity_def
        pool_device_new_def bt_insert.simps)
qed (simp_all add: sample_crates_def exact.bigdecimal_axioms sample_inventory_def pool_inventory_new_def)

text \<open>
  C9: in the chunks of a pool no slice carries both devices and counter sets, no chunk is empty,
  a slice has at most 8 counter sets and at most 128 devices, at most 64 as soon as a device of
  the pool has taints or consumes counters; together the chunks hold every device and every
  counter set of the pool once, the devices in the strict order of their names.
\<close>
theorem chunk_limits:
  assumes "pool_chunks E pool_name pinv existing = Inr chunks"
  shows "list_all (\<lambda>(devices, counters). (devices = None) \<noteq> (counters = None)
      \<and> devices \<noteq> Some [] \<and> counters \<noteq> Some []
      \<and> length (opt_list counters) \<le> 8
      \<and> length (opt_list devices)
          \<le> (if list_ex (\<lambda>d. id_taints d \<noteq> [] \<or> id_consumes_counters d \<noteq> []) (pi_devices pinv)
             then 64 else 128)) chunks
    \<and> sorted_wrt (<) (map wd_name (concat (map (opt_list \<circ> fst) chunks)))
    \<and> set (map wd_name (concat (map (opt_list \<circ> fst) chunks))) = set (device_names pinv)
    \<and> mset (map ws_name (concat (map (opt_list \<circ> snd) chunks)))
        = mset (map cs_name (pi_shared_counters pinv))"
proof -
  let ?ds = "pool_devices E pinv existing" and ?cs = "pool_counter_sets E pinv"
  obtain n :: nat where size: "n = (if advanced pinv then 64 else 128)" and n: "0 < n" by simp
  have chunks: "chunks = map (\<lambda>c. (Some c, None)) (chunks_of n ?ds) @ map (\<lambda>c. (None, Some c)) (chunks_of 8 ?cs)"
    and valid: "valid_pool E pool_name pinv"
    using assms by (auto simp: pool_chunks_iff chunks_for_def chunk_size_pool size)
  have one: "list_all (\<lambda>c. c \<noteq> [] \<and> length c \<le> n) (chunks_of n ?ds)"
      "list_all (\<lambda>c. c \<noteq> [] \<and> length c \<le> 8) (chunks_of 8 ?cs)"
    unfolding list_all_iff by (intro ballI chunks_of_bounds n; simp)+
  have devs: "concat (map (opt_list \<circ> fst) chunks) = ?ds"
    using concat_chunks_of [OF n] by (simp add: chunks comp_def opt_list_def)
  have cs: "concat (map (opt_list \<circ> snd) chunks) = ?cs"
    using concat_chunks_of [of 8] by (simp add: chunks comp_def opt_list_def)
  have "sorted_wrt (<) (sort (device_names pinv))"
    using valid by (simp add: strict_sorted_iff valid_pool_def)
  moreover have "mset (map ws_name ?cs) = mset (map cs_name (pi_shared_counters pinv))"
    by (simp add: pool_counter_sets_def wire_counter_set_def multiset.map_comp comp_def)
  moreover have "list_all (\<lambda>(devices, counters). (devices = None) \<noteq> (counters = None)
      \<and> devices \<noteq> Some [] \<and> counters \<noteq> Some []
      \<and> length (opt_list counters) \<le> 8 \<and> length (opt_list devices) \<le> n) chunks"
    using one by (auto simp: chunks list_all_iff opt_list_def)
  ultimately show ?thesis
    unfolding devs cs pool_devices_names size advanced_def by simp
qed

theorem chunk_limits_witness:
  "length [sample_wire] \<le> 64 \<and> set [wd_name sample_wire] = set (device_names sample_inventory)"
proof -
  have "list_ex (\<lambda>d. id_taints d \<noteq> [] \<or> id_consumes_counters d \<noteq> []) (pi_devices sample_inventory)"
    by (simp add: sample_inventory_def pool_inventory_new_def sample_device_def
        inventory_device_with_taint_def)
  then show ?thesis using chunk_limits [OF sample_chunks] by (simp add: opt_list_def)
qed

end
