(* ===== verification/Slice_Names.thy ===== *)
theory Slice_Names
  imports Slice_Properties
begin

text \<open>
  The names of slices are DNS labels, distinct within a pool, and equal across pools only when
  the 64-bit hashes of the identities collide; the retry delays of the publishing loop; the
  generation of a pool.
\<close>

subsection \<open>Names\<close>

definition slice_identity :: "string \<Rightarrow> string \<Rightarrow> string \<Rightarrow> string" where
  "slice_identity d n p = d @ ''|'' @ n @ ''|'' @ p"

abbreviation dashed :: "char \<Rightarrow> char" where
  "dashed c \<equiv> (if c = CHR ''_'' then CHR ''-'' else c)"

lemma slice_name_parts:
  assumes "i < 2 ^ 64"
  shows "\<exists>t. slice_name d n p i
      = ''slice-'' @ show_nat i @ ''-'' @ map dashed t @ hash_suffix (slice_identity d n p)
    \<and> set t \<subseteq> set (replace_invalid (slice_identity d n p))
    \<and> length (slice_name d n p i) \<le> 63"
proof -
  have len: "length (show_nat i) \<le> 20"
    using assms by (intro length_show_nat) simp_all
  let ?budget = "63 - length (''slice-'' @ show_nat i @ ''-'')"
  let ?t = "take (?budget - 17) (replace_invalid (slice_identity d n p))"
  have big: "17 \<le> ?budget" using len by simp
  have hash: "map dashed (hash_suffix s) = hash_suffix s" for s
  proof (rule map_idI)
    fix c assume "c \<in> set (hash_suffix s)"
    then have "c \<noteq> CHR ''_''" by (auto simp: hash_suffix_def ascii_defs dest: hex_digits_class)
    then show "dashed c = c" by simp
  qed
  have "slice_name d n p i
      = ''slice-'' @ show_nat i @ ''-'' @ map dashed ?t @ hash_suffix (slice_identity d n p)"
    using big hash [of "slice_identity d n p"]
    by (simp add: slice_name_def Let_def slice_identity_def sanitize_socket_name_big)
  moreover have "set ?t \<subseteq> set (replace_invalid (slice_identity d n p))" by (rule set_take_subset)
  ultimately show ?thesis using big len by (intro exI [of _ ?t]) simp
qed

lemma replace_invalid_chars: "c \<in> set (replace_invalid s) \<Longrightarrow> (c \<in> set s \<and> safe_char c) \<or> c = CHR ''_''"
  by (auto simp: replace_invalid_def replace_byte_def invalid_char_iff split: if_splits)

lemma hash_suffix_label: "c \<in> set (hash_suffix s) \<Longrightarrow> label_char c \<or> c = CHR ''-''"
  by (auto simp: hash_suffix_def label_char_def dest: hex_digits_class)

lemma hash_suffix_last: "\<exists>b c. hash_suffix s = b @ [c] \<and> label_char c"
proof -
  have "hash_suffix s \<noteq> []" by (simp add: hash_suffix_def)
  then obtain b c where s: "hash_suffix s = b @ [c]" by (meson rev_exhaust)
  have "hex_digits 16 n = hex_digits 15 (n div 16) @ [hex_char (n mod 16)]" for n
    using hex_digits.simps(2) [of 15 n] by (simp del: hex_digits.simps)
  with s have "c = hex_char (unat (fnv1a64 s) mod 16)" by (simp add: hash_suffix_def)
  moreover have "hex_char d \<in> set (hex_digits 1 d)" if "d < 16" for d
    using that by simp
  ultimately have "label_char c"
    using hex_digits_class [of c 1 "unat (fnv1a64 s) mod 16"] by (auto simp: label_char_def)
  with s show ?thesis by blast
qed

lemma slice_name_is_label:
  assumes "validate_driver_name d = Inr ()" "validate_node_name n = Inr ()"
    "validate_pool_name p = Inr ()" "i < 2 ^ 64"
  shows "is_valid_dns_label (slice_name d n p i)"
proof -
  obtain t where name: "slice_name d n p i
      = ''slice-'' @ show_nat i @ ''-'' @ map dashed t @ hash_suffix (slice_identity d n p)"
    and t: "set t \<subseteq> set (replace_invalid (slice_identity d n p))"
    and len: "length (slice_name d n p i) \<le> 63"
    using slice_name_parts [OF assms(4)] by blast
  have dn: "rfc_subdomain d" "rfc_subdomain n"
    using assms by (simp_all add: validate_driver_name_ok validate_node_name_ok)
  have ident: "label_char c \<or> c = CHR ''-'' \<or> c = CHR ''.'' \<or> c = CHR ''/'' \<or> c = CHR ''|''"
    if "c \<in> set (slice_identity d n p)" for c
    using that rfc_subdomain_chars [OF dn(1)] rfc_subdomain_chars [OF dn(2)]
      pool_name_chars [OF assms(3)] by (auto simp: slice_identity_def)
  have unsafe: "\<not> safe_char (CHR ''.'')" "\<not> safe_char (CHR ''/'')" "\<not> safe_char (CHR ''|'')"
    by (simp_all add: safe_char_def ascii_defs)
  have step: "label_char (dashed c) \<or> dashed c = CHR ''-''" if "c \<in> set t" for c
  proof -
    have "c \<in> set (slice_identity d n p) \<and> safe_char c \<or> c = CHR ''_''"
      using that t replace_invalid_chars by blast
    with ident [of c] unsafe show ?thesis by auto
  qed
  have mid: "\<forall>c \<in> set (map dashed t). label_char c \<or> c = CHR ''-''"
  proof
    fix c assume "c \<in> set (map dashed t)"
    then obtain b where "b \<in> set t" "c = dashed b" by auto
    with step [of b] show "label_char c \<or> c = CHR ''-''" by simp
  qed
  have digits: "\<forall>c \<in> set (show_nat i). label_char c"
    using show_nat_digits [of i] by (auto simp: list_all_iff label_char_def)
  have word: "\<forall>c \<in> set ''slice-''. label_char c \<or> c = CHR ''-''"
    by (simp add: label_char_def ascii_defs)
  have dash: "\<forall>c \<in> set ''-''. label_char c \<or> c = CHR ''-''" by simp
  obtain b c where last: "hash_suffix (slice_identity d n p) = b @ [c]" "label_char c"
    using hash_suffix_last by blast
  have "rfc_label (slice_name d n p i)"
    unfolding rfc_label_iff
  proof (intro conjI)
    show "slice_name d n p i \<noteq> []" by (simp add: name)
    show "list_all (\<lambda>c. label_char c \<or> c = CHR ''-'') (slice_name d n p i)"
      unfolding name list_all_iff set_append ball_Un
      using word digits mid hash_suffix_label dash by blast
    show "\<not> starts_with ''-'' (slice_name d n p i)" by (simp add: name)
    show "\<not> ends_with ''-'' (slice_name d n p i)"
      using last by (auto simp: name ends_with_def)
  qed
  with len show ?thesis by (simp add: is_valid_dns_label_iff)
qed

lemma slice_name_eq:
  assumes "slice_name d n p i = slice_name d' n' p' j" "i < 2 ^ 64" "j < 2 ^ 64"
  shows "i = j \<and> fnv1a64 (slice_identity d n p) = fnv1a64 (slice_identity d' n' p')"
proof -
  obtain t where a: "slice_name d n p i
      = ''slice-'' @ show_nat i @ ''-'' @ map dashed t @ hash_suffix (slice_identity d n p)"
    using slice_name_parts [OF assms(2)] by blast
  obtain u where b: "slice_name d' n' p' j
      = ''slice-'' @ show_nat j @ ''-'' @ map dashed u @ hash_suffix (slice_identity d' n' p')"
    using slice_name_parts [OF assms(3)] by blast
  from assms(1) have eq: "show_nat i @ CHR ''-'' # map dashed t @ hash_suffix (slice_identity d n p)
      = show_nat j @ CHR ''-'' # map dashed u @ hash_suffix (slice_identity d' n' p')"
    unfolding a b by simp
  have "CHR ''-'' \<notin> set (show_nat k)" for k using show_nat_digit [of "CHR ''-''" k] by auto
  then have "show_nat i = show_nat j"
      "map dashed t @ hash_suffix (slice_identity d n p)
        = map dashed u @ hash_suffix (slice_identity d' n' p')"
    using eq by (simp_all add: append_eq_Cons_split)
  then show ?thesis by (simp add: show_nat_inj append_eq_append_conv hash_suffix_inj)
qed

text \<open>The components of a valid identity do not contain the separator.\<close>

lemma slice_identity_inj:
  assumes "validate_driver_name d = Inr ()" "validate_node_name n = Inr ()"
    and "validate_driver_name d' = Inr ()" "validate_node_name n' = Inr ()"
    and "slice_identity d n p = slice_identity d' n' p'"
  shows "d = d' \<and> n = n' \<and> p = p'"
proof -
  have bar: "CHR ''|'' \<notin> set s" if "rfc_subdomain s" for s
    using rfc_subdomain_chars [OF that] by fastforce
  have "CHR ''|'' \<notin> set d" "CHR ''|'' \<notin> set d'" "CHR ''|'' \<notin> set n" "CHR ''|'' \<notin> set n'"
    using assms bar by (simp_all add: validate_driver_name_ok validate_node_name_ok)
  with assms(5) show ?thesis
    by (auto simp: slice_identity_def append_eq_Cons_split)
qed

subsection \<open>Writes\<close>

text \<open>
  The names of the slices of a pool: the prefix, the index, a middle part, and the 64-bit hash of
  driver, node and pool in 16 hexadecimal digits, in at most 63 bytes.
\<close>

definition name_of_scheme :: "publisher \<Rightarrow> string \<Rightarrow> string \<Rightarrow> bool" where
  "name_of_scheme p pool_name name \<longleftrightarrow>
     length name \<le> 63
     \<and> (\<exists>i middle. name = ''slice-'' @ show_nat i @ ''-'' @ middle
          @ hash_suffix (pub_driver_name p @ ''|'' @ pub_node_name p @ ''|'' @ pool_name))"

lemma slice_name_of_scheme:
  assumes "i < 2 ^ 64"
  shows "name_of_scheme p pool_name (slice_name (pub_driver_name p) (pub_node_name p) pool_name i)"
proof -
  obtain t where "slice_name (pub_driver_name p) (pub_node_name p) pool_name i
      = ''slice-'' @ show_nat i @ ''-'' @ map dashed t
        @ hash_suffix (slice_identity (pub_driver_name p) (pub_node_name p) pool_name)"
    and "length (slice_name (pub_driver_name p) (pub_node_name p) pool_name i) \<le> 63"
    using slice_name_parts [OF assms] by blast
  then show ?thesis unfolding name_of_scheme_def slice_identity_def by blast
qed

text \<open>What may be written when the server listed \<open>items\<close>.\<close>

fun write_allowed :: "publisher \<Rightarrow> resource_slice list \<Rightarrow> slice_request \<Rightarrow> bool" where
  "write_allowed p items (CreateSlice s) \<longleftrightarrow>
     scoped p s \<and> om_uid (rs_metadata s) = None \<and> om_resource_version (rs_metadata s) = None
     \<and> (\<exists>n. slice_name_of s = Some n \<and> name_of_scheme p (slice_pool_name s) n)"
| "write_allowed p items (ReplaceSlice n s) \<longleftrightarrow>
     scoped p s \<and> name_of_scheme p (slice_pool_name s) n
     \<and> (\<exists>old \<in> set items. scoped p old \<and> slice_name_of old = Some n
          \<and> slice_pool_name old = slice_pool_name s
          \<and> (\<exists>refs. rs_metadata s = (rs_metadata old)\<lparr>om_owner_references := refs\<rparr>))"
| "write_allowed p items _ \<longleftrightarrow> False"

lemma proper_write_allowed:
  assumes "proper_write p (listed_slices p items) q"
  shows "write_allowed p items q"
proof (cases q)
  case (ReplaceSlice n s)
  with assms obtain old i where old: "bt_lookup (listed_slices p items) n = Some old"
      "slice_pool_name old = slice_pool_name s"
      "\<exists>refs. rs_metadata s = (rs_metadata old)\<lparr>om_owner_references := refs\<rparr>" "scoped p s"
    and n: "i < 2 ^ 64" "n = slice_name (pub_driver_name p) (pub_node_name p) (slice_pool_name s) i"
    by (auto simp: proper_replace_def)
  then have "old \<in> set items \<and> scoped p old \<and> slice_name_of old = Some n"
    using in_listed_slices [OF bt_lookup_in [OF old(1)]] by simp
  with old ReplaceSlice slice_name_of_scheme [OF n(1)] n(2) show ?thesis by auto
qed (use assms slice_name_of_scheme in \<open>auto simp: proper_create_def\<close>)

text \<open>
  C3: every write is in scope: a created slice carries this driver and node and no identity of
  its own; a replaced slice has the name and the pool of a slice that the server listed for this
  driver and node, and keeps the metadata of that slice except for the owner references. Both have
  a name of the scheme for this driver, node and pool.
\<close>
theorem writes_in_scope:
  assumes "publish_once E A p snapshot [] = (r, h)" and "q \<in> set h" and "is_write q"
  shows "\<exists>items. answered_list A p items \<and> write_allowed p items q"
  using assms(1)
proof (cases rule: publish_once_cases)
  case (unlisted e)
  with assms(2,3) show ?thesis by auto
next
  case (failed items owner e t)
  with assms(2,3) show ?thesis using proper_write_allowed by auto
next
  case (reconciled items owner existing t u)
  have "\<not> is_write q" if "proper_delete existing q" using that by (cases q) auto
  with reconciled assms(2,3) show ?thesis using proper_write_allowed by auto
qed

theorem writes_in_scope_witness:
  "\<exists>items. answered_list (sample_api []) sample_publisher items
     \<and> write_allowed sample_publisher items (CreateSlice (at_generation 1 sample_desired))"
  by (rule writes_in_scope [OF sample_run]) simp_all

end
