(* ===== verification/Device_Plugin.thy ===== *)
theory Device_Plugin
  imports Core_Types Socket_Name Rust_Io
begin

text \<open>
  The classic device plugin: \<open>lib/src/lib.rs\<close> (conversion to the wire messages, the gRPC
  handlers, the registration loop), \<open>lib/src/static_plugin.rs\<close> and the request builder of
  \<open>proto/src/lib.rs\<close>. A backend is a record of the trait's methods with the defaults of
  \<open>core/src/lib.rs\<close>; the file system of the static backend is a predicate on paths. The watch
  stream is a step relation over the polls and the end of the receiver; the tasks of one
  \<open>allocate\<close> call are given in the order in which they finish.
\<close>

subsection \<open>The backend\<close>

record backend =
  bk_discover :: "device list"
  bk_allocate :: "string list \<Rightarrow> allocation_error + container_allocation"
  bk_pre_start_required :: bool
  bk_pre_start_container :: "string list \<Rightarrow> allocation_error + unit"
  bk_preferred_available :: bool
  bk_preferred_allocation :: "string list \<Rightarrow> string list \<Rightarrow> nat \<Rightarrow> allocation_error + string list"

text \<open>The methods \<open>K8sDevicePlugin\<close> provides when a backend overrides none of them.\<close>

definition default_hooks ::
    "device list \<Rightarrow> (string list \<Rightarrow> allocation_error + container_allocation) \<Rightarrow> backend" where
  "default_hooks discover allocate =
     \<lparr>bk_discover = discover, bk_allocate = allocate,
      bk_pre_start_required = False,
      bk_pre_start_container = (\<lambda>_. Inr ()),
      bk_preferred_available = False,
      bk_preferred_allocation = (\<lambda>_ _ _. Inl PreferredAllocationUnavailable)\<rparr>"

text \<open>\<open>StaticDevicePlugin\<close>; \<open>exists\<close> is \<open>tokio::fs::try_exists(..).unwrap_or(false)\<close>.\<close>

definition static_device ::
    "(string \<Rightarrow> bool) \<Rightarrow> device list \<Rightarrow> string \<Rightarrow> allocation_error + device_path list" where
  "static_device exists devices i =
     res_bind (ok_or (DeviceNotFound i) (List.find (\<lambda>device. dev_id device = i) devices)) (\<lambda>device.
       res_bind (for_each (\<lambda>path.
           ensure (exists (dp_host_path path))
             (DeviceUnavailable (i @ '': host path '' @ dp_host_path path @ '' does not exist'')))
           (dev_paths device))
         (\<lambda>_. Inr (dev_paths device)))"

definition static_allocate ::
    "(string \<Rightarrow> bool) \<Rightarrow> device list \<Rightarrow> string list \<Rightarrow> allocation_error + container_allocation" where
  "static_allocate exists devices device_ids =
     res_map (\<lambda>paths. container_allocation_default\<lparr>ca_device_paths := concat paths\<rparr>)
       (traverse (static_device exists devices) device_ids)"

definition static_plugin :: "(string \<Rightarrow> bool) \<Rightarrow> device list \<Rightarrow> backend" where
  "static_plugin exists devices = default_hooks devices (static_allocate exists devices)"

subsection \<open>Wire messages\<close>

record proto_device =
  pdv_id :: string
  pdv_health :: string
  pdv_topology :: "string option"

record device_spec =
  dsp_host_path :: string
  dsp_container_path :: string
  dsp_permissions :: string

record proto_mount =
  pm_container_path :: string
  pm_host_path :: string
  pm_read_only :: bool

record container_response =
  cr_devices :: "device_spec list"
  cr_mounts :: "proto_mount list"
  cr_envs :: "string \<rightharpoonup> string"
  cr_annotations :: "string \<rightharpoonup> string"
  cr_cdi_devices :: "string list"

datatype status_code =
  NotFoundCode | Unimplemented | FailedPrecondition | Unavailable | Internal | InvalidArgument

datatype status = Status (status_code_of: status_code) (status_text: string)

definition device_to_proto :: "device \<Rightarrow> proto_device" where
  "device_to_proto d = \<lparr>pdv_id = dev_id d, pdv_health = health_as_str (dev_health d), pdv_topology = None\<rparr>"

definition valid_devices :: "device list \<Rightarrow> device list" where
  "valid_devices devices =
     filter (\<lambda>device. case device_validate device of Inr _ \<Rightarrow> True | Inl _ \<Rightarrow> False) devices"

definition devices_equal_ignoring_order :: "device list \<Rightarrow> device list \<Rightarrow> bool" where
  "devices_equal_ignoring_order a b \<longleftrightarrow>
     (if length a \<noteq> length b then False
      else sort_key dev_id a = sort_key dev_id b)"

definition device_path_to_spec :: "device_path \<Rightarrow> device_spec" where
  "device_path_to_spec p =
     \<lparr>dsp_host_path = dp_host_path p, dsp_container_path = dp_container_path p,
      dsp_permissions = permissions_as_str (dp_permissions p)\<rparr>"

definition host_mount_to_proto :: "host_mount \<Rightarrow> proto_mount" where
  "host_mount_to_proto m =
     \<lparr>pm_container_path = hm_container_path m, pm_host_path = hm_host_path m,
      pm_read_only = hm_read_only m\<rparr>"

definition allocation_error_to_status :: "allocation_error \<Rightarrow> status" where
  "allocation_error_to_status err =
     (let message = show_allocation_error err
      in case err of
           DeviceNotFound _ \<Rightarrow> Status NotFoundCode message
         | PreferredAllocationUnavailable \<Rightarrow> Status Unimplemented message
         | HookFailed _ \<Rightarrow> Status FailedPrecondition message
         | DeviceUnavailable _ \<Rightarrow> Status Unavailable message)"

definition container_allocation_to_response :: "container_allocation \<Rightarrow> container_response" where
  "container_allocation_to_response a =
     \<lparr>cr_devices = map device_path_to_spec (ca_device_paths a),
      cr_mounts = map host_mount_to_proto (ca_mounts a),
      cr_envs = map_of (ca_envs a),
      cr_annotations = map_of (ca_annotations a),
      cr_cdi_devices = ca_cdi_devices a\<rparr>"

subsection \<open>The unary handlers\<close>

record plugin_options =
  po_pre_start_required :: bool
  po_preferred_available :: bool

definition get_device_plugin_options :: "backend \<Rightarrow> plugin_options" where
  "get_device_plugin_options b =
     \<lparr>po_pre_start_required = bk_pre_start_required b,
      po_preferred_available = bk_preferred_available b\<rparr>"

record preferred_request =
  pq_available :: "string list"
  pq_must_include :: "string list"
  pq_allocation_size :: int \<comment> \<open>\<open>i32\<close>\<close>

definition get_preferred_allocation ::
    "backend \<Rightarrow> preferred_request list \<Rightarrow> status + string list list" where
  "get_preferred_allocation b requests =
     traverse (\<lambda>request.
       res_bind (ensure (0 \<le> pq_allocation_size request)
           (Status InvalidArgument ''allocation_size must be non-negative'')) (\<lambda>_.
         res_map_err allocation_error_to_status
           (bk_preferred_allocation b (pq_available request) (pq_must_include request)
             (nat (pq_allocation_size request))))) requests"

definition pre_start_container :: "backend \<Rightarrow> string list \<Rightarrow> status + unit" where
  "pre_start_container b device_ids =
     res_map_err allocation_error_to_status (bk_pre_start_container b device_ids)"

text \<open>
  \<open>allocate\<close>: \<open>JoinSet::join_next\<close> yields the tasks in the order \<open>finished\<close>; a task that panicked
  or was cancelled is a \<open>JoinFailed\<close>.
\<close>

datatype task_outcome = Joined "allocation_error + container_allocation" | JoinFailed string

definition allocate_task :: "backend \<Rightarrow> string list list \<Rightarrow> nat \<Rightarrow> task_outcome" where
  "allocate_task b requests index = Joined (bk_allocate b (requests ! index))"

definition collect_allocation ::
    "(string \<Rightarrow> string) \<Rightarrow> nat \<times> task_outcome \<Rightarrow> (nat, container_response) btree
      \<Rightarrow> status + (nat, container_response) btree" where
  "collect_allocation dbg = (\<lambda>(index, outcome) responses.
     case outcome of
       JoinFailed error \<Rightarrow> Inl (Status Internal (''allocate task failed: '' @ error))
     | Joined allocation \<Rightarrow>
         res_bind (res_map_err allocation_error_to_status allocation) (\<lambda>allocation.
         res_bind (res_map_err (\<lambda>error. Status Internal (show_validation_error dbg error))
             (container_allocation_validate allocation)) (\<lambda>_.
         Inr (bt_insert index (container_allocation_to_response allocation) responses))))"

fun collect_allocations ::
    "(string \<Rightarrow> string) \<Rightarrow> (nat \<times> task_outcome) list \<Rightarrow> (nat, container_response) btree
      \<Rightarrow> status + (nat, container_response) btree" where
  "collect_allocations dbg [] responses = Inr responses"
| "collect_allocations dbg (finished # rest) responses =
     res_bind (collect_allocation dbg finished responses) (collect_allocations dbg rest)"

definition allocate ::
    "(string \<Rightarrow> string) \<Rightarrow> (nat \<times> task_outcome) list \<Rightarrow> status + container_response list" where
  "allocate dbg finished = res_map (map snd) (collect_allocations dbg finished [])"

subsection \<open>The watch stream\<close>

text \<open>
  The task behind \<open>list_and_watch\<close>: the last devices, the responses handed to the channel, and
  whether the task has ended and told the registration loop. A poll carries what the backend
  discovered and whether the receiver was still there when an update was sent.
\<close>

record watch_state =
  ws_last_devices :: "device list"
  ws_sent :: "proto_device list list"
  ws_ended :: bool
  ws_notified :: nat

datatype watch_event = Poll (polled: "device list") (receiver_open: bool) | ReceiverClosed

definition watch_start :: "device list \<Rightarrow> watch_state" where
  "watch_start discovered =
     (let last_devices = valid_devices discovered
      in \<lparr>ws_last_devices = last_devices, ws_sent = [map device_to_proto last_devices],
          ws_ended = False, ws_notified = 0\<rparr>)"

definition end_watch :: "watch_state \<Rightarrow> watch_state" where
  "end_watch s = s\<lparr>ws_ended := True, ws_notified := ws_notified s + 1\<rparr>"

fun watch_step :: "watch_event \<Rightarrow> watch_state \<Rightarrow> watch_state" where
  "watch_step (Poll discovered is_open) s =
     (if ws_ended s then s
      else let devices = valid_devices discovered
           in if devices_equal_ignoring_order devices (ws_last_devices s) then s
              else let s = s\<lparr>ws_last_devices := devices\<rparr>
                   in if is_open then s\<lparr>ws_sent := ws_sent s @ [map device_to_proto devices]\<rparr>
                      else end_watch s)"
| "watch_step ReceiverClosed s = (if ws_ended s then s else end_watch s)"

inductive watch_reachable :: "device list \<Rightarrow> watch_state \<Rightarrow> bool" for discovered where
  start: "watch_reachable discovered (watch_start discovered)"
| step: "watch_reachable discovered s \<Longrightarrow> watch_reachable discovered (watch_step e s)"

subsection \<open>Endpoints and requests\<close>

definition DEVICE_PLUGIN_PATH :: string where
  "DEVICE_PLUGIN_PATH = ''/var/lib/kubelet/device-plugins/''"

definition KUBELET_SOCKET :: string where "KUBELET_SOCKET = ''kubelet.sock''"

definition API_VERSION :: string where "API_VERSION = ''v1beta1''"

definition plugin_socket_name :: "string \<Rightarrow> string" where
  "plugin_socket_name name =
     (let budget = MAX_SOCKET_PATH_LEN - length DEVICE_PLUGIN_PATH
      in sanitize_socket_name name budget)"

definition kubelet_socket_path :: string where
  "kubelet_socket_path = path_join DEVICE_PLUGIN_PATH KUBELET_SOCKET"

record device_plugin =
  dpg_endpoint :: string
  dpg_resource_name :: string
  dpg_service :: backend
  dpg_kubelet_socket :: string

definition device_plugin_new :: "string \<Rightarrow> backend \<Rightarrow> validation_error + device_plugin" where
  "device_plugin_new resource_name service =
     res_bind (validate_resource_name resource_name) (\<lambda>_.
       Inr \<lparr>dpg_endpoint = path_join DEVICE_PLUGIN_PATH (plugin_socket_name resource_name),
            dpg_resource_name = resource_name, dpg_service = service,
            dpg_kubelet_socket = kubelet_socket_path\<rparr>)"

definition registration_endpoint :: "device_plugin \<Rightarrow> string" where
  "registration_endpoint p =
     (case file_name (dpg_endpoint p) of Some n \<Rightarrow> n | None \<Rightarrow> dpg_endpoint p)"

record register_request =
  rq_version :: string
  rq_endpoint :: string
  rq_resource_name :: string
  rq_options :: "plugin_options option"

definition register_request_new :: "string \<Rightarrow> string \<Rightarrow> register_request" where
  "register_request_new endpoint resource_name =
     \<lparr>rq_version = API_VERSION, rq_endpoint = endpoint, rq_resource_name = resource_name,
      rq_options = None\<rparr>"

text \<open>\<open>options.get_or_insert_default()\<close>: both flags are unset by default.\<close>

definition options_or_default :: "register_request \<Rightarrow> plugin_options" where
  "options_or_default r =
     (case rq_options r of
        Some options \<Rightarrow> options
      | None \<Rightarrow> \<lparr>po_pre_start_required = False, po_preferred_available = False\<rparr>)"

definition request_pre_start_required :: "register_request \<Rightarrow> bool \<Rightarrow> register_request" where
  "request_pre_start_required r yes =
     r\<lparr>rq_options := Some ((options_or_default r)\<lparr>po_pre_start_required := yes\<rparr>)\<rparr>"

definition request_preferred_available :: "register_request \<Rightarrow> bool \<Rightarrow> register_request" where
  "request_preferred_available r yes =
     r\<lparr>rq_options := Some ((options_or_default r)\<lparr>po_preferred_available := yes\<rparr>)\<rparr>"

definition request_with_options :: "register_request \<Rightarrow> plugin_options \<Rightarrow> register_request" where
  "request_with_options r options = r\<lparr>rq_options := Some options\<rparr>"

text \<open>
  \<open>lib/src/registration.rs\<close>: \<open>connect\<close> is the transport's connection to a path (with the text of
  its error), \<open>rpc\<close> the kubelet's answer to a request. The URI of the endpoint is a constant that
  parses.
\<close>

definition registration_request :: "string \<Rightarrow> string \<Rightarrow> register_request" where
  "registration_request endpoint resource_name = register_request_new endpoint resource_name"

definition registration_client_new :: "(string \<Rightarrow> string + unit) \<Rightarrow> string \<Rightarrow> status + unit" where
  "registration_client_new connect socket_path =
     res_map_err (\<lambda>err. Status Unavailable
         (''failed to connect to kubelet registration socket '' @ socket_path @ '': '' @ err))
       (connect socket_path)"

definition registration_client_register ::
    "(register_request \<Rightarrow> status + unit) \<Rightarrow> string \<Rightarrow> string \<Rightarrow> status + unit" where
  "registration_client_register rpc endpoint resource_name =
     res_bind (rpc (registration_request endpoint resource_name)) (\<lambda>_. Inr ())"

definition register_at ::
    "(string \<Rightarrow> string + unit) \<Rightarrow> (register_request \<Rightarrow> status + unit) \<Rightarrow> device_plugin \<Rightarrow> string
      \<Rightarrow> status + unit" where
  "register_at connect rpc p kubelet_socket =
     res_bind (registration_client_new connect kubelet_socket) (\<lambda>_.
       registration_client_register rpc (registration_endpoint p) (dpg_resource_name p))"

subsection \<open>Registration with retries\<close>

text \<open>
  \<open>answer k\<close> is the outcome of the \<open>k\<close>-th attempt (from 1). The result comes with the number of
  attempts made and the delays slept; \<open>None\<close> is the panic of an overflowing \<open>Duration\<close>.
\<close>

record registration_run =
  rr_result :: "io_error + unit"
  rr_attempts :: nat
  rr_delays :: "nat list"

definition last_attempt :: "(nat \<Rightarrow> status + unit) \<Rightarrow> nat \<Rightarrow> nat list \<Rightarrow> registration_run" where
  "last_attempt answer max_attempts delays =
     \<lparr>rr_result = res_map_err (\<lambda>s. io_other (status_text s)) (answer max_attempts),
      rr_attempts = max_attempts, rr_delays = delays\<rparr>"

function register_loop ::
    "(nat \<Rightarrow> status + unit) \<Rightarrow> nat \<Rightarrow> nat \<Rightarrow> nat \<Rightarrow> nat list \<Rightarrow> registration_run option" where
  "register_loop answer max_attempts attempt delay delays =
     (if attempt < max_attempts
      then (case answer attempt of
              Inr _ \<Rightarrow> Some \<lparr>rr_result = Inr (), rr_attempts = attempt, rr_delays = delays\<rparr>
            | Inl err \<Rightarrow>
                (case duration_mul delay 2 of
                   None \<Rightarrow> None
                 | Some doubled \<Rightarrow>
                     register_loop answer max_attempts (attempt + 1) (min doubled (seconds 30))
                       (delays @ [delay])))
      else Some (last_attempt answer max_attempts delays))"
  by pat_completeness auto
termination
  by (relation "measure (\<lambda>(answer, max_attempts, attempt, delay, delays). max_attempts - attempt)") auto

declare register_loop.simps [simp del]

definition try_register :: "(nat \<Rightarrow> status + unit) \<Rightarrow> nat \<Rightarrow> nat \<Rightarrow> registration_run option" where
  "try_register answer max_attempts initial_delay =
     (if max_attempts = 0
      then Some \<lparr>rr_result = Inl (io_other ''max_attempts must be at least 1''), rr_attempts = 0, rr_delays = []\<rparr>
      else register_loop answer max_attempts 1 initial_delay [])"

definition register_with_retry :: "(nat \<Rightarrow> status + unit) \<Rightarrow> registration_run option" where
  "register_with_retry answer = try_register answer 10 (seconds 1)"

subsection \<open>The end of the server\<close>

datatype server_exit = ServerReturned | ServerFailed string | ServerPanicked string

definition server_exit_error :: "server_exit \<Rightarrow> io_error" where
  "server_exit_error result =
     (case result of
        ServerReturned \<Rightarrow> io_other ''device-plugin server exited unexpectedly''
      | ServerFailed error \<Rightarrow> io_other error
      | ServerPanicked error \<Rightarrow> io_other error)"

end
