(* ===== verification/Device_Plugin_Properties.thy ===== *)
theory Device_Plugin_Properties
  imports Device_Plugin "HOL-Library.Multiset"
begin

text \<open>
  Correctness of the classic device plugin: change detection, order independence of
  \<open>allocate\<close>, the invariant of the watch stream, socket paths, registration retries, and the
  contract between the service and an allocator (locale \<open>allocator\<close>, interpreted on the static
  backend).
\<close>

subsection \<open>Change detection\<close>

lemma device_validate_cases: "(case device_validate d of Inr _ \<Rightarrow> True | Inl _ \<Rightarrow> False) \<longleftrightarrow> device_validate d = Inr ()"
  by (cases "device_validate d") auto

lemma set_valid_devices: "set (valid_devices ds) = {d \<in> set ds. device_validate d = Inr ()}"
  by (auto simp: valid_devices_def device_validate_cases)

text \<open>
  Two snapshots whose device IDs are distinct are equal for the change detection exactly when
  one is a permutation of the other.
\<close>
theorem devices_equal_is_permutation:
  assumes "distinct (map dev_id a)"
  shows "devices_equal_ignoring_order a b \<longleftrightarrow> mset a = mset b"
proof
  assume eq: "devices_equal_ignoring_order a b"
  then have "sort_key dev_id a = sort_key dev_id b"
    by (simp add: devices_equal_ignoring_order_def split: if_splits)
  then show "mset a = mset b" by (metis mset_sort)
next
  assume eq: "mset a = mset b"
  moreover from assms have "inj_on dev_id (set a)" by (simp add: distinct_map)
  ultimately have "sort_key dev_id a = sort_key dev_id b" by (rule sort_key_eq_sort_key)
  with mset_eq_length [OF eq] show "devices_equal_ignoring_order a b"
    by (simp add: devices_equal_ignoring_order_def)
qed

subsection \<open>Allocation\<close>

definition one_allocation :: "(string \<Rightarrow> string) \<Rightarrow> task_outcome \<Rightarrow> status + container_response" where
  "one_allocation dbg outcome =
     (case outcome of
        JoinFailed error \<Rightarrow> Inl (Status Internal (''allocate task failed: '' @ error))
      | Joined (Inl err) \<Rightarrow> Inl (allocation_error_to_status err)
      | Joined (Inr allocation) \<Rightarrow>
          (case container_allocation_validate allocation of
             Inl error \<Rightarrow> Inl (Status Internal (show_validation_error dbg error))
           | Inr _ \<Rightarrow> Inr (container_allocation_to_response allocation)))"

lemma collect_allocation_one:
  "collect_allocation dbg (index, outcome) responses =
     res_map (\<lambda>r. bt_insert index r responses) (one_allocation dbg outcome)"
  by (auto simp: collect_allocation_def one_allocation_def split: task_outcome.splits sum.splits)

lemma collect_allocations_Inr:
  "(\<forall>(i, out) \<in> set finished. \<exists>r. one_allocation dbg out = Inr r) \<Longrightarrow>
     collect_allocations dbg finished m =
       Inr (fold (\<lambda>(i, r) m. bt_insert i r m)
         (map (\<lambda>(i, out). (i, projr (one_allocation dbg out))) finished) m)"
  by (induction finished arbitrary: m) (auto simp: collect_allocation_one split: prod.splits)

lemma collect_allocations_Inl:
  "(i, out) \<in> set finished \<Longrightarrow> one_allocation dbg out = Inl e \<Longrightarrow>
     \<exists>j out' e'. (j, out') \<in> set finished \<and> one_allocation dbg out' = Inl e'
       \<and> collect_allocations dbg finished m = Inl e'"
proof (induction finished arbitrary: m)
  case (Cons f finished)
  obtain j out' where f: "f = (j, out')" by fastforce
  show ?case
  proof (cases "one_allocation dbg out'")
    case (Inl e')
    then show ?thesis using f by (auto simp: collect_allocation_one)
  next
    case (Inr r)
    with Cons.prems f have "(i, out) \<in> set finished" by auto
    with Cons.IH Cons.prems(2) obtain k out'' e' where
      "(k, out'') \<in> set finished" "one_allocation dbg out'' = Inl e'"
      "collect_allocations dbg finished (bt_insert j r m) = Inl e'" by blast
    then show ?thesis using f Inr by (auto simp: collect_allocation_one)
  qed
qed simp

lemma collected_in_order:
  assumes "mset pairs = mset (enumerate 0 rs)"
  shows "map snd (fold (\<lambda>(i, r) m. bt_insert i r m) pairs []) = rs"
proof -
  have fold: "fold (\<lambda>(i, r) m. bt_insert i r m) pairs [] = bt_collect pairs"
    by (simp add: bt_collect_def)
  have "distinct (map fst (enumerate 0 rs))" by simp
  moreover have "mset (map fst pairs) = mset (map fst (enumerate 0 rs))"
    using assms by (metis mset_map)
  ultimately have dist: "distinct (map fst pairs)" using mset_eq_imp_distinct_iff by blast
  have "bt_collect pairs = enumerate 0 rs"
  proof (rule bt.entries_ext)
    show "bt_ok (enumerate 0 rs)" by (simp add: bt_ok_def sorted_wrt_map [symmetric] strict_sorted_iff)
    fix k
    have "map_of pairs k = map_of (enumerate 0 rs) k"
      using map_of_inject_set [OF dist, of "enumerate 0 rs"] mset_eq_setD [OF assms] by simp
    then show "bt_lookup (bt_collect pairs) k = bt_lookup (enumerate 0 rs) k"
      unfolding bt_collect_eq using bt.lookup_collect_distinct [OF dist] by (simp add: bt_lookup_def)
  qed simp
  then show ?thesis by (simp add: fold)
qed

lemma allocate_outcome:
  assumes "mset finished = mset (enumerate 0 outs)"
  shows "case traverse (one_allocation dbg) outs of
      Inr responses \<Rightarrow> allocate dbg finished = Inr responses
    | Inl _ \<Rightarrow> \<exists>out e. out \<in> set outs \<and> one_allocation dbg out = Inl e \<and> allocate dbg finished = Inl e"
proof -
  have set: "set finished = set (enumerate 0 outs)" using assms by (rule mset_eq_setD)
  have snd: "snd ` set finished = set outs"
    unfolding set using map_snd_enumerate [of 0 outs] by (metis list.set_map)
  show ?thesis
  proof (cases "traverse (one_allocation dbg) outs")
    case (Inr responses)
    then have all: "list_all2 (\<lambda>out r. one_allocation dbg out = Inr r) outs responses"
      by (simp add: res_simps)
    then have "\<forall>out \<in> set outs. \<exists>r. one_allocation dbg out = Inr r"
      by (auto simp: list_all2_conv_all_nth in_set_conv_nth)
    then have "\<forall>(i, out) \<in> set finished. \<exists>r. one_allocation dbg out = Inr r"
      using snd by (force simp: split_beta)
    then have "collect_allocations dbg finished [] = Inr (fold (\<lambda>(i, r) m. bt_insert i r m)
        (map (\<lambda>(i, out). (i, projr (one_allocation dbg out))) finished) [])"
      by (rule collect_allocations_Inr)
    moreover have "mset (map (\<lambda>(i, out). (i, projr (one_allocation dbg out))) finished)
        = mset (enumerate 0 responses)"
    proof -
      have "responses = map (\<lambda>out. projr (one_allocation dbg out)) outs"
        using all by (auto simp: list_all2_conv_all_nth intro!: nth_equalityI)
      then have "enumerate 0 responses
          = map (\<lambda>(i, out). (i, projr (one_allocation dbg out))) (enumerate 0 outs)"
        by (simp add: enumerate_eq_zip zip_map2)
      with assms show ?thesis by simp
    qed
    ultimately show ?thesis using Inr by (simp add: allocate_def collected_in_order)
  next
    case (Inl e)
    then obtain out where "out \<in> set outs" "one_allocation dbg out = Inl e"
      using traverse_Inl_ex by fastforce
    then obtain i where "(i, out) \<in> set finished" using snd by force
    then obtain j out' e' where "(j, out') \<in> set finished" "one_allocation dbg out' = Inl e'"
        "collect_allocations dbg finished [] = Inl e'"
      using collect_allocations_Inl \<open>one_allocation dbg out = Inl e\<close> by blast
    then show ?thesis using Inl snd by (force simp: allocate_def)
  qed
qed

text \<open>
  C10: whatever order the container tasks finish in, \<open>allocate\<close> answers the containers in the
  order of the request when every allocation succeeds and validates; otherwise it answers with
  the error of one of the containers that failed.
\<close>
theorem allocate_any_order:
  assumes "mset finished = mset (enumerate 0 outs)"
  shows "case traverse (one_allocation dbg) outs of
      Inr responses \<Rightarrow> allocate dbg finished = Inr responses
    | Inl _ \<Rightarrow> \<exists>out e. out \<in> set outs \<and> one_allocation dbg out = Inl e \<and> allocate dbg finished = Inl e"
  using allocate_outcome [OF assms] .

definition null_allocation :: container_allocation where
  "null_allocation = container_allocation_default\<lparr>ca_device_paths := [device_path_rdwr ''/dev/null'']\<rparr>"

theorem allocate_any_order_witness:
  "allocate (\<lambda>s. s) [(1, Joined (Inr container_allocation_default)), (0, Joined (Inr null_allocation))]
     = Inr [container_allocation_to_response null_allocation,
            container_allocation_to_response container_allocation_default]"
proof -
  let ?outs = "[Joined (Inr null_allocation), Joined (Inr container_allocation_default)]"
  have valid: "container_allocation_validate null_allocation = Inr ()"
      "container_allocation_validate container_allocation_default = Inr ()"
    by (simp_all add: container_allocation_validate_ok null_allocation_def
        container_allocation_default_def device_path_rdwr_def is_absolute_iff)
  have "traverse (one_allocation (\<lambda>s. s)) ?outs = Inr [container_allocation_to_response null_allocation,
            container_allocation_to_response container_allocation_default]"
    by (simp add: one_allocation_def valid)
  then show ?thesis
    using allocate_any_order [of "[(1, Joined (Inr container_allocation_default)), (0, Joined (Inr null_allocation))]"
        ?outs "\<lambda>s. s"]
    by (simp add: numeral_eq_Suc add_mset_commute)
qed

subsection \<open>The watch stream\<close>

text \<open>What the stream of a backend that first discovered \<open>ds\<close> has sent: the lists \<open>updates\<close>.\<close>

abbreviation same_devices :: "device list \<Rightarrow> device list \<Rightarrow> bool" where
  "same_devices a b \<equiv> sort_key dev_id a = sort_key dev_id b"

lemma devices_equal_iff: "devices_equal_ignoring_order a b \<longleftrightarrow> same_devices a b"
  by (auto simp: devices_equal_ignoring_order_def dest: arg_cong [where f = length])

definition watch_sends :: "device list \<Rightarrow> watch_state \<Rightarrow> device list list \<Rightarrow> bool" where
  "watch_sends ds s updates \<longleftrightarrow>
     ws_sent s = map (map device_to_proto) updates
     \<and> updates \<noteq> [] \<and> hd updates = valid_devices ds
     \<and> list_all (list_all (\<lambda>d. device_validate d = Inr ())) updates
     \<and> successively (\<lambda>a b. \<not> same_devices a b) updates
     \<and> (\<not> ws_ended s \<longrightarrow> last updates = ws_last_devices s)"

lemma valid_devices_valid: "list_all (\<lambda>d. device_validate d = Inr ()) (valid_devices ds)"
  by (simp add: list_all_iff set_valid_devices)

lemma watch_sends_start: "watch_sends ds (watch_start ds) [valid_devices ds]"
  by (simp add: watch_sends_def watch_start_def Let_def valid_devices_valid)

lemma watch_sends_step:
  assumes "watch_sends ds s updates"
  shows "\<exists>updates'. watch_sends ds (watch_step e s) updates'"
proof (cases "\<exists>found. e = Poll found True \<and> \<not> ws_ended s
    \<and> \<not> same_devices (valid_devices found) (ws_last_devices s)")
  case True
  then obtain found where "e = Poll found True" "\<not> ws_ended s"
    "\<not> same_devices (valid_devices found) (ws_last_devices s)" by blast
  with assms have "watch_sends ds (watch_step e s) (updates @ [valid_devices found])"
    by (auto simp: watch_sends_def devices_equal_iff Let_def successively_append_iff valid_devices_valid)
  then show ?thesis by blast
next
  case False
  with assms have "watch_sends ds (watch_step e s) updates"
    by (cases e) (auto simp: watch_sends_def devices_equal_iff Let_def end_watch_def)
  then show ?thesis by blast
qed

lemma watch_sends_reachable: "watch_reachable ds s \<Longrightarrow> \<exists>updates. watch_sends ds s updates"
  by (induction rule: watch_reachable.induct) (use watch_sends_start watch_sends_step in blast)+

lemma watch_notified_reachable: "watch_reachable ds s \<Longrightarrow> ws_notified s = (if ws_ended s then 1 else 0)"
proof (induction rule: watch_reachable.induct)
  case (step s e)
  then show ?case by (cases e) (auto simp: Let_def end_watch_def)
qed (simp add: watch_start_def Let_def)

lemma poll_sends:
  assumes "watch_sends ds s updates" "\<not> ws_ended s"
  shows "\<not> ws_ended (watch_step (Poll found True) s)
    \<and> (\<exists>devices. last (ws_sent (watch_step (Poll found True) s)) = map device_to_proto devices
         \<and> same_devices devices (valid_devices found))"
proof (cases "same_devices (valid_devices found) (ws_last_devices s)")
  case True
  with assms show ?thesis
    by (auto simp: watch_sends_def devices_equal_iff Let_def last_map intro!: exI [of _ "ws_last_devices s"])
next
  case False
  with assms(2) show ?thesis by (auto simp: devices_equal_iff Let_def)
qed

text \<open>
  C11: a watch stream has sent, in every reachable state, a sequence of lists of valid devices that
  starts with the first discovery and in which no list repeats the one before it, up to the order of
  its devices; a poll of a living stream leaves it alive with the polled devices, up to their order,
  as the last list sent; the registration loop has been told exactly once when the stream has ended,
  and not before. Two lists differ in order only when sorting them by ID makes them equal.
\<close>
theorem watch_stream_invariant:
  assumes "watch_reachable ds s"
  shows "(\<exists>updates. ws_sent s = map (map device_to_proto) updates
      \<and> updates \<noteq> [] \<and> hd updates = valid_devices ds
      \<and> list_all (list_all (\<lambda>d. device_validate d = Inr ())) updates
      \<and> successively (\<lambda>a b. sort_key dev_id a \<noteq> sort_key dev_id b) updates)
    \<and> (\<not> ws_ended s \<longrightarrow> \<not> ws_ended (watch_step (Poll found True) s)
      \<and> (\<exists>devices. last (ws_sent (watch_step (Poll found True) s)) = map device_to_proto devices
           \<and> sort_key dev_id devices = sort_key dev_id (valid_devices found)))
    \<and> ws_notified s = (if ws_ended s then 1 else 0)"
proof -
  obtain updates where updates: "watch_sends ds s updates" using watch_sends_reachable [OF assms] by blast
  then have "\<exists>updates. ws_sent s = map (map device_to_proto) updates
      \<and> updates \<noteq> [] \<and> hd updates = valid_devices ds
      \<and> list_all (list_all (\<lambda>d. device_validate d = Inr ())) updates
      \<and> successively (\<lambda>a b. sort_key dev_id a \<noteq> sort_key dev_id b) updates"
    by (auto simp: watch_sends_def)
  then show ?thesis
    using poll_sends [OF updates, of found] watch_notified_reachable [OF assms] by blast
qed

theorem watch_stream_invariant_witness:
  "ws_notified (watch_step ReceiverClosed (watch_step (Poll [device_new ''b'', device_new ''''] True)
     (watch_start [device_new ''a'']))) = 1"
proof -
  let ?s = "watch_step ReceiverClosed (watch_step (Poll [device_new ''b'', device_new ''''] True)
     (watch_start [device_new ''a'']))"
  have "ws_notified ?s = (if ws_ended ?s then 1 else 0)"
    using watch_stream_invariant
      [OF watch_reachable.step [OF watch_reachable.step [OF watch_reachable.start]]] by blast
  moreover have "ws_ended ?s" by code_simp
  ultimately show ?thesis by simp
qed

subsection \<open>Socket paths\<close>

lemma plugin_socket_name_bounds:
  "length (plugin_socket_name n) \<le> 75" "CHR ''/'' \<notin> set (plugin_socket_name n)"
  "plugin_socket_name n \<noteq> []" "plugin_socket_name n \<noteq> ''.''" "plugin_socket_name n \<noteq> ''..''"
  using length_sanitize_socket_name [of n 75] sanitize_path_part [of 75 n]
  by (simp_all add: plugin_socket_name_def Let_def MAX_SOCKET_PATH_LEN_def DEVICE_PLUGIN_PATH_def)

text \<open>
  The socket of a plugin lies directly in the device-plugin directory, its path fits the 107
  bytes of a Unix socket address, and the endpoint sent to the kubelet is its file name.
\<close>
theorem plugin_endpoint_in_directory:
  assumes "device_plugin_new resource_name service = Inr p"
  shows "length (dpg_endpoint p) \<le> 107
    \<and> dpg_endpoint p = DEVICE_PLUGIN_PATH @ registration_endpoint p
    \<and> CHR ''/'' \<notin> set (registration_endpoint p) \<and> registration_endpoint p \<noteq> []"
proof -
  let ?n = "plugin_socket_name resource_name"
  note b = plugin_socket_name_bounds [of resource_name]
  have dir: "ends_with ''/'' DEVICE_PLUGIN_PATH" "length DEVICE_PLUGIN_PATH = 32"
    by (simp_all add: DEVICE_PLUGIN_PATH_def ends_with_def)
  from b(2) have "\<not> is_absolute ?n" by (auto simp: is_absolute_iff)
  with dir have join: "path_join DEVICE_PLUGIN_PATH ?n = DEVICE_PLUGIN_PATH @ ?n"
    by (simp add: path_join_relative)
  from assms have "dpg_endpoint p = path_join DEVICE_PLUGIN_PATH ?n"
    by (auto simp: device_plugin_new_def res_simps)
  moreover from this have "registration_endpoint p = ?n"
    using file_name_join [OF dir(1) b(2-5)] by (simp add: registration_endpoint_def)
  ultimately show ?thesis using b join dir by simp
qed

subsection \<open>Registration\<close>

text \<open>The first successful attempt from \<open>k\<close> on, and the delays slept before it.\<close>

fun backoff :: "nat \<Rightarrow> nat \<Rightarrow> nat list" where
  "backoff 0 delay = []"
| "backoff (Suc n) delay = delay # backoff n (min (delay * 2) (seconds 30))"

lemma length_backoff [simp]: "length (backoff n d) = n"
  by (induction n arbitrary: d) auto

lemma small_double: "d \<le> seconds 30 \<Longrightarrow> duration_mul d 2 = Some (d * 2)"
  by (simp add: duration_mul_def DURATION_MAX_def seconds_def)

lemma register_loop_run:
  assumes "k \<le> m" "d \<le> seconds 30"
  shows "\<exists>j. k \<le> j \<and> j \<le> m \<and> (\<forall>i. k \<le> i \<and> i < j \<longrightarrow> (\<exists>e. answer i = Inl e))
     \<and> (j < m \<longrightarrow> answer j = Inr ())
     \<and> register_loop answer m k d ds =
         Some \<lparr>rr_result = res_map_err (\<lambda>s. io_other (status_text s)) (answer j),
               rr_attempts = j, rr_delays = ds @ backoff (j - k) d\<rparr>"
  using assms
proof (induction "m - k" arbitrary: k d ds)
  case 0
  then show ?case
    by (intro exI [of _ m]) (auto simp: register_loop.simps [of _ _ k] last_attempt_def)
next
  case (Suc n)
  then have less: "k < m" by simp
  show ?case
  proof (cases "answer k")
    case (Inr u)
    then have "register_loop answer m k d ds = Some \<lparr>rr_result = Inr (), rr_attempts = k, rr_delays = ds\<rparr>"
      using less by (subst register_loop.simps) simp
    with less Inr show ?thesis by (intro exI [of _ k]) auto
  next
    case (Inl e)
    let ?d = "min (d * 2) (seconds 30)"
    have "n = m - Suc k" "Suc k \<le> m" "?d \<le> seconds 30" using Suc.hyps(2) less by simp_all
    from Suc.hyps(1) [OF this, of "ds @ [d]"] obtain j where j:
      "Suc k \<le> j" "j \<le> m" "\<forall>i. Suc k \<le> i \<and> i < j \<longrightarrow> (\<exists>e. answer i = Inl e)"
      "j < m \<longrightarrow> answer j = Inr ()"
      "register_loop answer m (Suc k) ?d (ds @ [d]) =
         Some \<lparr>rr_result = res_map_err (\<lambda>s. io_other (status_text s)) (answer j),
               rr_attempts = j, rr_delays = (ds @ [d]) @ backoff (j - Suc k) ?d\<rparr>"
      by blast
    have "backoff (j - k) d = d # backoff (j - Suc k) ?d"
    proof -
      have "j - k = Suc (j - Suc k)" using j(1) by simp
      then show ?thesis by simp
    qed
    moreover have "\<exists>e. answer i = Inl e" if "k \<le> i" "i < j" for i
      using that j(3) Inl by (cases "i = k") auto
    ultimately show ?thesis
      using j less Inl Suc.prems
      by (intro exI [of _ j]) (simp add: register_loop.simps [of _ _ k] small_double)
  qed
qed

text \<open>
  C12: registration always comes back, after at most ten attempts: with success at the first
  attempt that succeeds, otherwise with the error of the tenth; between attempts it waits one
  second, doubled each time up to thirty.
\<close>
theorem registration_retries:
  "\<exists>n. 1 \<le> n \<and> n \<le> 10 \<and> (\<forall>i. 1 \<le> i \<and> i < n \<longrightarrow> (\<exists>e. answer i = Inl e))
     \<and> (n < 10 \<longrightarrow> answer n = Inr ())
     \<and> register_with_retry answer =
         Some \<lparr>rr_result = res_map_err (\<lambda>s. io_other (status_text s)) (answer n), rr_attempts = n,
               rr_delays = take (n - 1) (map seconds [1, 2, 4, 8, 16, 30, 30, 30, 30])\<rparr>"
proof -
  have take: "take n (backoff m d) = backoff n d" if "n \<le> m" for n m d
    using that
  proof (induction m arbitrary: n d)
    case (Suc m)
    then show ?case by (cases n) auto
  qed simp
  have nine: "backoff 9 (seconds 1) = map seconds [1, 2, 4, 8, 16, 30, 30, 30, 30]"
  proof -
    have "min (seconds a * 2) (seconds 30) = seconds (min (a * 2) 30)" for a
      by (simp add: seconds_def min_def)
    then have "backoff (Suc n) (seconds a) = seconds a # backoff n (seconds (min (a * 2) 30))" for n a
      by simp
    note this [simp] and backoff.simps(2) [simp del]
    have "backoff (Suc (Suc (Suc (Suc (Suc (Suc (Suc (Suc (Suc 0))))))))) (seconds 1)
        = map seconds [1, 2, 4, 8, 16, 30, 30, 30, 30]"
      by simp
    moreover have "(9 :: nat) = Suc (Suc (Suc (Suc (Suc (Suc (Suc (Suc (Suc 0))))))))" by simp
    ultimately show ?thesis by metis
  qed
  obtain n where n: "1 \<le> n" "n \<le> 10" "\<forall>i. 1 \<le> i \<and> i < n \<longrightarrow> (\<exists>e. answer i = Inl e)"
    "n < 10 \<longrightarrow> answer n = Inr ()"
    "register_loop answer 10 1 (seconds 1) [] =
       Some \<lparr>rr_result = res_map_err (\<lambda>s. io_other (status_text s)) (answer n), rr_attempts = n,
             rr_delays = [] @ backoff (n - 1) (seconds 1)\<rparr>"
    using register_loop_run [of 1 10 "seconds 1" answer "[]"] by (auto simp: seconds_def)
  then have "n - 1 \<le> 9" by simp
  then have "backoff (n - 1) (seconds 1) = take (n - 1) (map seconds [1, 2, 4, 8, 16, 30, 30, 30, 30])"
    using take [of "n - 1" 9 "seconds 1"] unfolding nine by argo
  with n show ?thesis
    unfolding register_with_retry_def try_register_def by (intro exI [of _ n]) simp
qed

lemma registration_retries_witness:
  "\<exists>r. register_with_retry (\<lambda>k. if k = 3 then Inr () else Inl (Status Unavailable ''no kubelet'')) = Some r
     \<and> rr_attempts r \<le> 10"
  using registration_retries [of "\<lambda>k. if k = 3 then Inr () else Inl (Status Unavailable ''no kubelet'')"]
  by auto

subsection \<open>Allocators\<close>

text \<open>The contract of \<open>DeviceAllocator::allocate\<close>: what it returns validates.\<close>

locale allocator =
  fixes alloc :: "string list \<Rightarrow> allocation_error + container_allocation"
  assumes alloc_valid: "alloc ids = Inr a \<Longrightarrow> container_allocation_validate a = Inr ()"
begin

lemma one_allocation_alloc:
  "one_allocation dbg (Joined (alloc ids)) =
     (case alloc ids of
        Inl err \<Rightarrow> Inl (allocation_error_to_status err)
      | Inr a \<Rightarrow> Inr (container_allocation_to_response a))"
  using alloc_valid [of ids] by (auto simp: one_allocation_def split: sum.splits)

lemma no_internal_error:
  "one_allocation dbg (Joined (alloc ids)) = Inl e \<Longrightarrow> status_code_of e \<noteq> Internal"
  by (auto simp: one_allocation_alloc allocation_error_to_status_def Let_def
      split: sum.splits allocation_error.splits)

end

lemma static_device_iff:
  "static_device exists ds i = Inr ps \<longleftrightarrow>
     (\<exists>d. List.find (\<lambda>d. dev_id d = i) ds = Some d \<and> ps = dev_paths d
        \<and> (\<forall>p \<in> set (dev_paths d). exists (dp_host_path p)))"
  by (auto simp: static_device_def res_simps)

lemma find_by_id:
  assumes "distinct (map dev_id ds)"
  shows "List.find (\<lambda>d. dev_id d = i) ds = Some d \<longleftrightarrow> d \<in> set ds \<and> dev_id d = i"
  using assms by (induction ds) auto

lemma static_allocate_iff:
  "static_allocate exists ds ids = Inr a \<longleftrightarrow>
     (\<exists>found. list_all2 (\<lambda>i d. List.find (\<lambda>d. dev_id d = i) ds = Some d
          \<and> (\<forall>p \<in> set (dev_paths d). exists (dp_host_path p))) ids found
        \<and> a = container_allocation_default\<lparr>ca_device_paths := concat (map dev_paths found)\<rparr>)"
proof -
  have "list_all2 (\<lambda>i ps. static_device exists ds i = Inr ps) ids pss \<longleftrightarrow>
      (\<exists>found. list_all2 (\<lambda>i d. List.find (\<lambda>d. dev_id d = i) ds = Some d
          \<and> (\<forall>p \<in> set (dev_paths d). exists (dp_host_path p))) ids found \<and> pss = map dev_paths found)" for pss
    by (induction ids arbitrary: pss) (fastforce simp: list_all2_Cons1 static_device_iff)+
  then show ?thesis by (auto simp: static_allocate_def res_simps)
qed

lemma static_allocate_valid:
  assumes "static_allocate exists (valid_devices ds) ids = Inr a"
  shows "container_allocation_validate a = Inr ()"
proof -
  obtain found where found: "list_all2 (\<lambda>i d. List.find (\<lambda>d. dev_id d = i) (valid_devices ds) = Some d
      \<and> (\<forall>p \<in> set (dev_paths d). exists (dp_host_path p))) ids found"
    and a: "a = container_allocation_default\<lparr>ca_device_paths := concat (map dev_paths found)\<rparr>"
    using assms by (auto simp: static_allocate_iff)
  from found have "\<forall>d \<in> set found. \<exists>i. List.find (\<lambda>d. dev_id d = i) (valid_devices ds) = Some d"
    by (induction rule: list_all2_induct) auto
  then have "d \<in> set (valid_devices ds)" if "d \<in> set found" for d
    using that by (metis find_Some_iff nth_mem)
  then show ?thesis
    by (auto simp: container_allocation_validate_ok a container_allocation_default_def
        set_valid_devices device_validate_ok)
qed

interpretation static: allocator "static_allocate exists (valid_devices ds)" for exists ds
  by unfold_locales (rule static_allocate_valid)

text \<open>
  The static backend allocates exactly when every requested device is configured and all its
  host paths exist, and then hands out the paths of the requested devices in their order.
\<close>
theorem static_allocation:
  assumes "distinct (map dev_id ds)"
  shows "static_allocate exists ds ids = Inr a \<longleftrightarrow>
    (\<exists>found. set found \<subseteq> set ds \<and> map dev_id found = ids
       \<and> list_all (\<lambda>d. list_all (\<lambda>p. exists (dp_host_path p)) (dev_paths d)) found
       \<and> a = container_allocation_default\<lparr>ca_device_paths := concat (map dev_paths found)\<rparr>)"
proof -
  have "list_all2 (\<lambda>i d. List.find (\<lambda>d. dev_id d = i) ds = Some d
        \<and> (\<forall>p \<in> set (dev_paths d). exists (dp_host_path p))) ids found \<longleftrightarrow>
      set found \<subseteq> set ds \<and> map dev_id found = ids
       \<and> list_all (\<lambda>d. list_all (\<lambda>p. exists (dp_host_path p)) (dev_paths d)) found" for found
    by (induction ids arbitrary: found)
      (auto simp: list_all2_Cons1 find_by_id [OF assms] list_all_iff Cons_eq_map_conv map_eq_Cons_conv)
  then show ?thesis by (simp add: static_allocate_iff)
qed

text \<open>
  With the static backend on valid devices, \<open>allocate\<close> never answers with an internal
  error, in whatever order the containers finish.
\<close>
theorem static_allocate_not_internal:
  assumes "mset finished = mset (enumerate 0 (map (\<lambda>ids. Joined (static_allocate exists (valid_devices ds) ids)) requests))"
    and "allocate dbg finished = Inl e"
  shows "status_code_of e \<noteq> Internal"
proof -
  let ?outs = "map (\<lambda>ids. Joined (static_allocate exists (valid_devices ds) ids)) requests"
  have "\<exists>out \<in> set ?outs. one_allocation dbg out = Inl e"
    using allocate_outcome [OF assms(1), of dbg] assms(2) by (auto split: sum.splits)
  then show ?thesis using static.no_internal_error by auto
qed

end
