(* ===== verification/Unix_Socket.thy ===== *)
theory Unix_Socket
  imports Rust_Io Rust_Path Prelude
begin

text \<open>
  \<open>core/src/unix_socket.rs\<close>: binding a listener without replacing an active peer. The code is a
  program that asks the operating system one call at a time and goes on with the answer, so that
  one definition is run alone, against any sequence of answers (this theory, and every server that
  binds a socket), and interleaved with other processes (\<open>Socket_Startup\<close>).
\<close>

subsection \<open>Programs over system calls\<close>

text \<open>
  \<open>CloseLock\<close> and \<open>CloseListener\<close> are the closing of the file and of the listener when they go out
  of scope; closing the lock file releases the lock.
\<close>

datatype socket_call =
    OpenLock string | LockFile | BindSocket string | ConnectSocket string | RemoveSocket string
  | SetNonblocking | CloseListener | CloseLock

datatype socket_program =
    Finish "io_error + unit"
  | Ask socket_call "io_error + unit \<Rightarrow> socket_program"

primrec and_then :: "socket_program \<Rightarrow> (io_error + unit \<Rightarrow> socket_program) \<Rightarrow> socket_program" where
  "and_then (Finish r) k = k r"
| "and_then (Ask c f) k = Ask c (\<lambda>r. and_then (f r) k)"

text \<open>An operating system answers each call from the calls made before.\<close>

type_synonym socket_env = "socket_call list \<Rightarrow> socket_call \<Rightarrow> io_error + unit"

type_synonym 'a traced = "(io_error + 'a) \<times> socket_call list"

primrec run_program :: "socket_program \<Rightarrow> socket_env \<Rightarrow> socket_call list \<Rightarrow> unit traced" where
  "run_program (Finish r) e h = (r, h)"
| "run_program (Ask c f) e h = run_program (f (e h c)) e (h @ [c])"

subsection \<open>The code\<close>

text \<open>\<open>Path::with_added_extension\<close>: the text after the file name (slashes, \<open>/.\<close>) is dropped.\<close>

function drop_trailing :: "string \<Rightarrow> string" where
  "drop_trailing s =
     (if ends_with ''/.'' s then drop_trailing (take (length s - 2) s)
      else if ends_with ''/'' s then drop_trailing (take (length s - 1) s) else s)"
  by pat_completeness auto
termination
  by (relation "measure length") (auto simp: ends_with_iff)

declare drop_trailing.simps [simp del]

definition lock_path :: "string \<Rightarrow> string" where
  "lock_path socket_path =
     (case file_name socket_path of
        None \<Rightarrow> socket_path
      | Some _ \<Rightarrow> drop_trailing socket_path @ ''.lock'')"

definition recover_or_refuse_active_socket :: "string \<Rightarrow> socket_program" where
  "recover_or_refuse_active_socket socket_path =
     Ask (ConnectSocket socket_path) (\<lambda>connected. case connected of
        Inr _ \<Rightarrow> Finish (Inl (IoError AddrInUse
          (''refusing to replace an active Unix socket at '' @ socket_path)))
      | Inl connect_error \<Rightarrow>
          if io_error_kind connect_error = ConnectionRefused
          then Ask (RemoveSocket socket_path) (\<lambda>removed. case removed of
                 Inl error \<Rightarrow> Finish (Inl error)
               | Inr _ \<Rightarrow> Ask (BindSocket socket_path) Finish)
          else if io_error_kind connect_error = NotFound then Ask (BindSocket socket_path) Finish
          else Finish (Inl (IoError (io_error_kind connect_error)
                 (''cannot determine whether Unix socket at '' @ socket_path @ '' is stale: ''
                  @ io_error_text connect_error))))"

text \<open>The part of the function that runs with the lock file open, and the whole of it.\<close>

definition bind_under_lock :: "string \<Rightarrow> socket_program" where
  "bind_under_lock socket_path =
     Ask LockFile (\<lambda>locked. case locked of
        Inl error \<Rightarrow> Finish (Inl error)
      | Inr _ \<Rightarrow>
          and_then
            (Ask (BindSocket socket_path) (\<lambda>bound. case bound of
                Inr _ \<Rightarrow> Finish (Inr ())
              | Inl err \<Rightarrow>
                  if io_error_kind err = AddrInUse then recover_or_refuse_active_socket socket_path
                  else Finish (Inl err)))
            (\<lambda>listener. case listener of
                Inl error \<Rightarrow> Finish (Inl error)
              | Inr _ \<Rightarrow>
                  Ask SetNonblocking (\<lambda>set. case set of
                     Inl error \<Rightarrow> Ask CloseListener (\<lambda>_. Finish (Inl error))
                   | Inr _ \<Rightarrow> Finish (Inr ()))))"

definition bind_unix_listener :: "string \<Rightarrow> socket_program" where
  "bind_unix_listener socket_path =
     Ask (OpenLock (lock_path socket_path)) (\<lambda>opened. case opened of
        Inl error \<Rightarrow> Finish (Inl error)
      | Inr _ \<Rightarrow> and_then (bind_under_lock socket_path) (\<lambda>result. Ask CloseLock (\<lambda>_. Finish result)))"

text \<open>A call of the function by a server.\<close>

definition run_bind :: "socket_env \<Rightarrow> string \<Rightarrow> unit traced" where
  "run_bind e socket_path = run_program (bind_unix_listener socket_path) e []"

lemmas socket_defs = run_bind_def bind_unix_listener_def bind_under_lock_def
  recover_or_refuse_active_socket_def

lemma run_and_then:
  "run_program (and_then q k) e h = (case run_program q e h of (r, h') \<Rightarrow> run_program (k r) e h')"
  by (induction q arbitrary: h) auto

subsection \<open>A call that succeeds\<close>

definition willing_env :: socket_env where
  "willing_env h c = Inr ()"

lemma willing_bind: "fst (run_bind willing_env path) = Inr ()"
  by (simp add: socket_defs run_and_then willing_env_def)

text \<open>A system where a dead process left its socket behind.\<close>

definition stale_env :: socket_env where
  "stale_env h c =
     (case c of
        BindSocket _ \<Rightarrow>
          if list_ex (\<lambda>d. case d of RemoveSocket _ \<Rightarrow> True | _ \<Rightarrow> False) h then Inr ()
          else Inl (IoError AddrInUse ''address in use'')
      | ConnectSocket _ \<Rightarrow> Inl (IoError ConnectionRefused ''connection refused'')
      | _ \<Rightarrow> Inr ())"

lemma stale_startup:
  "run_program (bind_unix_listener path) stale_env [] =
     (Inr (), [OpenLock (lock_path path), LockFile, BindSocket path, ConnectSocket path, RemoveSocket path,
        BindSocket path, SetNonblocking, CloseLock])"
  by (simp add: socket_defs run_and_then stale_env_def)

lemma io_kind_ex: "io_error_kind e = k \<Longrightarrow> \<exists>t. e = IoError k t"
  by (cases e) auto

subsection \<open>Properties\<close>

text \<open>
  C13: the socket file is removed only while the startup lock is held, after a bind that found the
  address in use and a connection that was refused, whatever the operating system answers: the lock
  file was opened and locked with success, and it is closed by the last call only.
\<close>
theorem removes_only_stale_socket:
  assumes "run_program (bind_unix_listener path) e [] = (r, calls)" and "RemoveSocket f \<in> set calls"
  shows "f = path \<and> (\<exists>tail.
      calls = [OpenLock (lock_path path), LockFile, BindSocket path, ConnectSocket path, RemoveSocket path]
        @ tail @ [CloseLock] \<and> CloseLock \<notin> set tail)
    \<and> e [] (OpenLock (lock_path path)) = Inr ()
    \<and> e [OpenLock (lock_path path)] LockFile = Inr ()
    \<and> (\<exists>t. e [OpenLock (lock_path path), LockFile] (BindSocket path) = Inl (IoError AddrInUse t))
    \<and> (\<exists>t. e [OpenLock (lock_path path), LockFile, BindSocket path] (ConnectSocket path)
          = Inl (IoError ConnectionRefused t))"
  using assms
  by (auto simp: bind_unix_listener_def bind_under_lock_def recover_or_refuse_active_socket_def
      run_and_then split: sum.splits if_splits intro: io_kind_ex)

theorem removes_only_stale_socket_witness:
  "''/run/a.sock'' = ''/run/a.sock'' \<and> (\<exists>tail.
      [OpenLock (lock_path ''/run/a.sock''), LockFile, BindSocket ''/run/a.sock'', ConnectSocket ''/run/a.sock'',
       RemoveSocket ''/run/a.sock'', BindSocket ''/run/a.sock'', SetNonblocking, CloseLock]
      = [OpenLock (lock_path ''/run/a.sock''), LockFile, BindSocket ''/run/a.sock'', ConnectSocket ''/run/a.sock'',
       RemoveSocket ''/run/a.sock''] @ tail @ [CloseLock] \<and> CloseLock \<notin> set tail)
    \<and> stale_env [] (OpenLock (lock_path ''/run/a.sock'')) = Inr ()
    \<and> stale_env [OpenLock (lock_path ''/run/a.sock'')] LockFile = Inr ()
    \<and> (\<exists>t. stale_env [OpenLock (lock_path ''/run/a.sock''), LockFile] (BindSocket ''/run/a.sock'')
          = Inl (IoError AddrInUse t))
    \<and> (\<exists>t. stale_env [OpenLock (lock_path ''/run/a.sock''), LockFile, BindSocket ''/run/a.sock'']
          (ConnectSocket ''/run/a.sock'') = Inl (IoError ConnectionRefused t))"
  by (rule removes_only_stale_socket [OF stale_startup]) simp

end
