(* ===== verification/Plugin_Life.thy ===== *)
theory Plugin_Life
  imports Device_Plugin_Properties Unix_Socket
begin

text \<open>
  The life of a classic device plugin, \<open>DevicePlugin::run\<close> of \<open>lib/src/lib.rs\<close> with the watch
  streams of its service: the loop, the server task and the streams take their steps in any order
  and meet in \<open>kubelet_gone\<close>, a \<open>tokio::sync::Notify\<close>. \<open>notify_one\<close> wakes the loop when it waits
  and has not been woken yet, and otherwise stores one permit, which the next wait takes.
\<close>

subsection \<open>The service and its listener\<close>

definition PLUGIN_POLL_INTERVAL :: nat where "PLUGIN_POLL_INTERVAL = seconds 5"

record plugin_service =
  psv_plugin :: backend
  psv_poll_interval :: nat

definition plugin_service_new :: "backend \<Rightarrow> plugin_service" where
  "plugin_service_new plugin = \<lparr>psv_plugin = plugin, psv_poll_interval = PLUGIN_POLL_INTERVAL\<rparr>"

definition service_with_poll_interval :: "plugin_service \<Rightarrow> nat \<Rightarrow> plugin_service" where
  "service_with_poll_interval sv poll_interval = sv\<lparr>psv_poll_interval := max poll_interval 1000000\<rparr>"

text \<open>\<open>from_std\<close> is the outcome of handing the listener to the runtime.\<close>

definition plugin_setup_listener :: "socket_env \<Rightarrow> io_error + unit \<Rightarrow> device_plugin \<Rightarrow> io_error + unit" where
  "plugin_setup_listener e from_std p =
     res_bind (fst (run_bind e (dpg_endpoint p))) (\<lambda>_. from_std)"

definition spawn_server :: "socket_env \<Rightarrow> io_error + unit \<Rightarrow> device_plugin \<Rightarrow> io_error + unit" where
  "spawn_server e from_std p = res_bind (plugin_setup_listener e from_std p) (\<lambda>_. Inr ())"

subsection \<open>The state\<close>

datatype server_state = ServerNever | ServerRunning | ServerDone server_exit | ServerAborted

datatype life_phase = PluginRegistering | PluginWaiting | PluginReturned io_error

record plugin_life =
  pl_phase :: life_phase
  pl_server :: server_state
  pl_woken :: bool \<comment> \<open>the waiting loop has been notified\<close>
  pl_permit :: bool \<comment> \<open>the stored permit\<close>
  pl_streams :: "watch_state list"

definition life_begin :: "socket_env \<Rightarrow> io_error + unit \<Rightarrow> device_plugin \<Rightarrow> plugin_life" where
  "life_begin e from_std p =
     (case spawn_server e from_std p of
        Inl err \<Rightarrow> \<lparr>pl_phase = PluginReturned err, pl_server = ServerNever, pl_woken = False,
                    pl_permit = False, pl_streams = []\<rparr>
      | Inr _ \<Rightarrow> \<lparr>pl_phase = PluginRegistering, pl_server = ServerRunning, pl_woken = False,
                  pl_permit = False, pl_streams = []\<rparr>)"

definition notify_one :: "plugin_life \<Rightarrow> plugin_life" where
  "notify_one s =
     (if pl_phase s = PluginWaiting \<and> \<not> pl_woken s then s\<lparr>pl_woken := True\<rparr>
      else s\<lparr>pl_permit := True\<rparr>)"

text \<open>The first poll of \<open>kubelet_gone.notified()\<close>.\<close>

definition await_notified :: "plugin_life \<Rightarrow> plugin_life" where
  "await_notified s = s\<lparr>pl_phase := PluginWaiting, pl_woken := pl_permit s, pl_permit := False\<rparr>"

definition abort_server :: "server_state \<Rightarrow> server_state" where
  "abort_server t = (if t = ServerRunning then ServerAborted else t)"

definition register_round ::
    "(nat \<Rightarrow> string \<Rightarrow> string + unit) \<Rightarrow> (nat \<Rightarrow> register_request \<Rightarrow> status + unit) \<Rightarrow> device_plugin
      \<Rightarrow> registration_run option" where
  "register_round connect rpc p =
     register_with_retry (\<lambda>k. register_at (connect k) (rpc k) p (dpg_kubelet_socket p))"

datatype life_event =
  Registered | GaveUp | Reregister | SeesServerExit | ServerExits | WatchOpens | WatchMoves | WatchEnds

inductive life_step :: "device_plugin \<Rightarrow> life_event \<Rightarrow> plugin_life \<Rightarrow> plugin_life \<Rightarrow> bool" for p where
  registered: "pl_phase s = PluginRegistering \<Longrightarrow> register_round connect rpc p = Some r \<Longrightarrow> rr_result r = Inr () \<Longrightarrow>
     life_step p Registered s (await_notified s)"
| gave_up: "pl_phase s = PluginRegistering \<Longrightarrow> register_round connect rpc p = Some r \<Longrightarrow> rr_result r = Inl err \<Longrightarrow>
     life_step p GaveUp s (s\<lparr>pl_phase := PluginReturned err, pl_server := abort_server (pl_server s)\<rparr>)"
| kubelet_gone: "pl_phase s = PluginWaiting \<Longrightarrow> pl_woken s \<Longrightarrow>
     life_step p Reregister s (s\<lparr>pl_phase := PluginRegistering, pl_woken := False\<rparr>)"
| server_gone: "pl_phase s = PluginWaiting \<Longrightarrow> pl_server s = ServerDone result \<Longrightarrow>
     life_step p SeesServerExit s (s\<lparr>pl_phase := PluginReturned (server_exit_error result)\<rparr>)"
| server_exits: "pl_server s = ServerRunning \<Longrightarrow>
     life_step p ServerExits s (s\<lparr>pl_server := ServerDone result\<rparr>)"
| watch_opens: "pl_server s = ServerRunning \<Longrightarrow>
     life_step p WatchOpens s (s\<lparr>pl_streams := pl_streams s @ [watch_start discovered]\<rparr>)"
| watch_moves: "i < length (pl_streams s) \<Longrightarrow> w = watch_step e (pl_streams s ! i) \<Longrightarrow>
     ws_notified w = ws_notified (pl_streams s ! i) \<Longrightarrow>
     life_step p WatchMoves s (s\<lparr>pl_streams := (pl_streams s)[i := w]\<rparr>)"
| watch_ends: "i < length (pl_streams s) \<Longrightarrow> w = watch_step e (pl_streams s ! i) \<Longrightarrow>
     ws_notified w \<noteq> ws_notified (pl_streams s ! i) \<Longrightarrow>
     life_step p WatchEnds s (notify_one (s\<lparr>pl_streams := (pl_streams s)[i := w]\<rparr>))"

inductive_cases life_stepE: "life_step p ev s s'"

inductive life_run :: "device_plugin \<Rightarrow> plugin_life \<Rightarrow> life_event list \<Rightarrow> plugin_life \<Rightarrow> bool" for p s where
  no_events: "life_run p s [] s"
| one_more: "life_run p s evs s' \<Longrightarrow> life_step p ev s' s'' \<Longrightarrow> life_run p s (evs @ [ev]) s''"

subsection \<open>The invariant of the loop\<close>

text \<open>Whether a stream has ended since the loop last re-registered.\<close>

definition disconnect_pending :: "life_event list \<Rightarrow> bool" where
  "disconnect_pending evs \<longleftrightarrow> WatchEnds \<in> set (takeWhile (\<lambda>ev. ev \<noteq> Reregister) (rev evs))"

lemma pending_append [simp]:
  "\<not> disconnect_pending []"
  "disconnect_pending (evs @ [ev]) \<longleftrightarrow> ev \<noteq> Reregister \<and> (ev = WatchEnds \<or> disconnect_pending evs)"
  by (auto simp: disconnect_pending_def)

lemma watch_step_notified:
  "ws_notified (watch_step e w) = ws_notified w \<or> ws_notified (watch_step e w) = Suc (ws_notified w)"
  by (cases e) (auto simp: Let_def end_watch_def)

definition returns_with :: "socket_env \<Rightarrow> io_error + unit \<Rightarrow> device_plugin \<Rightarrow> server_state \<Rightarrow> io_error \<Rightarrow> bool" where
  "returns_with e from_std p server err \<longleftrightarrow>
     spawn_server e from_std p = Inl err \<and> server = ServerNever
     \<or> (\<exists>connect rpc r. register_round connect rpc p = Some r \<and> rr_result r = Inl err)
     \<or> (\<exists>result. server = ServerDone result \<and> err = server_exit_error result)"

definition life_inv ::
    "socket_env \<Rightarrow> io_error + unit \<Rightarrow> device_plugin \<Rightarrow> life_event list \<Rightarrow> plugin_life \<Rightarrow> bool" where
  "life_inv e from_std p evs s \<longleftrightarrow>
     count_list evs Reregister + of_bool (pl_woken s) + of_bool (pl_permit s) \<le> count_list evs WatchEnds
     \<and> sum_list (map ws_notified (pl_streams s)) = count_list evs WatchEnds
     \<and> (disconnect_pending evs \<longrightarrow> pl_woken s \<or> pl_permit s)
     \<and> (case pl_phase s of
          PluginRegistering \<Rightarrow> \<not> pl_woken s
        | PluginWaiting \<Rightarrow> pl_permit s \<longrightarrow> pl_woken s
        | PluginReturned err \<Rightarrow> pl_server s \<noteq> ServerRunning \<and> returns_with e from_std p (pl_server s) err)"

lemma life_inv_begin: "life_inv e from_std p [] (life_begin e from_std p)"
  by (auto simp: life_inv_def life_begin_def returns_with_def split: sum.splits)

lemma sum_list_update_watch:
  "i < length ws \<Longrightarrow> sum_list (map ws_notified (ws[i := w])) + ws_notified (ws ! i)
     = sum_list (map ws_notified ws) + ws_notified w"
  by (induction ws arbitrary: i) (auto split: nat.split)

lemma life_inv_step:
  assumes "life_inv e from_std p evs s" "life_step p ev s s'"
  shows "life_inv e from_std p (evs @ [ev]) s'"
  using assms(2)
proof cases
  case registered
  with assms(1) show ?thesis by (auto simp: life_inv_def await_notified_def)
next
  case gave_up
  with assms(1) show ?thesis by (auto simp: life_inv_def returns_with_def abort_server_def)
next
  case kubelet_gone
  with assms(1) show ?thesis by (auto simp: life_inv_def)
next
  case server_gone
  with assms(1) show ?thesis by (auto simp: life_inv_def returns_with_def)
next
  case server_exits
  with assms(1) show ?thesis by (auto simp: life_inv_def returns_with_def split: life_phase.splits)
next
  case watch_opens
  with assms(1) show ?thesis by (auto simp: life_inv_def watch_start_def Let_def split: life_phase.splits)
next
  case (watch_moves i w e')
  with assms(1) sum_list_update_watch [of i "pl_streams s" w] show ?thesis
    by (auto simp: life_inv_def split: life_phase.splits)
next
  case (watch_ends i w e')
  then have "ws_notified w = Suc (ws_notified (pl_streams s ! i))" using watch_step_notified by metis
  with watch_ends assms(1) sum_list_update_watch [of i "pl_streams s" w] show ?thesis
    by (auto simp: life_inv_def notify_one_def split: life_phase.splits)
qed

lemma life_run_inv:
  "life_run p s evs s' \<Longrightarrow> life_inv e from_std p [] s \<Longrightarrow> life_inv e from_std p evs s'"
  by (induction rule: life_run.induct) (auto intro: life_inv_step)

text \<open>Registration always comes back, so the loop stops only in a wait.\<close>

lemma register_round_returns: "\<exists>r. register_round connect rpc p = Some r"
  using registration_retries unfolding register_round_def by metis

lemma loop_moves:
  "(\<exists>ev \<in> {Registered, GaveUp, Reregister, SeesServerExit}. \<exists>s'. life_step p ev s s') \<longleftrightarrow>
     (case pl_phase s of
        PluginRegistering \<Rightarrow> True
      | PluginWaiting \<Rightarrow> pl_woken s \<or> (\<exists>result. pl_server s = ServerDone result)
      | PluginReturned _ \<Rightarrow> False)"
proof (cases "pl_phase s")
  case PluginRegistering
  obtain r where r: "register_round (\<lambda>_ _. Inr ()) (\<lambda>_ _. Inr ()) p = Some r"
    using register_round_returns by blast
  show ?thesis
  proof (cases "rr_result r")
    case (Inl err)
    then have "\<exists>s'. life_step p GaveUp s s'" using life_step.gave_up [OF PluginRegistering r] by blast
    with PluginRegistering show ?thesis by auto
  next
    case (Inr u)
    then have "\<exists>s'. life_step p Registered s s'" using life_step.registered [OF PluginRegistering r] by auto
    with PluginRegistering show ?thesis by auto
  qed
qed (auto elim!: life_stepE intro: life_step.intros)

text \<open>
  C39: every end of a watch stream makes the plugin register again and nothing else does. In every
  interleaving of the loop, the server and the streams, the registrations after the first are at
  most as many as the streams that ended; when a stream has ended since the last of them, a loop
  that waits can register again at once and a loop that still registers finds the stored permit;
  and when \<open>run\<close> has returned, the server does not run and the error is that of the start, of a
  registration given up or of the end of the server.
\<close>
theorem disconnects_reregister:
  assumes "life_run p (life_begin e from_std p) evs s"
  shows "count_list evs Reregister \<le> count_list evs WatchEnds
    \<and> sum_list (map ws_notified (pl_streams s)) = count_list evs WatchEnds
    \<and> (case pl_phase s of
         PluginRegistering \<Rightarrow> pl_permit s \<or> \<not> disconnect_pending evs
       | PluginWaiting \<Rightarrow> (\<exists>s'. life_step p Reregister s s') \<or> \<not> disconnect_pending evs
       | PluginReturned err \<Rightarrow> pl_server s \<noteq> ServerRunning \<and> returns_with e from_std p (pl_server s) err)"
proof -
  have inv: "life_inv e from_std p evs s" by (rule life_run_inv [OF assms life_inv_begin])
  then have "\<exists>s'. life_step p Reregister s s'" if "pl_phase s = PluginWaiting" "disconnect_pending evs"
    using that life_step.kubelet_gone by (auto simp: life_inv_def)
  with inv show ?thesis by (auto simp: life_inv_def split: life_phase.splits)
qed

definition sample_plugin :: device_plugin where
  "sample_plugin = \<lparr>dpg_endpoint = ''/p/w.sock'', dpg_resource_name = ''example.com/w'',
     dpg_service = default_hooks [] (\<lambda>_. Inl (HookFailed [])), dpg_kubelet_socket = kubelet_socket_path\<rparr>"

lemma sample_life:
  "\<exists>s. life_run sample_plugin (life_begin willing_env (Inr ()) sample_plugin) [WatchOpens, WatchEnds] s
     \<and> pl_permit s"
proof -
  let ?s = "life_begin willing_env (Inr ()) sample_plugin"
  let ?w = "watch_start []"
  let ?s1 = "?s\<lparr>pl_streams := [?w]\<rparr>"
  have fresh: "pl_server ?s = ServerRunning" "pl_phase ?s = PluginRegistering" "pl_streams ?s = []"
    by (simp_all add: life_begin_def spawn_server_def plugin_setup_listener_def willing_bind res_simps)
  have "life_step sample_plugin WatchOpens ?s ?s1"
    using life_step.watch_opens [OF fresh(1), of sample_plugin "[]"] fresh(3) by simp
  moreover have "life_step sample_plugin WatchEnds ?s1 (notify_one (?s1\<lparr>pl_streams := (pl_streams ?s1)[0 := watch_step ReceiverClosed ?w]\<rparr>))"
    by (rule life_step.watch_ends [where e = ReceiverClosed]) (simp_all add: watch_start_def end_watch_def Let_def)
  ultimately have "life_run sample_plugin ?s (([] @ [WatchOpens]) @ [WatchEnds])
      (notify_one (?s1\<lparr>pl_streams := (pl_streams ?s1)[0 := watch_step ReceiverClosed ?w]\<rparr>))"
    by (rule life_run.one_more [OF life_run.one_more [OF life_run.no_events]])
  moreover have "pl_permit (notify_one t)" if "pl_phase t = PluginRegistering" for t
    using that by (simp add: notify_one_def)
  ultimately show ?thesis using fresh(2) by fastforce
qed

theorem disconnects_reregister_witness:
  "\<exists>s. pl_permit s \<and> count_list [WatchOpens, WatchEnds] Reregister \<le> count_list [WatchOpens, WatchEnds] WatchEnds
    \<and> sum_list (map ws_notified (pl_streams s)) = count_list [WatchOpens, WatchEnds] WatchEnds
    \<and> (case pl_phase s of
         PluginRegistering \<Rightarrow> pl_permit s \<or> \<not> disconnect_pending [WatchOpens, WatchEnds]
       | PluginWaiting \<Rightarrow> (\<exists>s'. life_step sample_plugin Reregister s s') \<or> \<not> disconnect_pending [WatchOpens, WatchEnds]
       | PluginReturned err \<Rightarrow> pl_server s \<noteq> ServerRunning
           \<and> returns_with willing_env (Inr ()) sample_plugin (pl_server s) err)"
  using sample_life disconnects_reregister by blast

end
