(* ===== verification/Example_Plugins.thy ===== *)
theory Example_Plugins
  imports Plugin_Life
begin

text \<open>
  The device plugins of the repository: the deployable plugin of \<open>example/src/main.rs\<close> and the
  examples under \<open>lib/examples\<close>. The environment is a partial function from variables to values;
  \<open>exists\<close> says which host paths exist.
\<close>

subsection \<open>The plugin that is configured by its environment\<close>

definition DEFAULT_RESOURCE_NAME :: string where "DEFAULT_RESOURCE_NAME = ''example.com/widget''"

text \<open>The closure over the paths, with the IDs seen so far; \<open>collect\<close> stops at the first error.\<close>

fun parse_paths :: "string set \<Rightarrow> string list \<Rightarrow> io_error + device list" where
  "parse_paths ids [] = Inr []"
| "parse_paths ids (path # paths) =
     (let i = (case file_name path of Some name \<Rightarrow> name | None \<Rightarrow> path)
      in if i \<in> ids then Inl (IoError InvalidInput (''duplicate DEVICE_PATHS device ID '' @ i))
         else res_map ((#) (device_rdwr i path)) (parse_paths (insert i ids) paths))"

definition parse_devices :: "string \<Rightarrow> io_error + device list" where
  "parse_devices paths =
     parse_paths {} (filter (\<lambda>path. path \<noteq> []) (map trim (split_on (CHR '','') paths)))"

definition deploy_plugin ::
    "(string \<Rightarrow> string) \<Rightarrow> (string \<Rightarrow> bool) \<Rightarrow> (string \<Rightarrow> string option) \<Rightarrow> io_error + device_plugin" where
  "deploy_plugin dbg exists vars =
     (let resource_name = (case vars ''RESOURCE_NAME'' of Some name \<Rightarrow> name | None \<Rightarrow> DEFAULT_RESOURCE_NAME);
          device_paths = (case vars ''DEVICE_PATHS'' of Some paths \<Rightarrow> paths | None \<Rightarrow> [])
      in res_bind (parse_devices device_paths) (\<lambda>devices.
         let service = plugin_service_new (static_plugin exists devices)
         in res_map_err (\<lambda>error. io_other (show_validation_error dbg error))
              (device_plugin_new resource_name (psv_plugin service))))"

definition deploy_main ::
    "(string \<Rightarrow> string) \<Rightarrow> (string \<Rightarrow> bool) \<Rightarrow> socket_env \<Rightarrow> io_error + unit \<Rightarrow> (string \<Rightarrow> string option)
      \<Rightarrow> io_error + plugin_life" where
  "deploy_main dbg exists e from_std vars = res_map (life_begin e from_std) (deploy_plugin dbg exists vars)"

subsection \<open>The widget plugins\<close>

definition make_device :: "string \<Rightarrow> health \<Rightarrow> device" where
  "make_device i health = device_health (device_rdwr i (''/dev/'' @ i)) health"

definition widget_devices :: "device list" where
  "widget_devices = [make_device ''widget-0'' Healthy, make_device ''widget-1'' Healthy]"

text \<open>The loop that gathers the paths of the requested devices.\<close>

definition widget_paths :: "device list \<Rightarrow> string list \<Rightarrow> allocation_error + device_path list" where
  "widget_paths devices device_ids =
     res_map concat (traverse (\<lambda>i.
       res_bind (ok_or (DeviceNotFound i) (List.find (\<lambda>device. dev_id device = i) devices)) (\<lambda>device.
       Inr (dev_paths device))) device_ids)"

definition widget_allocate :: "device list \<Rightarrow> string list \<Rightarrow> allocation_error + container_allocation" where
  "widget_allocate devices device_ids =
     res_map (\<lambda>device_paths. container_allocation_default
         \<lparr>ca_device_paths := device_paths,
          ca_envs := bt_collect [(''EXAMPLE_WIDGET_DEVICES'', join_with (CHR '','') device_ids)]\<rparr>)
       (widget_paths devices device_ids)"

fun choose_available :: "nat \<Rightarrow> string list \<Rightarrow> string list \<Rightarrow> string list" where
  "choose_available wanted chosen [] = chosen"
| "choose_available wanted chosen (i # available) =
     (if length chosen \<ge> wanted then chosen
      else if i \<in> set chosen then choose_available wanted chosen available
      else choose_available wanted (chosen @ [i]) available)"

definition widget_preferred_allocation ::
    "string list \<Rightarrow> string list \<Rightarrow> nat \<Rightarrow> allocation_error + string list" where
  "widget_preferred_allocation available must_include wanted =
     Inr (choose_available wanted (take wanted must_include) available)"

definition widget_plugin :: "device list \<Rightarrow> backend" where
  "widget_plugin devices =
     \<lparr>bk_discover = devices, bk_allocate = widget_allocate devices, bk_pre_start_required = True,
      bk_pre_start_container = (\<lambda>_. Inr ()), bk_preferred_available = True,
      bk_preferred_allocation = widget_preferred_allocation\<rparr>"

definition metrics_devices :: "device list" where
  "metrics_devices = [device_rdwr ''widget-0'' ''/dev/widget-0'']"

definition metrics_allocate :: "device list \<Rightarrow> string list \<Rightarrow> allocation_error + container_allocation" where
  "metrics_allocate devices device_ids =
     res_map (\<lambda>device_paths. container_allocation_default\<lparr>ca_device_paths := device_paths\<rparr>)
       (widget_paths devices device_ids)"

definition metrics_plugin :: "device list \<Rightarrow> backend" where
  "metrics_plugin devices = default_hooks devices (metrics_allocate devices)"

text \<open>The three programs; \<open>expect\<close> panics on an error.\<close>

definition example_plugin :: "validation_error + device_plugin" where
  "example_plugin = device_plugin_new DEFAULT_RESOURCE_NAME
     (psv_plugin (plugin_service_new (widget_plugin widget_devices)))"

definition example_plugin_with_metrics :: "validation_error + device_plugin" where
  "example_plugin_with_metrics = device_plugin_new DEFAULT_RESOURCE_NAME
     (psv_plugin (plugin_service_new (metrics_plugin metrics_devices)))"

definition static_device_plugin :: "(string \<Rightarrow> bool) \<Rightarrow> validation_error + device_plugin" where
  "static_device_plugin exists = device_plugin_new DEFAULT_RESOURCE_NAME
     (psv_plugin (plugin_service_new (static_plugin exists [device_rdwr ''widget-0'' ''/dev/widget0''])))"

subsection \<open>The metrics layer\<close>

text \<open>
  The extensions of the open spans (when a tracked span started), the call counters and the
  observed durations. \<open>name\<close> is what the registry knows about the span of an event; it drops the
  extensions of a span that was closed.
\<close>

definition TRACKED_SPANS :: "string list" where
  "TRACKED_SPANS = [''run'', ''try_register'', ''list_and_watch'', ''allocate'', ''pre_start_container'',
     ''get_preferred_allocation'']"

record rpc_metrics =
  rm_starts :: "nat \<Rightarrow> nat option"
  rm_calls :: "string \<Rightarrow> nat"
  rm_durations :: "(string \<times> nat) list"

definition rpc_metrics_register :: rpc_metrics where
  "rpc_metrics_register = \<lparr>rm_starts = (\<lambda>_. None), rm_calls = (\<lambda>_. 0), rm_durations = []\<rparr>"

definition on_new_span :: "nat \<Rightarrow> string option \<Rightarrow> nat \<Rightarrow> rpc_metrics \<Rightarrow> rpc_metrics" where
  "on_new_span now name span m =
     (case name of
        None \<Rightarrow> m
      | Some name \<Rightarrow>
          if name \<in> set TRACKED_SPANS then m\<lparr>rm_starts := (rm_starts m)(span \<mapsto> now)\<rparr> else m)"

definition on_close :: "nat \<Rightarrow> string option \<Rightarrow> nat \<Rightarrow> rpc_metrics \<Rightarrow> rpc_metrics" where
  "on_close now name span m =
     (case name of
        None \<Rightarrow> m
      | Some rpc \<Rightarrow>
          (case rm_starts m span of
             None \<Rightarrow> m
           | Some start \<Rightarrow>
               m\<lparr>rm_starts := (rm_starts m)(span := None), rm_calls := (rm_calls m)(rpc := rm_calls m rpc + 1),
                 rm_durations := rm_durations m @ [(rpc, now - start)]\<rparr>))"

subsection \<open>What is configured\<close>

definition path_id :: "string \<Rightarrow> string" where
  "path_id path = (case file_name path of Some name \<Rightarrow> name | None \<Rightarrow> path)"

definition configured_paths :: "(string \<Rightarrow> string option) \<Rightarrow> string list" where
  "configured_paths vars =
     filter (\<lambda>path. path \<noteq> []) (map trim (split_on (CHR '','') (case vars ''DEVICE_PATHS'' of Some paths \<Rightarrow> paths | None \<Rightarrow> [])))"

lemma parse_paths_ok:
  "parse_paths ids paths = Inr ds \<longleftrightarrow>
     distinct (map path_id paths) \<and> ids \<inter> path_id ` set paths = {}
     \<and> ds = map (\<lambda>path. device_rdwr (path_id path) path) paths"
  by (induction ids paths arbitrary: ds rule: parse_paths.induct)
    (auto simp: Let_def path_id_def [symmetric] res_simps)

lemma deploy_plugin_ok:
  "deploy_plugin dbg exists vars = Inr p \<Longrightarrow>
     distinct (map path_id (configured_paths vars))
     \<and> dpg_service p = static_plugin exists (map (\<lambda>path. device_rdwr (path_id path) path) (configured_paths vars))"
  by (auto simp: deploy_plugin_def parse_devices_def configured_paths_def parse_paths_ok res_simps Let_def
      device_plugin_new_def plugin_service_new_def)

lemma deploy_plugin_exists:
  assumes "distinct (map path_id (configured_paths vars))"
    and "validate_resource_name (case vars ''RESOURCE_NAME'' of Some name \<Rightarrow> name | None \<Rightarrow> DEFAULT_RESOURCE_NAME) = Inr ()"
  shows "\<exists>p. deploy_plugin dbg exists vars = Inr p"
proof -
  have "parse_devices (case vars ''DEVICE_PATHS'' of Some paths \<Rightarrow> paths | None \<Rightarrow> [])
      = Inr (map (\<lambda>path. device_rdwr (path_id path) path) (configured_paths vars))"
    using assms(1) by (simp add: parse_devices_def parse_paths_ok configured_paths_def)
  with assms(2) show ?thesis by (simp add: deploy_plugin_def Let_def device_plugin_new_def)
qed

lemma distinct_filter_one:
  "distinct (map f xs) \<Longrightarrow> x \<in> set xs \<Longrightarrow> filter (\<lambda>y. f y = f x) xs = [x]"
  by (induction xs) (auto simp: filter_empty_conv image_iff)

text \<open>One configured device, asked for alone.\<close>

lemma static_allocate_one:
  assumes "distinct (map path_id paths)" "path \<in> set paths"
  shows "static_allocate exists (map (\<lambda>path. device_rdwr (path_id path) path) paths) [path_id path] =
    (if exists path then Inr (container_allocation_default\<lparr>ca_device_paths := [device_path_rdwr path]\<rparr>)
     else Inl (DeviceUnavailable (path_id path @ '': host path '' @ path @ '' does not exist'')))"
proof -
  have "List.find (\<lambda>d. dev_id d = path_id path) (map (\<lambda>path. device_rdwr (path_id path) path) paths)
      = Some (device_rdwr (path_id path) path)"
    using assms by (intro iffD2 [OF find_by_id]) (auto simp: device_rdwr_def comp_def)
  then show ?thesis
    by (simp add: static_allocate_def static_device_def ensure_def device_rdwr_def device_path_rdwr_def)
qed

text \<open>
  C40: the plugin that is configured by \<open>DEVICE_PATHS\<close> serves what it advertises. Every device that
  it advertises to the kubelet stands for one configured path, no two share an ID, and a container
  that asks for the device is given that path, for reading and writing, exactly when it exists;
  otherwise the answer is that it is unavailable.
\<close>
theorem deployed_plugin_serves:
  assumes "deploy_plugin dbg exists vars = Inr p"
    and "d \<in> set (ws_last_devices (watch_start (bk_discover (dpg_service p))))"
  shows "\<exists>path. path \<in> set (configured_paths vars) \<and> dev_id d = path_id path
    \<and> filter (\<lambda>q. path_id q = dev_id d) (configured_paths vars) = [path]
    \<and> allocate dbg [(0, allocate_task (dpg_service p) [[dev_id d]] 0)] =
        (if exists path
         then Inr [container_allocation_to_response
           (container_allocation_default\<lparr>ca_device_paths := [device_path_rdwr path]\<rparr>)]
         else Inl (Status Unavailable
           (''device unavailable: '' @ path_id path @ '': host path '' @ path @ '' does not exist'')))"
proof -
  let ?device = "\<lambda>path. device_rdwr (path_id path) path"
  note p = deploy_plugin_ok [OF assms(1)]
  have "d \<in> set (valid_devices (map ?device (configured_paths vars)))"
    using assms(2) p by (simp add: watch_start_def static_plugin_def default_hooks_def Let_def)
  then obtain path where path: "path \<in> set (configured_paths vars)" "d = ?device path" "device_validate d = Inr ()"
    by (auto simp: set_valid_devices)
  have absolute: "container_allocation_validate (container_allocation_default\<lparr>ca_device_paths := [device_path_rdwr path]\<rparr>) = Inr ()"
    using path(2,3)
    by (simp add: device_validate_ok container_allocation_validate_ok container_allocation_default_def device_rdwr_def)
  have "filter (\<lambda>q. path_id q = path_id path) (configured_paths vars) = [path]"
    using p path(1) distinct_filter_one by metis
  moreover have "one_allocation dbg (Joined (bk_allocate (dpg_service p) [path_id path])) =
      (if exists path
       then Inr (container_allocation_to_response
         (container_allocation_default\<lparr>ca_device_paths := [device_path_rdwr path]\<rparr>))
       else Inl (Status Unavailable
         (''device unavailable: '' @ path_id path @ '': host path '' @ path @ '' does not exist'')))"
    using p path(1) absolute
    by (simp add: static_plugin_def default_hooks_def static_allocate_one one_allocation_def
        allocation_error_to_status_def)
  ultimately show ?thesis
    using path(1,2) allocate_outcome [of "[(0, allocate_task (dpg_service p) [[dev_id d]] 0)]"
        "[Joined (bk_allocate (dpg_service p) [dev_id d])]" dbg]
    by (intro exI [of _ path]) (auto simp: allocate_task_def device_rdwr_def split: if_splits)
qed

text \<open>Two paths with spaces and an empty entry between them; the second does not exist.\<close>

definition sample_vars :: "string \<Rightarrow> string option" where
  "sample_vars = [''DEVICE_PATHS'' \<mapsto> '' /dev/widget0 ,, /dev/nested/widget1'']"

definition sample_deployed :: device_plugin where
  "sample_deployed = projr (deploy_plugin (\<lambda>s. s) (\<lambda>path. path = ''/dev/widget0'') sample_vars)"

theorem deployed_plugin_serves_witness:
  "\<exists>path. path \<in> set (configured_paths sample_vars) \<and> dev_id (device_rdwr ''widget1'' ''/dev/nested/widget1'') = path_id path
    \<and> filter (\<lambda>q. path_id q = ''widget1'') (configured_paths sample_vars) = [path]
    \<and> allocate (\<lambda>s. s) [(0, allocate_task (dpg_service sample_deployed) [[''widget1'']] 0)] =
        (if path = ''/dev/widget0''
         then Inr [container_allocation_to_response
           (container_allocation_default\<lparr>ca_device_paths := [device_path_rdwr path]\<rparr>)]
         else Inl (Status Unavailable
           (''device unavailable: '' @ path_id path @ '': host path '' @ path @ '' does not exist'')))"
proof -
  let ?exists = "\<lambda>path. path = ''/dev/widget0''"
  have paths: "configured_paths sample_vars = [''/dev/widget0'', ''/dev/nested/widget1'']" by code_simp
  have "distinct (map path_id (configured_paths sample_vars))" by code_simp
  moreover have "validate_resource_name (case sample_vars ''RESOURCE_NAME'' of Some name \<Rightarrow> name
      | None \<Rightarrow> DEFAULT_RESOURCE_NAME) = Inr ()" by code_simp
  ultimately have deployed: "deploy_plugin (\<lambda>s. s) ?exists sample_vars = Inr sample_deployed"
    using deploy_plugin_exists [of sample_vars "\<lambda>s. s" ?exists] by (auto simp: sample_deployed_def)
  have "path_id ''/dev/nested/widget1'' = ''widget1''" by code_simp
  moreover have "device_validate (device_rdwr ''widget1'' ''/dev/nested/widget1'') = Inr ()" by code_simp
  ultimately have "device_rdwr ''widget1'' ''/dev/nested/widget1''
      \<in> set (ws_last_devices (watch_start (bk_discover (dpg_service sample_deployed))))"
    using deploy_plugin_ok [OF deployed]
    by (simp add: paths watch_start_def static_plugin_def default_hooks_def Let_def set_valid_devices)
  from deployed_plugin_serves [OF deployed this] show ?thesis by (simp add: device_rdwr_def)
qed

subsection \<open>The preferred devices\<close>

lemma choose_available_spec:
  "distinct chosen \<Longrightarrow> length chosen \<le> wanted \<Longrightarrow>
     \<exists>more. choose_available wanted chosen available = chosen @ more \<and> distinct (chosen @ more)
       \<and> set more \<subseteq> set available
       \<and> length (chosen @ more) = min wanted (card (set chosen \<union> set available))"
proof (induction wanted chosen available rule: choose_available.induct)
  case (1 wanted chosen)
  then show ?case by (simp add: distinct_card)
next
  case (2 wanted chosen i available)
  consider (full) "length chosen = wanted" | (known) "length chosen < wanted" "i \<in> set chosen"
    | (new) "length chosen < wanted" "i \<notin> set chosen"
    using "2.prems"(2) by linarith
  then show ?case
  proof cases
    case full
    have "card (set chosen) \<le> card (set chosen \<union> set (i # available))" by (intro card_mono) auto
    then have "length chosen \<le> card (set chosen \<union> set (i # available))"
      using "2.prems"(1) by (simp add: distinct_card)
    with full "2.prems"(1) show ?thesis by simp
  next
    case known
    with "2.IH"(1) "2.prems" show ?thesis by (auto simp: insert_absorb)
  next
    case new
    with "2.IH"(2) "2.prems" obtain more where "choose_available wanted (chosen @ [i]) available = (chosen @ [i]) @ more"
        "distinct ((chosen @ [i]) @ more)" "set more \<subseteq> set available"
        "length ((chosen @ [i]) @ more) = min wanted (card (set (chosen @ [i]) \<union> set available))"
      by auto
    with new show ?thesis by (intro exI [of _ "i # more"]) auto
  qed
qed

text \<open>
  Asked for as many devices as are available or fewer, the widget plugin chooses exactly that many
  of them, without repetition, beginning with those it must include.
\<close>

lemma preferred_fills:
  assumes "distinct must" "set must \<subseteq> set available" "length must \<le> wanted" "wanted \<le> card (set available)"
  shows "\<exists>more. widget_preferred_allocation available must wanted = Inr (must @ more)
    \<and> distinct (must @ more) \<and> set (must @ more) \<subseteq> set available \<and> length (must @ more) = wanted"
proof -
  have "set must \<union> set available = set available" using assms(2) by blast
  then show ?thesis
    using choose_available_spec [OF assms(1,3), of available] assms(2,3,4)
    by (auto simp: widget_preferred_allocation_def)
qed

subsection \<open>The allocations of the widget plugins\<close>

lemma widget_paths_ok:
  "widget_paths devices ids = Inr ps \<longleftrightarrow>
     (\<exists>found. list_all2 (\<lambda>i d. List.find (\<lambda>d. dev_id d = i) devices = Some d) ids found
        \<and> ps = concat (map dev_paths found))"
proof -
  have "list_all2 (\<lambda>i ps. res_bind (ok_or (DeviceNotFound i) (List.find (\<lambda>d. dev_id d = i) devices))
        (\<lambda>d. Inr (dev_paths d)) = Inr ps) ids pss \<longleftrightarrow>
      (\<exists>found. list_all2 (\<lambda>i d. List.find (\<lambda>d. dev_id d = i) devices = Some d) ids found
        \<and> pss = map dev_paths found)" for pss
    by (induction ids arbitrary: pss) (fastforce simp: list_all2_Cons1 res_simps)+
  then show ?thesis by (auto simp: widget_paths_def res_simps)
qed

lemma widget_paths_valid:
  assumes "widget_paths (valid_devices ds) ids = Inr ps"
  shows "\<forall>p \<in> set ps. device_path_validate p = Inr ()"
proof -
  obtain found where found: "list_all2 (\<lambda>i d. List.find (\<lambda>d. dev_id d = i) (valid_devices ds) = Some d) ids found"
      "ps = concat (map dev_paths found)"
    using assms by (auto simp: widget_paths_ok)
  from found(1) have "set found \<subseteq> set (valid_devices ds)"
    by (induction rule: list_all2_induct) (auto simp: find_Some_iff)
  with found(2) show ?thesis by (auto simp: set_valid_devices device_validate_ok device_path_validate_ok)
qed

interpretation widgets: allocator "widget_allocate (valid_devices ds)" for ds
  by unfold_locales
    (auto simp: widget_allocate_def res_simps container_allocation_validate_ok container_allocation_default_def
      device_path_validate_ok dest: widget_paths_valid)

interpretation metrics: allocator "metrics_allocate (valid_devices ds)" for ds
  by unfold_locales
    (auto simp: metrics_allocate_def res_simps container_allocation_validate_ok container_allocation_default_def
      device_path_validate_ok dest: widget_paths_valid)

subsection \<open>Counted calls\<close>

text \<open>Every counted call has one observed duration, and only tracked spans are counted.\<close>

definition metrics_ok :: "(nat \<Rightarrow> string option) \<Rightarrow> rpc_metrics \<Rightarrow> bool" where
  "metrics_ok names m \<longleftrightarrow>
     (\<forall>rpc. rm_calls m rpc = count_list (map fst (rm_durations m)) rpc)
     \<and> (\<forall>span. rm_starts m span \<noteq> None \<longrightarrow> (\<exists>name \<in> set TRACKED_SPANS. names span = Some name))
     \<and> set (map fst (rm_durations m)) \<subseteq> set TRACKED_SPANS"

lemma metrics_ok_steps:
  "metrics_ok names rpc_metrics_register"
  "metrics_ok names m \<Longrightarrow> metrics_ok names (on_new_span now (names span) span m)"
  "metrics_ok names m \<Longrightarrow> metrics_ok names (on_close now (names span) span m)"
  by (auto simp: metrics_ok_def rpc_metrics_register_def on_new_span_def on_close_def split: option.splits)

end
