(* ===== verification/Socket_Startup.thy ===== *)
theory Socket_Startup
  imports Unix_Socket
begin

text \<open>
  Any number of processes that start on one socket path, with their calls interleaved in any order.
  Each runs \<open>bind_unix_listener\<close> of \<open>Unix_Socket\<close> call by call; a process may die at any call, or
  later, and start again. The operating system answers as documented: one process holds an exclusive
  lock until it closes the file or dies, a name can be bound only when it is free, a connection is
  accepted only by a live listener, refused only when there is none, and a dead listener leaves its
  socket file. Apart from that every call may fail in any way. Nobody else touches the path.
\<close>

subsection \<open>The system\<close>

datatype path_state = Absent | Stale | Active nat | NotASocket

datatype startup_state = Offline | Starting socket_program | Listening | GivenUp io_error

record host =
  sh_path :: path_state
  sh_lock :: "nat option"
  sh_procs :: "nat \<Rightarrow> startup_state"

text \<open>What the system may answer to a call of process \<open>i\<close>, and the path and the lock after it.\<close>

inductive os_answer ::
    "nat \<Rightarrow> socket_call \<Rightarrow> path_state \<Rightarrow> nat option \<Rightarrow> io_error + unit \<Rightarrow> path_state \<Rightarrow> nat option \<Rightarrow> bool"
  for i where
  lock_opened: "os_answer i (OpenLock f) p l r p l"
| lock_taken: "os_answer i LockFile p None (Inr ()) p (Some i)"
| lock_fails: "os_answer i LockFile p l (Inl e) p l"
| bound: "os_answer i (BindSocket f) Absent l (Inr ()) (Active i) l"
| bind_fails: "io_error_kind e = AddrInUse \<longrightarrow> p \<noteq> Absent \<Longrightarrow> os_answer i (BindSocket f) p l (Inl e) p l"
| accepted: "os_answer i (ConnectSocket f) (Active j) l (Inr ()) (Active j) l"
| connect_fails: "io_error_kind e = ConnectionRefused \<longrightarrow> p = Stale \<or> p = NotASocket \<Longrightarrow>
     io_error_kind e = NotFound \<longrightarrow> p = Absent \<Longrightarrow> os_answer i (ConnectSocket f) p l (Inl e) p l"
| removed: "p \<noteq> Absent \<Longrightarrow> os_answer i (RemoveSocket f) p l (Inr ()) Absent l"
| remove_fails: "os_answer i (RemoveSocket f) p l (Inl e) p l"
| nonblocking: "os_answer i SetNonblocking p l r p l"
| listener_closed: "os_answer i CloseListener p l r (if p = Active i then Stale else p) l"
| lock_closed: "os_answer i CloseLock p l r p (if l = Some i then None else l)"

inductive_cases os_answerE: "os_answer i c p l r p' l'"

inductive host_step :: "string \<Rightarrow> host \<Rightarrow> host \<Rightarrow> bool" for path where
  starts: "sh_procs s i \<in> {Offline, GivenUp e} \<Longrightarrow>
     host_step path s (s\<lparr>sh_procs := (sh_procs s)(i := Starting (bind_unix_listener path))\<rparr>)"
| calls: "sh_procs s i = Starting (Ask c k) \<Longrightarrow> os_answer i c (sh_path s) (sh_lock s) r p l \<Longrightarrow>
     host_step path s (s\<lparr>sh_path := p, sh_lock := l, sh_procs := (sh_procs s)(i := Starting (k r))\<rparr>)"
| returns: "sh_procs s i = Starting (Finish r) \<Longrightarrow>
     host_step path s (s\<lparr>sh_procs := (sh_procs s)(i := case r of Inr _ \<Rightarrow> Listening | Inl e \<Rightarrow> GivenUp e)\<rparr>)"
| dies: "host_step path s
     (s\<lparr>sh_path := (if sh_path s = Active i then Stale else sh_path s),
        sh_lock := (if sh_lock s = Some i then None else sh_lock s),
        sh_procs := (sh_procs s)(i := Offline)\<rparr>)"

text \<open>At the start nobody runs; the path may be in any state that is left without a process.\<close>

inductive host_reaches :: "string \<Rightarrow> host \<Rightarrow> bool" for path where
  start: "p \<in> {Absent, Stale, NotASocket} \<Longrightarrow>
     host_reaches path \<lparr>sh_path = p, sh_lock = None, sh_procs = (\<lambda>_. Offline)\<rparr>"
| more: "host_reaches path s \<Longrightarrow> host_step path s t \<Longrightarrow> host_reaches path t"

subsection \<open>The discipline of a program\<close>

text \<open>
  What a process knows between two calls: it has nothing, it holds the lock, it holds the lock and
  has seen that the file has no listener, it holds the lock and the socket, or the socket only.
\<close>

datatype stage = Outside | Locked | SeenStale | Bound | Owner

fun stage_holds :: "nat \<Rightarrow> stage \<Rightarrow> path_state \<Rightarrow> nat option \<Rightarrow> bool" where
  "stage_holds i Outside p l \<longleftrightarrow> l \<noteq> Some i \<and> p \<noteq> Active i"
| "stage_holds i Locked p l \<longleftrightarrow> l = Some i \<and> p \<noteq> Active i"
| "stage_holds i SeenStale p l \<longleftrightarrow> l = Some i \<and> (p = Stale \<or> p = NotASocket)"
| "stage_holds i Bound p l \<longleftrightarrow> l = Some i \<and> p = Active i"
| "stage_holds i Owner p l \<longleftrightarrow> l \<noteq> Some i \<and> p = Active i"

text \<open>The stage after an answer; \<open>None\<close> when the call is not allowed at the stage.\<close>

fun next_stage :: "socket_call \<Rightarrow> io_error + unit \<Rightarrow> stage \<Rightarrow> stage option" where
  "next_stage (OpenLock _) r Outside = Some Outside"
| "next_stage LockFile r Outside = Some (case r of Inr _ \<Rightarrow> Locked | Inl _ \<Rightarrow> Outside)"
| "next_stage (BindSocket _) r Locked = Some (case r of Inr _ \<Rightarrow> Bound | Inl _ \<Rightarrow> Locked)"
| "next_stage (ConnectSocket _) r Locked =
     Some (case r of Inr _ \<Rightarrow> Locked
       | Inl e \<Rightarrow> if io_error_kind e = ConnectionRefused then SeenStale else Locked)"
| "next_stage (RemoveSocket _) r SeenStale = Some Locked"
| "next_stage SetNonblocking r Bound = Some Bound"
| "next_stage CloseListener r Bound = Some Locked"
| "next_stage CloseLock r Bound = Some Owner"
| "next_stage CloseLock r st = (if st = Owner then None else Some Outside)"
| "next_stage _ r st = None"

primrec disciplined :: "socket_program \<Rightarrow> stage \<Rightarrow> bool" where
  "disciplined (Finish r) st \<longleftrightarrow> st = (case r of Inr _ \<Rightarrow> Owner | Inl _ \<Rightarrow> Outside)"
| "disciplined (Ask c k) st \<longleftrightarrow>
     (\<forall>r. case next_stage c r st of None \<Rightarrow> False | Some st' \<Rightarrow> disciplined (k r) st')"

lemma listener_disciplined: "disciplined (bind_unix_listener path) Outside"
  by (simp add: socket_defs split: sum.splits)

text \<open>A call that the discipline allows does what the next stage says, and disturbs no other process.\<close>

lemma os_answer_stage:
  assumes "os_answer i c p l r p' l'" "next_stage c r st = Some st'" "stage_holds i st p l"
  shows "stage_holds i st' p' l'"
  using assms by (cases st; cases rule: os_answer.cases) (auto split: if_splits sum.splits)

lemma os_answer_others:
  assumes "os_answer i c p l r p' l'" "next_stage c r st = Some st'" "stage_holds i st p l"
    and "stage_holds j st2 p l" "j \<noteq> i"
  shows "stage_holds j st2 p' l'"
  using assms by (cases st; cases st2; cases rule: os_answer.cases) (auto split: if_splits sum.splits)

subsection \<open>The invariant\<close>

fun proc_stage :: "startup_state \<Rightarrow> stage \<Rightarrow> bool" where
  "proc_stage (Starting q) st \<longleftrightarrow> disciplined q st"
| "proc_stage Listening st \<longleftrightarrow> st = Owner"
| "proc_stage _ st \<longleftrightarrow> st = Outside"

definition host_inv :: "host \<Rightarrow> bool" where
  "host_inv s \<longleftrightarrow> (\<forall>i. \<exists>st. proc_stage (sh_procs s i) st \<and> stage_holds i st (sh_path s) (sh_lock s))"

lemma host_invI:
  assumes "host_inv s" "proc_stage (sh_procs t i) st" "stage_holds i st (sh_path t) (sh_lock t)"
    and "\<And>j st2. j \<noteq> i \<Longrightarrow> stage_holds j st2 (sh_path s) (sh_lock s) \<Longrightarrow> stage_holds j st2 (sh_path t) (sh_lock t)"
    and "\<And>j. j \<noteq> i \<Longrightarrow> sh_procs t j = sh_procs s j"
  shows "host_inv t"
  unfolding host_inv_def
proof
  fix j
  show "\<exists>st. proc_stage (sh_procs t j) st \<and> stage_holds j st (sh_path t) (sh_lock t)"
    using assms by (cases "j = i") (auto simp: host_inv_def, metis)
qed

lemma death_others:
  "j \<noteq> i \<Longrightarrow> stage_holds j st p l \<Longrightarrow>
     stage_holds j st (if p = Active i then Stale else p) (if l = Some i then None else l)"
  by (cases st) auto

lemma host_inv_step: "host_step path s t \<Longrightarrow> host_inv s \<Longrightarrow> host_inv t"
proof (induction rule: host_step.induct)
  case (starts s i e)
  obtain st where "proc_stage (sh_procs s i) st" "stage_holds i st (sh_path s) (sh_lock s)"
    using starts(2) by (auto simp: host_inv_def)
  with starts(1) have "stage_holds i Outside (sh_path s) (sh_lock s)" by auto
  then show ?case
    by (intro host_invI [OF starts(2), of _ i Outside]) (simp_all add: listener_disciplined)
next
  case (calls s i c k r p l)
  from calls(3) obtain st where "proc_stage (sh_procs s i) st" and st: "stage_holds i st (sh_path s) (sh_lock s)"
    by (auto simp: host_inv_def)
  with calls(1) obtain st' where st': "next_stage c r st = Some st'" "disciplined (k r) st'"
    by (auto split: option.splits)
  show ?case
    by (rule host_invI [OF calls(3), of _ i st'])
      (use os_answer_stage [OF calls(2) st'(1) st] os_answer_others [OF calls(2) st'(1) st] st'(2) in simp_all)
next
  case (returns s i r)
  from returns(2) obtain st where st: "proc_stage (sh_procs s i) st" "stage_holds i st (sh_path s) (sh_lock s)"
    by (auto simp: host_inv_def)
  show ?case
    by (rule host_invI [OF returns(2), of _ i st]) (use st returns(1) in \<open>auto split: sum.splits\<close>)
next
  case (dies s i)
  then show ?case by (rule host_invI [of s _ i Outside]) (auto simp: death_others)
qed

lemma host_reaches_inv: "host_reaches path s \<Longrightarrow> host_inv s"
proof (induction rule: host_reaches.induct)
  case (start p)
  then show ?case by (auto simp: host_inv_def intro!: exI [of _ Outside])
qed (rule host_inv_step)

subsection \<open>Nobody is stuck behind the lock\<close>

lemma holder_moves:
  assumes "proc_stage (sh_procs s i) st" "stage_holds i st (sh_path s) (sh_lock s)" "sh_lock s = Some i"
  shows "\<exists>c k r p l. sh_procs s i = Starting (Ask c k) \<and> os_answer i c (sh_path s) (sh_lock s) r p l"
proof -
  have st: "st \<in> {Locked, SeenStale, Bound}" using assms(2,3) by (cases st) auto
  with assms(1) obtain q where q: "sh_procs s i = Starting q" "disciplined q st"
    by (cases "sh_procs s i") auto
  obtain c k where a: "q = Ask c k" using q(2) st by (cases q) (auto split: sum.splits)
  have "\<exists>r p l. os_answer i c (sh_path s) (sh_lock s) r p l"
  proof (cases c)
    case (BindSocket f)
    then show ?thesis
      using os_answer.bind_fails [of "io_other []" "sh_path s" i f "sh_lock s"] by (auto simp: io_other_def)
  next
    case (ConnectSocket f)
    then show ?thesis
      using os_answer.connect_fails [of "io_other []" "sh_path s" i f "sh_lock s"] by (auto simp: io_other_def)
  qed (blast intro: os_answer.intros)+
  with q(1) a show ?thesis by blast
qed

subsection \<open>The property\<close>

text \<open>
  C14: however the startups of any number of processes on one path interleave, whichever calls fail
  and whichever processes die, a process whose startup succeeded owns the socket for as long as it
  lives: no other startup removes or replaces it, so that there is at most one owner. A process that
  holds the startup lock is in the middle of its own startup, at a call that the system can answer,
  so that nobody waits for the lock of a process that is done.
\<close>
theorem startups_one_owner:
  assumes "host_reaches path s"
  shows "(sh_procs s i = Listening \<longrightarrow> sh_path s = Active i)
    \<and> (sh_procs s i = Listening \<and> sh_procs s j = Listening \<longrightarrow> i = j)
    \<and> (sh_lock s = Some i \<longrightarrow>
         (\<exists>c k r p l. sh_procs s i = Starting (Ask c k) \<and> os_answer i c (sh_path s) (sh_lock s) r p l))"
proof -
  have inv: "\<exists>st. proc_stage (sh_procs s k) st \<and> stage_holds k st (sh_path s) (sh_lock s)" for k
    using host_reaches_inv [OF assms] by (simp add: host_inv_def)
  have owner: "sh_path s = Active k" if "sh_procs s k = Listening" for k
    using inv [of k] that by auto
  moreover from inv [of i] obtain st where
    "proc_stage (sh_procs s i) st" "stage_holds i st (sh_path s) (sh_lock s)" by blast
  moreover have "i = j" if "sh_procs s i = Listening" "sh_procs s j = Listening"
    using owner [OF that(1)] owner [OF that(2)] by simp
  ultimately show ?thesis using holder_moves [of s i st] by blast
qed

text \<open>Process 7 takes over the socket of a dead process, alone on the host.\<close>

definition sample_host :: "startup_state \<Rightarrow> path_state \<Rightarrow> nat option \<Rightarrow> host" where
  "sample_host q p l = \<lparr>sh_path = p, sh_lock = l, sh_procs = (\<lambda>_. Offline)(7 := q)\<rparr>"

lemma startup_call:
  assumes "host_reaches path (sample_host (Starting (Ask c k)) p l)" "os_answer 7 c p l r p' l'"
  shows "host_reaches path (sample_host (Starting (k r)) p' l')"
  using host_reaches.more [OF assms(1) host_step.calls [of _ 7 c k r p' l']] assms(2)
  by (simp add: sample_host_def)

lemma sample_taken_over: "host_reaches path (sample_host Listening (Active 7) None)"
proof -
  have 0: "host_reaches path (sample_host Offline Stale None)"
    using host_reaches.start [of Stale] by (simp add: sample_host_def fun_upd_idem)
  have 1: "host_reaches path (sample_host (Starting (bind_unix_listener path)) Stale None)"
    using host_reaches.more [OF 0 host_step.starts [of _ 7]] by (simp add: sample_host_def)
  note 2 = startup_call [OF 1 [unfolded socket_defs] os_answer.lock_opened [of 7 _ _ _ "Inr ()"], simplified]
  note 3 = startup_call [OF 2 os_answer.lock_taken, simplified]
  note 4 = startup_call [OF 3 os_answer.bind_fails [of "IoError AddrInUse []"], simplified]
  note 5 = startup_call [OF 4 os_answer.connect_fails [of "IoError ConnectionRefused []"], simplified]
  note 6 = startup_call [OF 5 os_answer.removed, simplified]
  note 7 = startup_call [OF 6 os_answer.bound, simplified]
  note 8 = startup_call [OF 7 os_answer.nonblocking [of 7 _ _ "Inr ()"], simplified]
  note 9 = startup_call [OF 8 os_answer.lock_closed [of 7 _ _ "Inr ()"], simplified]
  show ?thesis
    using host_reaches.more [OF 9 host_step.returns [of _ 7 "Inr ()"]] by (simp add: sample_host_def)
qed

theorem startups_one_owner_witness:
  "sh_path (sample_host Listening (Active 7) None) = Active 7"
proof -
  have "sh_procs (sample_host Listening (Active 7) None) 7 = Listening" by (simp add: sample_host_def)
  then show ?thesis using startups_one_owner [OF sample_taken_over, of 7 7] by blast
qed

end
