(* ===== verification/Claim_Objects.thy ===== *)
theory Claim_Objects
  imports Kube
begin

text \<open>
  The part of the Kubernetes object \<open>ResourceClaim\<close> that the DRA runtime reads and writes:
  identity, requests, allocation results and the device statuses of its \<open>status\<close>. Times are in
  seconds; the network data of a status is only copied and compared, and is opaque; \<open>data\<close> is a
  JSON value.
\<close>

datatype json =
    JNull | JBool bool | JNumber string | JString string | JArray "json list" | JObject "(string \<times> json) list"

record claim_request =
  cq_name :: string
  cq_first_available :: "string list option" \<comment> \<open>the names of the subrequests\<close>

record device_claim = dc_requests :: "claim_request list option"

record claim_spec = cs_devices :: "device_claim option"

record allocation_result =
  ar_driver :: string
  ar_pool :: string
  ar_device :: string
  ar_request :: string
  ar_share_id :: "string option"
  ar_binding_conditions :: "string list option"
  ar_binding_failure_conditions :: "string list option"

record device_allocation = da_results :: "allocation_result list option"

record allocation = al_devices :: "device_allocation option"

record condition =
  cn_type :: string
  cn_status :: string
  cn_observed_generation :: "int option"
  cn_reason :: string
  cn_message :: string
  cn_last_transition_time :: int

record device_status =
  as_driver :: string
  as_pool :: string
  as_device :: string
  as_share_id :: "string option"
  as_conditions :: "condition list option"
  as_data :: "json option"
  as_network_data :: "string option"

record claim_status =
  st_allocation :: "allocation option"
  st_devices :: "device_status list option"

record resource_claim =
  cl_namespace :: "string option"
  cl_name :: "string option"
  cl_uid :: "string option"
  cl_resource_version :: "string option"
  cl_generation :: "int option"
  cl_annotations :: "(string, string) btree option"
  cl_spec :: "claim_spec option"
  cl_status :: "claim_status option"

subsection \<open>Reading optional fields\<close>

definition or_empty :: "'a list option \<Rightarrow> 'a list" where
  "or_empty m = (case m of None \<Rightarrow> [] | Some xs \<Rightarrow> xs)"

definition and_then :: "'a option \<Rightarrow> ('a \<Rightarrow> 'b option) \<Rightarrow> 'b option" where
  "and_then m f = (case m of None \<Rightarrow> None | Some x \<Rightarrow> f x)"

lemma or_empty_simps [simp]: "or_empty None = []" "or_empty (Some xs) = xs"
  by (simp_all add: or_empty_def)

lemma and_then_simps [simp]: "and_then None f = None" "and_then (Some x) f = f x"
  by (simp_all add: and_then_def)

definition claim_uid :: "resource_claim \<Rightarrow> string" where
  "claim_uid c = or_empty (cl_uid c)"

definition claim_allocation :: "resource_claim \<Rightarrow> allocation option" where
  "claim_allocation c = and_then (cl_status c) st_allocation"

definition allocation_results :: "allocation \<Rightarrow> allocation_result list" where
  "allocation_results a = or_empty (and_then (al_devices a) da_results)"

definition claim_results :: "resource_claim \<Rightarrow> allocation_result list" where
  "claim_results c =
     or_empty (and_then (and_then (claim_allocation c) al_devices) da_results)"

definition claim_requests :: "resource_claim \<Rightarrow> claim_request list" where
  "claim_requests c = or_empty (and_then (and_then (cl_spec c) cs_devices) dc_requests)"

definition claim_statuses :: "resource_claim \<Rightarrow> device_status list" where
  "claim_statuses c = or_empty (and_then (cl_status c) st_devices)"

lemma claim_results_allocation:
  "claim_allocation c = Some a \<Longrightarrow> claim_results c = allocation_results a"
  by (simp add: claim_results_def allocation_results_def)

text \<open>The results the scheduler made for one driver.\<close>

definition driver_results :: "string \<Rightarrow> resource_claim \<Rightarrow> allocation_result list" where
  "driver_results driver c = filter (\<lambda>r. ar_driver r = driver) (claim_results c)"

text \<open>An allocated claim, for the examples.\<close>

definition sample_claim :: "string \<Rightarrow> allocation_result list \<Rightarrow> resource_claim" where
  "sample_claim uid results =
     \<lparr>cl_namespace = Some ''default'', cl_name = Some ''claim'', cl_uid = Some uid,
      cl_resource_version = Some ''1'', cl_generation = None, cl_annotations = None,
      cl_spec = Some \<lparr>cs_devices = Some \<lparr>dc_requests =
        Some [\<lparr>cq_name = ''widget'', cq_first_available = None\<rparr>]\<rparr>\<rparr>,
      cl_status = Some \<lparr>st_allocation = Some \<lparr>al_devices = Some \<lparr>da_results = Some results\<rparr>\<rparr>,
        st_devices = None\<rparr>\<rparr>"

definition sample_result :: "string \<Rightarrow> string \<Rightarrow> allocation_result" where
  "sample_result driver device =
     \<lparr>ar_driver = driver, ar_pool = ''pool'', ar_device = device, ar_request = ''widget'',
      ar_share_id = None, ar_binding_conditions = None, ar_binding_failure_conditions = None\<rparr>"

end
