(* ===== verification/Claim_Resolver.thy ===== *)
theory Claim_Resolver
  imports Claim_Objects
begin

text \<open>
  \<open>dra/src/claim.rs\<close>: reading the \<open>ResourceClaim\<close> of a claim reference with bounded retries, the
  checks on what was read, and the concurrent resolution of a batch. The API server answers
  the \<open>k\<close>-th read of a claim by \<open>answer k\<close>; \<open>show_err\<close> is the text of a Kubernetes error. The
  stream of \<open>resolve_all_context\<close> is a step relation that starts and finishes reads in any
  order the bound allows.
\<close>

subsection \<open>The resolver\<close>

definition DEFAULT_MAX_CONCURRENT_RESOLVES :: nat where "DEFAULT_MAX_CONCURRENT_RESOLVES = 16"
definition DEFAULT_MAX_ATTEMPTS :: nat where "DEFAULT_MAX_ATTEMPTS = 3"
definition DEFAULT_RETRY_DELAY :: nat where "DEFAULT_RETRY_DELAY = millis 50"

record claim_resolver =
  cv_driver_name :: string
  cv_max_concurrent_resolves :: nat
  cv_max_attempts :: nat
  cv_retry_delay :: nat

definition validate_identity :: "claim_resolver \<Rightarrow> string \<Rightarrow> validation_error + unit" where
  "validate_identity v driver_name =
     res_bind (validate_driver_name driver_name) (\<lambda>_.
       if driver_name \<noteq> cv_driver_name v
       then Inl (DriverNameMismatch driver_name (cv_driver_name v)) else Inr ())"

definition claim_resolver_new :: "string \<Rightarrow> validation_error + claim_resolver" where
  "claim_resolver_new driver_name =
     res_bind (validate_driver_name driver_name) (\<lambda>_.
       Inr \<lparr>cv_driver_name = driver_name,
            cv_max_concurrent_resolves = DEFAULT_MAX_CONCURRENT_RESOLVES,
            cv_max_attempts = DEFAULT_MAX_ATTEMPTS, cv_retry_delay = DEFAULT_RETRY_DELAY\<rparr>)"

definition with_max_concurrent_resolves :: "claim_resolver \<Rightarrow> nat \<Rightarrow> claim_resolver" where
  "with_max_concurrent_resolves v n = v\<lparr>cv_max_concurrent_resolves := max n 1\<rparr>"

definition with_retry_policy :: "claim_resolver \<Rightarrow> nat \<Rightarrow> nat \<Rightarrow> claim_resolver" where
  "with_retry_policy v max_attempts retry_delay =
     v\<lparr>cv_max_attempts := max max_attempts 1, cv_retry_delay := retry_delay\<rparr>"

subsection \<open>Transient errors\<close>

fun is_transient_read_error :: "kube_error \<Rightarrow> bool"
  and transient_chain :: "error_node list \<Rightarrow> bool" where
  "is_transient_read_error (ApiError code reason message) =
     (code = 408 \<or> code = 429 \<or> (500 \<le> code \<and> code \<le> 599))"
| "is_transient_read_error (HyperError text) = True"
| "is_transient_read_error (ServiceError chain) = transient_chain chain"
| "is_transient_read_error (OtherError text) = False"
| "transient_chain [] = False"
| "transient_chain (KubeNode error # sources) = is_transient_read_error error"
| "transient_chain (IoNode kind # sources) =
     (kind \<in> {TimedOut, Interrupted, WouldBlock, ConnectionRefused, ConnectionReset,
        ConnectionAborted, NotConnected, BrokenPipe, UnexpectedEof})"
| "transient_chain (PlainNode text # sources) = transient_chain sources"

subsection \<open>One claim\<close>

text \<open>The loop: the object or the last error, and the number of reads made.\<close>

function fetch_claim ::
    "claim_resolver \<Rightarrow> (nat \<Rightarrow> kube_error + resource_claim) \<Rightarrow> nat
      \<Rightarrow> (kube_error + resource_claim) \<times> nat" where
  "fetch_claim v answer attempt =
     (let attempt = attempt + 1
      in case answer attempt of
           Inr claim \<Rightarrow> (Inr claim, attempt)
         | Inl err \<Rightarrow>
             if attempt < cv_max_attempts v \<and> is_transient_read_error err
             then fetch_claim v answer attempt
             else (Inl err, attempt))"
  by pat_completeness auto
termination
  by (relation "measure (\<lambda>(v, answer, attempt). cv_max_attempts v - attempt)") auto

declare fetch_claim.simps [simp del]

record resolved_context =
  rx_resolved :: resolved_claim
  rx_object :: resource_claim

definition allocated_device_of :: "allocation_result \<Rightarrow> allocated_device" where
  "allocated_device_of r =
     \<lparr>ad_pool_name = ar_pool r, ad_device_name = ar_device r,
      ad_request_name = (if ar_request r = '''' then None else Some (ar_request r))\<rparr>"

text \<open>What follows the loop.\<close>

definition resolve_object ::
    "claim_resolver \<Rightarrow> claim_ref \<Rightarrow> resource_claim \<Rightarrow> prepare_error + resolved_context" where
  "resolve_object v claim_ref claim =
     (let found_uid = claim_uid claim
      in if found_uid \<noteq> cr_uid claim_ref
         then Inl (ResolutionFailed (''ResourceClaim '' @ cr_namespace claim_ref @ ''/''
                @ cr_name claim_ref @ '' uid mismatch: expected '' @ cr_uid claim_ref
                @ '', found '' @ found_uid))
         else res_bind (ok_or (ClaimNotAllocated claim_ref) (claim_allocation claim)) (\<lambda>allocation.
           let local = filter (\<lambda>result. ar_driver result = cv_driver_name v)
                         (allocation_results allocation)
           in if list_ex (\<lambda>result. ar_share_id result \<noteq> None) local
              then Inl (ResolutionFailed ''claim preparation does not yet support device share IDs'')
              else Inr \<lparr>rx_resolved =
                          \<lparr>rc_claim = claim_ref, rc_devices = map allocated_device_of local\<rparr>,
                        rx_object = claim\<rparr>))"

definition resolve_context ::
    "(kube_error \<Rightarrow> string) \<Rightarrow> claim_resolver \<Rightarrow> claim_ref \<Rightarrow> (nat \<Rightarrow> kube_error + resource_claim)
      \<Rightarrow> prepare_error + resolved_context" where
  "resolve_context show_err v claim_ref answer =
     (case fetch_claim v answer 0 of
        (Inl err, attempt) \<Rightarrow>
          Inl (ResolutionFailed (''failed to fetch ResourceClaim '' @ cr_namespace claim_ref @ ''/''
             @ cr_name claim_ref @ '' after '' @ show_nat attempt @ '' attempt(s): '' @ show_err err))
      | (Inr claim, attempt) \<Rightarrow> resolve_object v claim_ref claim)"

definition resolve ::
    "(kube_error \<Rightarrow> string) \<Rightarrow> claim_resolver \<Rightarrow> claim_ref \<Rightarrow> (nat \<Rightarrow> kube_error + resource_claim)
      \<Rightarrow> prepare_error + resolved_claim" where
  "resolve show_err v claim_ref answer =
     res_map rx_resolved (resolve_context show_err v claim_ref answer)"

subsection \<open>A batch\<close>

type_synonym 'a resolutions = "(claim_ref \<times> (prepare_error + 'a)) list"

text \<open>
  \<open>buffer_unordered\<close> with its bound: the references not started, those being read and the results
  in the order in which they came.
\<close>

record 'a batch =
  bt_waiting :: "(nat \<times> claim_ref) list"
  bt_running :: "(nat \<times> claim_ref) list"
  bt_finished :: "(nat \<times> claim_ref \<times> (prepare_error + 'a)) list"

definition batch_start :: "claim_ref list \<Rightarrow> 'a batch" where
  "batch_start claim_refs =
     \<lparr>bt_waiting = enumerate 0 claim_refs, bt_running = [], bt_finished = []\<rparr>"

inductive batch_step ::
    "nat \<Rightarrow> (nat \<Rightarrow> claim_ref \<Rightarrow> prepare_error + 'a) \<Rightarrow> 'a batch \<Rightarrow> 'a batch \<Rightarrow> bool"
  for limit resolve_one where
  begin_read: "bt_waiting s = job # waiting \<Longrightarrow> length (bt_running s) < limit \<Longrightarrow>
     batch_step limit resolve_one s (s\<lparr>bt_waiting := waiting, bt_running := bt_running s @ [job]\<rparr>)"
| end_read: "bt_running s = before @ (index, claim_ref) # after \<Longrightarrow>
     batch_step limit resolve_one s
       (s\<lparr>bt_running := before @ after,
          bt_finished := bt_finished s @ [(index, claim_ref, resolve_one index claim_ref)]\<rparr>)"

inductive_cases batch_stepE: "batch_step limit resolve_one s t"

definition batch_over :: "'a batch \<Rightarrow> bool" where
  "batch_over s \<longleftrightarrow> bt_waiting s = [] \<and> bt_running s = []"

text \<open>The stable sort by position and the projection after the stream has ended.\<close>

definition in_request_order :: "(nat \<times> claim_ref \<times> (prepare_error + 'a)) list \<Rightarrow> 'a resolutions" where
  "in_request_order resolved = map snd (sort_key fst resolved)"

text \<open>
  The stream of the batch, from what the documentation of \<open>buffer_unordered\<close> promises: at most the
  given number of reads runs at once, and their results come as they end, in any order. \<open>pick\<close> is
  which running read ends next, from the number of results so far, and every property holds for
  every \<open>pick\<close>. With a bound of zero the stream never yields anything, which is \<open>None\<close>.
\<close>

function run_batch ::
    "nat \<Rightarrow> (nat \<Rightarrow> nat) \<Rightarrow> (nat \<Rightarrow> claim_ref \<Rightarrow> prepare_error + 'a) \<Rightarrow> 'a batch \<Rightarrow> 'a batch option" where
  "run_batch limit pick resolve_one s =
     (if bt_waiting s \<noteq> [] \<and> length (bt_running s) < limit
      then run_batch limit pick resolve_one
             (s\<lparr>bt_waiting := tl (bt_waiting s), bt_running := bt_running s @ [hd (bt_waiting s)]\<rparr>)
      else if bt_running s \<noteq> []
      then (let k = pick (length (bt_finished s)) mod length (bt_running s);
                (index, claim_ref) = bt_running s ! k
            in run_batch limit pick resolve_one
                 (s\<lparr>bt_running := take k (bt_running s) @ drop (k + 1) (bt_running s),
                    bt_finished := bt_finished s @ [(index, claim_ref, resolve_one index claim_ref)]\<rparr>))
      else if bt_waiting s = [] then Some s else None)"
  by pat_completeness auto
termination
proof (relation "measure (\<lambda>(limit, pick, resolve_one, s). 2 * length (bt_waiting s) + length (bt_running s))")
qed (auto simp: neq_Nil_conv)

declare run_batch.simps [simp del]

text \<open>\<open>answers\<close> by position in the batch and number of the read.\<close>

definition resolve_all_context ::
    "(kube_error \<Rightarrow> string) \<Rightarrow> claim_resolver \<Rightarrow> (nat \<Rightarrow> nat \<Rightarrow> kube_error + resource_claim)
      \<Rightarrow> (nat \<Rightarrow> nat) \<Rightarrow> claim_ref list \<Rightarrow> resolved_context resolutions option" where
  "resolve_all_context show_err v answers pick claim_refs =
     map_option (\<lambda>s. in_request_order (bt_finished s))
       (run_batch (cv_max_concurrent_resolves v) pick
         (\<lambda>index claim_ref. resolve_context show_err v claim_ref (answers index))
         (batch_start claim_refs))"

definition resolve_all ::
    "(kube_error \<Rightarrow> string) \<Rightarrow> claim_resolver \<Rightarrow> (nat \<Rightarrow> nat \<Rightarrow> kube_error + resource_claim)
      \<Rightarrow> (nat \<Rightarrow> nat) \<Rightarrow> claim_ref list \<Rightarrow> resolved_claim resolutions option" where
  "resolve_all show_err v answers pick claim_refs =
     map_option (map (\<lambda>(claim, result). (claim, res_map rx_resolved result)))
       (resolve_all_context show_err v answers pick claim_refs)"

subsection \<open>A resolver that was built\<close>

definition resolver_ok :: "claim_resolver \<Rightarrow> bool" where
  "resolver_ok v \<longleftrightarrow> validate_driver_name (cv_driver_name v) = Inr ()
     \<and> 0 < cv_max_concurrent_resolves v \<and> 0 < cv_max_attempts v"

lemma claim_resolver_new_ok: "claim_resolver_new d = Inr v \<Longrightarrow> resolver_ok v \<and> cv_driver_name v = d"
  by (auto simp: claim_resolver_new_def resolver_ok_def res_simps DEFAULT_MAX_ATTEMPTS_def
      DEFAULT_MAX_CONCURRENT_RESOLVES_def)

lemma resolver_builders_ok:
  "resolver_ok v \<Longrightarrow> resolver_ok (with_max_concurrent_resolves v n)"
  "resolver_ok v \<Longrightarrow> resolver_ok (with_retry_policy v k d)"
  by (simp_all add: resolver_ok_def with_max_concurrent_resolves_def with_retry_policy_def)

lemma validate_identity_ok:
  "validate_identity v d = Inr () \<longleftrightarrow> validate_driver_name d = Inr () \<and> d = cv_driver_name v"
  by (auto simp: validate_identity_def res_simps)

end
