(* ===== verification/Metadata.thy ===== *)
theory Metadata
  imports Claim_Objects Slice_Wire
begin

text \<open>
  \<open>dra/src/metadata.rs\<close>, \<open>dra/src/metadata/wire.rs\<close> and \<open>dra/src/cdi.rs\<close>: the options of the
  metadata runtime, the checks on names and attributes, and the plan of documents, CDI
  specifications and prepared devices for one claim. The text of the JSON documents is a
  function of the structures (\<open>serde_json\<close> with the derived serialisers); \<open>semver_ok\<close> is
  \<open>semver::Version::parse\<close>. A panic of the code is a value of its own.
\<close>

definition CONTAINER_ROOT :: string where
  "CONTAINER_ROOT = ''/var/run/kubernetes.io/dra-device-attributes''"

definition POD_CLAIM_NAME :: string where
  "POD_CLAIM_NAME = ''resource.kubernetes.io/pod-claim-name''"

definition KUBELET_PLUGINS_PATH :: string where
  "KUBELET_PLUGINS_PATH = ''/var/lib/kubelet/plugins/''"

definition invalid :: "string \<Rightarrow> io_error" where
  "invalid message = IoError InvalidData message"

subsection \<open>Options and the runtime\<close>

record metadata_options =
  mo_plugin_directories :: "(string \<times> string) option"
  mo_cdi_directory :: string

definition metadata_options_v1beta1 :: metadata_options where
  "metadata_options_v1beta1 = \<lparr>mo_plugin_directories = None, mo_cdi_directory = ''/var/run/cdi''\<rparr>"

definition with_plugin_directories :: "metadata_options \<Rightarrow> string \<Rightarrow> string \<Rightarrow> metadata_options" where
  "with_plugin_directories m local host = m\<lparr>mo_plugin_directories := Some (local, host)\<rparr>"

definition with_cdi_directory :: "metadata_options \<Rightarrow> string \<Rightarrow> metadata_options" where
  "with_cdi_directory m directory = m\<lparr>mo_cdi_directory := directory\<rparr>"

record metadata_runtime =
  mr_driver :: string
  mr_local :: string
  mr_host :: string
  mr_cdi :: string

definition safe_directory :: "string \<Rightarrow> bool" where
  "safe_directory path \<longleftrightarrow>
     \<not> (\<not> is_absolute path \<or> ParentDir \<in> set (path_components path) \<or> CHR 0x00 \<in> set path)"

definition metadata_runtime_new ::
    "(string \<Rightarrow> string) \<Rightarrow> string \<Rightarrow> metadata_options \<Rightarrow> io_error + metadata_runtime" where
  "metadata_runtime_new dbg driver options =
     res_bind (res_map_err (\<lambda>error. invalid (show_validation_error dbg error))
         (validate_driver_name driver)) (\<lambda>_.
       let default = path_join KUBELET_PLUGINS_PATH driver;
           (local, host) = (case mo_plugin_directories options of
              Some directories \<Rightarrow> directories | None \<Rightarrow> (default, default))
       in res_bind (for_each (\<lambda>path. ensure (safe_directory path)
             (invalid ''metadata directories must be absolute UTF-8 paths without parent traversal''))
             [local, host, mo_cdi_directory options]) (\<lambda>_.
          Inr \<lparr>mr_driver = driver, mr_local = local, mr_host = host,
               mr_cdi = mo_cdi_directory options\<rparr>))"

subsection \<open>Names and attributes\<close>

definition metadata_label :: "string \<Rightarrow> nat \<Rightarrow> bool" where
  "metadata_label name limit \<longleftrightarrow>
     name \<noteq> [] \<and> length name \<le> limit
     \<and> list_all (\<lambda>b. is_ascii_lowercase b \<or> is_ascii_digit b \<or> b = CHR ''-'') name
     \<and> is_ascii_alphanumeric (hd name) \<and> is_ascii_alphanumeric (last name)"

definition dns_subdomain :: "string \<Rightarrow> nat \<Rightarrow> bool" where
  "dns_subdomain name limit \<longleftrightarrow>
     length name \<le> limit \<and> list_all (\<lambda>part. metadata_label part 63) (split_on (CHR ''.'') name)"

definition request_ref :: "string \<Rightarrow> io_error + string" where
  "request_ref name =
     (let parts = split_on (CHR ''/'') name
      in if \<not> (1 \<le> length parts \<and> length parts \<le> 2) \<or> \<not> list_all (\<lambda>part. metadata_label part 63) parts
         then Inl (invalid ''invalid device request reference'') else Inr (hd parts))"

definition attribute_key :: "string \<Rightarrow> bool" where
  "attribute_key key \<longleftrightarrow>
     (let (domain, name) = (case split_once (CHR ''/'') key of
            None \<Rightarrow> (None, key) | Some (d, n) \<Rightarrow> (Some d, n))
      in (case domain of None \<Rightarrow> True | Some d \<Rightarrow> dns_subdomain d 63)
         \<and> name \<noteq> [] \<and> length name \<le> 32
         \<and> list_all (\<lambda>b. is_ascii_alphanumeric b \<or> b = CHR ''_'') name
         \<and> (is_ascii_alphabetic (hd name) \<or> starts_with ''_'' name))"

fun valid_attribute_value :: "(string \<Rightarrow> bool) \<Rightarrow> attribute_value \<Rightarrow> bool" where
  "valid_attribute_value semver_ok (AttrString value) = (length value \<le> 64)"
| "valid_attribute_value semver_ok (AttrVersion value) = (length value \<le> 64 \<and> semver_ok value)"
| "valid_attribute_value semver_ok (AttrInt value) = True"
| "valid_attribute_value semver_ok (AttrBool value) = True"

subsection \<open>Documents, CDI specifications and the journal\<close>

record metadata_entry =
  me_attributes :: "(string, device_attribute) btree"
  me_driver :: string
  me_name :: string
  me_pool :: string

record request_metadata =
  rm_devices :: "metadata_entry list"
  rm_name :: string

record device_metadata =
  dm_api_version :: string
  dm_kind :: string
  dm_generation :: nat
  dm_name :: string
  dm_namespace :: string
  dm_uid :: string
  dm_pod_claim_name :: "string option"
  dm_requests :: "request_metadata list"

record cdi_mount =
  cm_container_path :: string
  cm_host_path :: string
  cm_options :: "string list"

record cdi_edits =
  ce_env :: "string list"
  ce_mounts :: "cdi_mount list"

record cdi_device =
  cd_container_edits :: cdi_edits
  cd_name :: string

record cdi_spec =
  cdi_version :: string
  cdi_devices :: "cdi_device list"
  cdi_kind :: string

record journal_device =
  jd_cdi :: "string list"
  jd_device :: string
  jd_pool :: string
  jd_requests :: "string list"

record journal =
  jn_claim :: claim_ref
  jn_devices :: "journal_device list"
  jn_documents :: "(string, string) btree"
  jn_driver :: string
  jn_version :: nat
  jn_specs :: "(string, string) btree"

text \<open>\<open>serde_json\<close> on these structures; the error is its text.\<close>

record codec =
  js_document :: "device_metadata \<Rightarrow> string + string"
  js_spec :: "cdi_spec \<Rightarrow> string + string"
  js_journal :: "journal \<Rightarrow> string + string"
  js_read_journal :: "string \<Rightarrow> string + journal"

subsection \<open>The plan\<close>

record plan =
  pn_claim :: claim_ref
  pn_documents :: "(string, string) btree"
  pn_specs :: "(string, string) btree"
  pn_devices :: "prepared_device list"

datatype build_error = BuildFailed io_error | BuildPanicked

definition build_invalid :: "string \<Rightarrow> build_error + 'a" where
  "build_invalid message = Inl (BuildFailed (invalid message))"

text \<open>The check of one local allocation against the declared requests.\<close>

definition check_allocation :: "claim_request list \<Rightarrow> allocation_result \<Rightarrow> io_error + unit" where
  "check_allocation requests allocation =
     res_bind (request_ref (ar_request allocation)) (\<lambda>base.
     res_bind (ok_or (invalid ''allocation references an undeclared request'')
         (List.find (\<lambda>request. cq_name request = base) requests)) (\<lambda>declared_request.
     case split_once (CHR ''/'') (ar_request allocation) of
       None \<Rightarrow> Inr ()
     | Some (_, subrequest) \<Rightarrow>
         ensure (subrequest \<in> set (or_empty (cq_first_available declared_request)))
           (invalid ''allocation references an undeclared subrequest'')))"

record plan_state =
  pst_by_request :: "(string, (string \<times> string, metadata_entry) btree) btree"
  pst_full_names :: "(string, string) btree"

definition matching_allocations ::
    "allocation_result list \<Rightarrow> prepared_device \<Rightarrow> string \<Rightarrow> string \<Rightarrow> allocation_result list" where
  "matching_allocations local device requested base =
     filter (\<lambda>a. ar_pool a = pr_pool_name device \<and> ar_device a = pr_device_name device
       \<and> (ar_request a = requested
          \<or> (requested = base \<and> starts_with (base @ ''/'') (ar_request a)))) local"

text \<open>One matching allocation of a device for the request \<open>base\<close>.\<close>

definition place_allocation ::
    "metadata_entry \<Rightarrow> string \<Rightarrow> plan_state \<Rightarrow> allocation_result \<Rightarrow> io_error + plan_state" where
  "place_allocation content base s allocation =
     res_bind (request_ref (ar_request allocation)) (\<lambda>allocated_base.
     res_bind (ensure (allocated_base = base) (invalid ''invalid allocated request reference'')) (\<lambda>_.
     res_bind (ensure (case bt_lookup (pst_full_names s) base of
           None \<Rightarrow> True | Some old \<Rightarrow> old = ar_request allocation)
         (invalid ''conflicting subrequests for one metadata file'')) (\<lambda>_.
     let s = s\<lparr>pst_full_names := bt_insert base (ar_request allocation) (pst_full_names s)\<rparr>;
         key = (me_pool content, me_name content);
         devices = (case bt_lookup (pst_by_request s) base of None \<Rightarrow> [] | Some devices \<Rightarrow> devices)
     in res_bind (ensure (case bt_lookup devices key of None \<Rightarrow> True | Some old \<Rightarrow> old = content)
          (invalid ''conflicting attributes for the same allocated device'')) (\<lambda>_.
        Inr (s\<lparr>pst_by_request := bt_insert base (bt_insert key content devices) (pst_by_request s)\<rparr>)))))"

fun res_fold :: "('s \<Rightarrow> 'a \<Rightarrow> 'e + 's) \<Rightarrow> 's \<Rightarrow> 'a list \<Rightarrow> 'e + 's" where
  "res_fold f s [] = Inr s"
| "res_fold f s (x # xs) = res_bind (f s x) (\<lambda>s. res_fold f s xs)"

text \<open>One requested name of a device; the state carries the set \<open>base_names\<close>.\<close>

definition place_request ::
    "string list \<Rightarrow> allocation_result list \<Rightarrow> prepared_device \<Rightarrow> metadata_entry
      \<Rightarrow> plan_state \<times> string set \<Rightarrow> string \<Rightarrow> io_error + (plan_state \<times> string set)" where
  "place_request declared local device content = (\<lambda>(s, base_names) requested.
     res_bind (request_ref requested) (\<lambda>base.
     res_bind (ensure (base \<in> set declared)
         (invalid ''prepared device references an undeclared request'')) (\<lambda>_.
     let matching = matching_allocations local device requested base
     in if matching = []
        then (if pr_request_names device = [] then Inr (s, base_names)
              else Inl (invalid ''prepared metadata device does not match this driver's allocation''))
        else res_map (\<lambda>s. (s, insert base base_names))
               (res_fold (place_allocation content base) s matching))))"

text \<open>One prepared device: the state after it and the device for the response.\<close>

definition place_device ::
    "(string \<Rightarrow> bool) \<Rightarrow> string \<Rightarrow> string list \<Rightarrow> allocation_result list \<Rightarrow> plan_state
      \<Rightarrow> prepared_with_metadata \<Rightarrow> io_error + (prepared_device \<times> plan_state)" where
  "place_device semver_ok driver declared local s entry =
     (let device = pm_device entry
      in res_bind (ensure (metadata_label (pr_device_name device) 63 \<and> length (pr_pool_name device) \<le> 253
           \<and> list_all (\<lambda>p. dns_subdomain p 253) (split_on (CHR ''/'') (pr_pool_name device)))
           (invalid ''invalid prepared metadata device identity'')) (\<lambda>_.
         res_bind (ensure (length (pm_attributes entry) \<le> 32
             \<and> list_all (\<lambda>(k, v). attribute_key k \<and> valid_attribute_value semver_ok v) (pm_attributes entry))
           (invalid ''invalid metadata attribute name or attribute count exceeds 32'')) (\<lambda>_.
         let content = \<lparr>me_attributes = bt_map_values attribute_value_to_wire (pm_attributes entry),
               me_driver = driver, me_name = pr_device_name device, me_pool = pr_pool_name device\<rparr>;
             requested = (if pr_request_names device = [] then declared else pr_request_names device)
         in res_bind (res_fold (place_request declared local device content) (s, {}) requested)
              (\<lambda>(s, base_names).
            res_bind (ensure (base_names \<noteq> {})
              (invalid ''prepared metadata device has no local request allocation'')) (\<lambda>_.
            Inr (if pr_request_names device = [] then device
                 else device\<lparr>pr_request_names := sorted_list_of_set base_names\<rparr>, s))))))"

fun place_devices ::
    "(string \<Rightarrow> bool) \<Rightarrow> string \<Rightarrow> string list \<Rightarrow> allocation_result list \<Rightarrow> plan_state
      \<Rightarrow> prepared_with_metadata list \<Rightarrow> io_error + (prepared_device list \<times> plan_state)" where
  "place_devices semver_ok driver declared local s [] = Inr ([], s)"
| "place_devices semver_ok driver declared local s (entry # prepared) =
     res_bind (place_device semver_ok driver declared local s entry) (\<lambda>(device, s).
     res_map (\<lambda>(devices, s). (device # devices, s))
       (place_devices semver_ok driver declared local s prepared))"

text \<open>The files of one request and the device that mounts its document.\<close>

definition metadata_document ::
    "claim_ref \<Rightarrow> string option \<Rightarrow> string \<Rightarrow> metadata_entry list \<Rightarrow> device_metadata" where
  "metadata_document identity annotation full_name devices =
     \<lparr>dm_api_version = ''metadata.resource.k8s.io/v1beta1'', dm_kind = ''DeviceMetadata'',
      dm_generation = 1, dm_name = cr_name identity, dm_namespace = cr_namespace identity,
      dm_uid = cr_uid identity, dm_pod_claim_name = annotation,
      dm_requests = [\<lparr>rm_devices = devices, rm_name = full_name\<rparr>]\<rparr>"

definition metadata_id :: "claim_ref \<Rightarrow> string \<Rightarrow> string" where
  "metadata_id identity base = cr_uid identity @ ''_'' @ base"

definition metadata_host_path :: "metadata_runtime \<Rightarrow> claim_ref \<Rightarrow> string \<Rightarrow> string" where
  "metadata_host_path rt identity base =
     path_join (path_join (path_join (path_join (mr_host rt) ''dra-device-metadata'')
       (cr_uid identity)) base) ''metadata.json''"

definition metadata_container_path ::
    "metadata_runtime \<Rightarrow> claim_ref \<Rightarrow> string option \<Rightarrow> string \<Rightarrow> string" where
  "metadata_container_path rt identity annotation base =
     (case annotation of
        Some annotation \<Rightarrow> CONTAINER_ROOT @ ''/resourceclaimtemplates/'' @ annotation @ ''/'' @ base
          @ ''/'' @ mr_driver rt @ ''-metadata.json''
      | None \<Rightarrow> CONTAINER_ROOT @ ''/resourceclaims/'' @ cr_name identity @ ''/'' @ base
          @ ''/'' @ mr_driver rt @ ''-metadata.json'')"

definition metadata_spec ::
    "metadata_runtime \<Rightarrow> claim_ref \<Rightarrow> string option \<Rightarrow> string \<Rightarrow> cdi_spec" where
  "metadata_spec rt identity annotation base =
     \<lparr>cdi_version = ''0.8.0'',
      cdi_devices =
        [\<lparr>cd_container_edits =
            \<lparr>ce_env = [],
             ce_mounts = [\<lparr>cm_container_path = metadata_container_path rt identity annotation base,
                           cm_host_path = metadata_host_path rt identity base,
                           cm_options = [''ro'', ''bind'']\<rparr>]\<rparr>,
          cd_name = metadata_id identity base\<rparr>],
      cdi_kind = mr_driver rt @ ''/metadata''\<rparr>"

definition newline :: string where "newline = [CHR 0x0A]"

definition finish_request ::
    "codec \<Rightarrow> metadata_runtime \<Rightarrow> claim_ref \<Rightarrow> string option \<Rightarrow> (string, string) btree
      \<Rightarrow> string \<times> (string \<times> string, metadata_entry) btree
      \<Rightarrow> build_error + (string \<times> string \<times> string \<times> prepared_device)" where
  "finish_request J rt identity annotation full_names = (\<lambda>(base, devices).
     case devices of
       [] \<Rightarrow> build_invalid ''empty metadata request group''
     | (representative, _) # _ \<Rightarrow>
         (case bt_lookup full_names base of
            None \<Rightarrow> Inl BuildPanicked
          | Some full_name \<Rightarrow>
              res_bind (res_map_err (\<lambda>e. BuildFailed (io_other e))
                (js_document J (metadata_document identity annotation full_name (map snd devices)))) (\<lambda>document.
              res_bind (res_map_err (\<lambda>e. BuildFailed (io_other e))
                (js_spec J (metadata_spec rt identity annotation base))) (\<lambda>spec.
              Inr (base, document @ newline, spec @ newline,
                \<lparr>pr_request_names = [base], pr_pool_name = fst representative,
                 pr_device_name = snd representative,
                 pr_cdi_device_ids = [mr_driver rt @ ''/metadata='' @ metadata_id identity base]\<rparr>)))))"

definition plan_identity :: "resource_claim \<Rightarrow> claim_ref" where
  "plan_identity claim =
     ClaimRef (or_empty (cl_namespace claim)) (or_empty (cl_uid claim)) (or_empty (cl_name claim))"

definition declared_requests :: "resource_claim \<Rightarrow> string list" where
  "declared_requests claim = sorted_list_of_set (set (map cq_name (claim_requests claim)))"

text \<open>The checks on the claim before the prepared devices are looked at.\<close>

definition check_claim ::
    "string \<Rightarrow> resource_claim \<Rightarrow> string option \<Rightarrow> io_error + allocation_result list" where
  "check_claim driver claim annotation =
     (let identity = plan_identity claim
      in res_bind (ensure (dns_subdomain (cr_name identity) 253 \<and> metadata_label (cr_namespace identity) 63
             \<and> metadata_label (cr_uid identity) 64)
           (invalid ''invalid metadata claim identity'')) (\<lambda>_.
         res_bind (ensure (case annotation of None \<Rightarrow> True | Some a \<Rightarrow> metadata_label a 63)
           (invalid ''invalid pod claim name annotation'')) (\<lambda>_.
         res_bind (ensure (list_all (\<lambda>r. metadata_label r 63) (declared_requests claim))
           (invalid ''invalid declared request name'')) (\<lambda>_.
         let local = driver_results driver claim
         in res_bind (for_each (check_allocation (claim_requests claim)) local) (\<lambda>_.
            res_bind (ensure (list_all (\<lambda>a. ar_share_id a = None) local)
              (invalid ''container metadata does not yet support device share IDs'')) (\<lambda>_.
            Inr local))))))"

definition plan_build ::
    "codec \<Rightarrow> (string \<Rightarrow> bool) \<Rightarrow> metadata_runtime \<Rightarrow> resource_claim \<Rightarrow> prepared_with_metadata list
      \<Rightarrow> build_error + plan" where
  "plan_build J semver_ok rt claim prepared =
     (let identity = plan_identity claim;
          annotation = and_then (cl_annotations claim) (\<lambda>a. bt_lookup a POD_CLAIM_NAME)
      in res_bind (res_map_err BuildFailed (check_claim (mr_driver rt) claim annotation)) (\<lambda>local.
         res_bind (res_map_err BuildFailed
             (place_devices semver_ok (mr_driver rt) (declared_requests claim) local
               \<lparr>pst_by_request = [], pst_full_names = []\<rparr> prepared)) (\<lambda>(wire, s).
         res_bind (traverse (finish_request J rt identity annotation (pst_full_names s))
             (pst_by_request s)) (\<lambda>files.
         Inr \<lparr>pn_claim = identity,
              pn_documents = bt_collect (map (\<lambda>(base, document, spec, device). (base, document)) files),
              pn_specs = bt_collect (map (\<lambda>(base, document, spec, device). (base, spec)) files),
              pn_devices = wire @ map (\<lambda>(base, document, spec, device). device) files\<rparr>))))"

definition journal_device_of :: "prepared_device \<Rightarrow> journal_device" where
  "journal_device_of d =
     \<lparr>jd_cdi = pr_cdi_device_ids d, jd_device = pr_device_name d, jd_pool = pr_pool_name d,
      jd_requests = pr_request_names d\<rparr>"

definition plan_journal :: "plan \<Rightarrow> string \<Rightarrow> journal" where
  "plan_journal p driver =
     \<lparr>jn_claim = pn_claim p, jn_devices = map journal_device_of (pn_devices p),
      jn_documents = pn_documents p, jn_driver = driver, jn_version = 1, jn_specs = pn_specs p\<rparr>"

end
