(* ===== verification/State_Error.thy ===== *)
theory State_Error
  imports Prelude
begin

text \<open>
  Functions that change a state and may fail, keeping the changes made before the failure; and
  triples over them with rules for sequences and loops.
\<close>

type_synonym ('s, 'e, 'a) sm = "'s \<Rightarrow> ('e + 'a) \<times> 's"

definition sm_return :: "'a \<Rightarrow> ('s, 'e, 'a) sm" where
  "sm_return x s = (Inr x, s)"

definition sm_fail :: "'e \<Rightarrow> ('s, 'e, 'a) sm" where
  "sm_fail e s = (Inl e, s)"

definition sm_lift :: "'e + 'a \<Rightarrow> ('s, 'e, 'a) sm" where
  "sm_lift m s = (m, s)"

definition sm_bind :: "('s, 'e, 'a) sm \<Rightarrow> ('a \<Rightarrow> ('s, 'e, 'b) sm) \<Rightarrow> ('s, 'e, 'b) sm" where
  "sm_bind m f s = (case m s of (Inl e, s') \<Rightarrow> (Inl e, s') | (Inr x, s') \<Rightarrow> f x s')"

text \<open>\<open>match m { Ok(x) => .., Err(e) => .. }\<close>\<close>

definition sm_match ::
    "('s, 'e, 'a) sm \<Rightarrow> ('e \<Rightarrow> ('s, 'e, 'b) sm) \<Rightarrow> ('a \<Rightarrow> ('s, 'e, 'b) sm) \<Rightarrow> ('s, 'e, 'b) sm" where
  "sm_match m h f s = (case m s of (Inl e, s') \<Rightarrow> h e s' | (Inr x, s') \<Rightarrow> f x s')"

text \<open>\<open>for x in xs { f(x)?; }\<close>\<close>

fun sm_for :: "('a \<Rightarrow> ('s, 'e, unit) sm) \<Rightarrow> 'a list \<Rightarrow> ('s, 'e, unit) sm" where
  "sm_for f [] = sm_return ()"
| "sm_for f (x # xs) = sm_bind (f x) (\<lambda>_. sm_for f xs)"

subsection \<open>Triples\<close>

definition triple ::
    "('s \<Rightarrow> bool) \<Rightarrow> ('s, 'e, 'a) sm \<Rightarrow> ('e + 'a \<Rightarrow> 's \<Rightarrow> bool) \<Rightarrow> bool" where
  "triple P m Q \<longleftrightarrow> (\<forall>s. P s \<longrightarrow> Q (fst (m s)) (snd (m s)))"

lemma tripleD: "triple P m Q \<Longrightarrow> P s \<Longrightarrow> m s = (r, s') \<Longrightarrow> Q r s'"
  unfolding triple_def by (metis fst_conv snd_conv)

lemma tripleI: "(\<And>s r s'. P s \<Longrightarrow> m s = (r, s') \<Longrightarrow> Q r s') \<Longrightarrow> triple P m Q"
  unfolding triple_def by (metis surjective_pairing)

lemma triple_weaken:
  assumes "triple P m Q" "\<And>s. P' s \<Longrightarrow> P s" "\<And>r s. Q r s \<Longrightarrow> Q' r s"
  shows "triple P' m Q'"
  using assms unfolding triple_def by blast

lemma triple_conj: "triple P m Q \<Longrightarrow> triple P' m Q' \<Longrightarrow> triple (\<lambda>s. P s \<and> P' s) m (\<lambda>r s. Q r s \<and> Q' r s)"
  unfolding triple_def by blast

lemma triple_return: "(\<And>s. P s \<Longrightarrow> Q (Inr x) s) \<Longrightarrow> triple P (sm_return x) Q"
  by (simp add: triple_def sm_return_def)

lemma triple_fail: "(\<And>s. P s \<Longrightarrow> Q (Inl e) s) \<Longrightarrow> triple P (sm_fail e) Q"
  by (simp add: triple_def sm_fail_def)

lemma triple_match:
  assumes "triple P m R"
    and "\<And>e. triple (R (Inl e)) (h e) Q"
    and "\<And>x. triple (R (Inr x)) (f x) Q"
  shows "triple P (sm_match m h f) Q"
proof (rule tripleI)
  fix s r s' assume s: "P s" "sm_match m h f s = (r, s')"
  obtain r1 s1 where m: "m s = (r1, s1)" by fastforce
  then have R: "R r1 s1" using tripleD [OF assms(1) s(1)] by blast
  show "Q r s'"
  proof (cases r1)
    case (Inl e)
    with m s(2) have "h e s1 = (r, s')" by (simp add: sm_match_def)
    with R Inl show ?thesis using tripleD [OF assms(2)] by blast
  next
    case (Inr x)
    with m s(2) have "f x s1 = (r, s')" by (simp add: sm_match_def)
    with R Inr show ?thesis using tripleD [OF assms(3)] by blast
  qed
qed

lemma sm_bind_match: "sm_bind m f = sm_match m sm_fail f"
  by (auto simp: fun_eq_iff sm_bind_def sm_match_def sm_fail_def split: prod.splits sum.splits)

lemma triple_bind:
  assumes "triple P m R"
    and "\<And>e s. R (Inl e) s \<Longrightarrow> Q (Inl e) s"
    and "\<And>x. triple (R (Inr x)) (f x) Q"
  shows "triple P (sm_bind m f) Q"
  unfolding sm_bind_match
  by (rule triple_match [OF assms(1)]) (auto intro: assms triple_fail)

lemma triple_if: "(b \<Longrightarrow> triple P m Q) \<Longrightarrow> (\<not> b \<Longrightarrow> triple P n Q) \<Longrightarrow> triple P (if b then m else n) Q"
  by simp

text \<open>A loop: \<open>I done\<close> holds after the iterations \<open>done\<close>, \<open>X\<close> after a failure.\<close>

lemma triple_for:
  assumes "\<And>before x after. xs = before @ x # after \<Longrightarrow>
      triple (I before) (f x) (\<lambda>r s. case r of Inl e \<Rightarrow> X e s | Inr _ \<Rightarrow> I (before @ [x]) s)"
  shows "triple (I []) (sm_for f xs) (\<lambda>r s. case r of Inl e \<Rightarrow> X e s | Inr _ \<Rightarrow> I xs s)"
proof -
  have "triple (I before) (sm_for f after) (\<lambda>r s. case r of Inl e \<Rightarrow> X e s | Inr _ \<Rightarrow> I xs s)"
    if "xs = before @ after" for before after
    using that
  proof (induction after arbitrary: before)
    case Nil
    then show ?case by (auto intro: triple_return)
  next
    case (Cons x after)
    show ?case
      unfolding sm_for.simps
    proof (rule triple_bind [OF assms [OF Cons.prems]])
      fix u
      show "triple (\<lambda>s. case Inr u of Inl e \<Rightarrow> X e s | Inr _ \<Rightarrow> I (before @ [x]) s) (sm_for f after)
          (\<lambda>r s. case r of Inl e \<Rightarrow> X e s | Inr _ \<Rightarrow> I xs s)"
        using Cons.IH [of "before @ [x]"] Cons.prems by simp
    qed simp
  qed
  then show ?thesis by simp
qed

text \<open>Functions that keep a property of the state, whatever their result.\<close>

definition keeps :: "('s \<Rightarrow> bool) \<Rightarrow> ('s, 'e, 'a) sm \<Rightarrow> bool" where
  "keeps I m \<longleftrightarrow> triple I m (\<lambda>r. I)"

named_theorems keeps_intros \<open>functions that keep a property\<close>

lemma keepsD: "keeps I m \<Longrightarrow> I s \<Longrightarrow> I (snd (m s))"
  by (simp add: keeps_def triple_def)

lemma keepsI: "(\<And>s. I s \<Longrightarrow> I (snd (m s))) \<Longrightarrow> keeps I m"
  by (simp add: keeps_def triple_def)

lemma keeps_simple [keeps_intros]: "keeps I (sm_return x)" "keeps I (sm_fail e)" "keeps I (sm_lift m)"
  by (simp_all add: keeps_def triple_def sm_return_def sm_fail_def sm_lift_def)

lemma keeps_match [keeps_intros]:
  "keeps I m \<Longrightarrow> (\<And>e. keeps I (h e)) \<Longrightarrow> (\<And>x. keeps I (f x)) \<Longrightarrow> keeps I (sm_match m h f)"
  unfolding keeps_def by (rule triple_match)

lemma keeps_bind [keeps_intros]: "keeps I m \<Longrightarrow> (\<And>x. keeps I (f x)) \<Longrightarrow> keeps I (sm_bind m f)"
  unfolding sm_bind_match by (intro keeps_match keeps_simple)

lemma keeps_if [keeps_intros]: "(b \<Longrightarrow> keeps I m) \<Longrightarrow> (\<not> b \<Longrightarrow> keeps I n) \<Longrightarrow> keeps I (if b then m else n)"
  by simp

lemma keeps_for [keeps_intros]: "(\<And>x. x \<in> set xs \<Longrightarrow> keeps I (f x)) \<Longrightarrow> keeps I (sm_for f xs)"
  by (induction xs) (auto intro: keeps_intros)

lemma triple_keeps: "triple P m Q \<Longrightarrow> keeps I m \<Longrightarrow> triple (\<lambda>s. P s \<and> I s) m (\<lambda>r s. Q r s \<and> I s)"
  unfolding keeps_def by (rule triple_conj)

text \<open>What a successful result is.\<close>

definition yields :: "('s, 'e, 'a) sm \<Rightarrow> ('a \<Rightarrow> bool) \<Rightarrow> bool" where
  "yields m R \<longleftrightarrow> (\<forall>s x s'. m s = (Inr x, s') \<longrightarrow> R x)"

lemma yields_bind: "(\<And>x. yields (f x) R) \<Longrightarrow> yields (sm_bind m f) R"
  unfolding yields_def sm_bind_def by (auto split: prod.splits sum.splits)

lemma yields_match: "(\<And>e. yields (h e) R) \<Longrightarrow> (\<And>x. yields (f x) R) \<Longrightarrow> yields (sm_match m h f) R"
  unfolding yields_def sm_match_def by (fastforce split: prod.splits sum.splits)

lemma yields_bind_using: "yields m S \<Longrightarrow> (\<And>x. S x \<Longrightarrow> yields (f x) R) \<Longrightarrow> yields (sm_bind m f) R"
  unfolding yields_def sm_bind_def by (fastforce split: prod.splits sum.splits)

lemma yields_simple: "yields (sm_return x) R \<longleftrightarrow> R x" "yields (sm_fail e) R"
  by (simp_all add: yields_def sm_return_def sm_fail_def)

lemma keeps_bind_yields:
  "keeps I m \<Longrightarrow> yields m R \<Longrightarrow> (\<And>x. R x \<Longrightarrow> keeps I (f x)) \<Longrightarrow> keeps I (sm_bind m f)"
  unfolding keeps_def triple_def yields_def sm_bind_def by (fastforce split: prod.splits sum.splits)

lemma triple_bind_yields:
  assumes "keeps I m" "yields m R" "\<And>x. R x \<Longrightarrow> triple I (f x) (\<lambda>r. P' r)"
    and "\<And>e s. I s \<Longrightarrow> P' (Inl e) s"
  shows "triple I (sm_bind m f) P'"
proof (rule triple_bind [where R = "\<lambda>r s. I s \<and> (\<forall>x. r = Inr x \<longrightarrow> R x)"])
  show "triple I m (\<lambda>r s. I s \<and> (\<forall>x. r = Inr x \<longrightarrow> R x))"
    using assms(1,2) unfolding keeps_def triple_def yields_def by (metis prod.collapse)
next
  fix x
  show "triple (\<lambda>s. I s \<and> (\<forall>y. Inr x = Inr y \<longrightarrow> R y)) (f x) P'"
    using assms(3) [of x] unfolding triple_def by blast
qed (use assms(4) in blast)

text \<open>Sequences of which only success matters.\<close>

lemma triple_then:
  assumes "triple P m (\<lambda>r s. r = Inr () \<longrightarrow> R s)" "triple R n (\<lambda>r s. r = Inr () \<longrightarrow> S s)"
  shows "triple P (sm_bind m (\<lambda>_. n)) (\<lambda>r s. r = Inr () \<longrightarrow> S s)"
  by (rule triple_bind [OF assms(1)]) (use assms(2) in \<open>auto simp: triple_def\<close>)

lemma triple_then_keeps:
  assumes "keeps R m" "triple R n Q" "\<And>e s. R s \<Longrightarrow> Q (Inl e) s"
  shows "triple R (sm_bind m (\<lambda>_. n)) Q"
  by (rule triple_bind [OF assms(1) [unfolded keeps_def]]) (use assms(2,3) in auto)

lemma triple_keeps_result: "keeps I m \<Longrightarrow> triple I m (\<lambda>r s. r = Inr () \<longrightarrow> I s)"
  by (auto simp: keeps_def triple_def)

lemma keeps_conj: "keeps I m \<Longrightarrow> keeps K m \<Longrightarrow> keeps (\<lambda>s. I s \<and> K s) m"
  by (simp add: keeps_def triple_def)

lemma keeps_ball: "(\<And>x. x \<in> A \<Longrightarrow> keeps (I x) m) \<Longrightarrow> keeps (\<lambda>s. \<forall>x \<in> A. I x s) m"
  by (auto simp: keeps_def triple_def)

text \<open>A loop that keeps \<open>K\<close> and establishes \<open>Q x\<close> for every element, which later iterations keep.\<close>

lemma triple_for_each:
  assumes "\<And>x. x \<in> set xs \<Longrightarrow> keeps K (f x)"
    and "\<And>x y. x \<in> set xs \<Longrightarrow> y \<in> set xs \<Longrightarrow> keeps (Q x) (f y)"
    and "\<And>x. x \<in> set xs \<Longrightarrow> triple K (f x) (\<lambda>r s. r = Inr () \<longrightarrow> Q x s)"
  shows "triple K (sm_for f xs) (\<lambda>r s. K s \<and> (r = Inr () \<longrightarrow> (\<forall>x \<in> set xs. Q x s)))"
proof -
  have "triple (\<lambda>s. K s \<and> (\<forall>x \<in> set []. Q x s)) (sm_for f xs)
      (\<lambda>r s. case r of Inl e \<Rightarrow> K s | Inr _ \<Rightarrow> K s \<and> (\<forall>x \<in> set xs. Q x s))"
  proof (rule triple_for)
    fix before x after assume xs: "xs = before @ x # after"
    have "keeps (\<lambda>s. K s \<and> (\<forall>y \<in> set before. Q y s)) (f x)"
      using xs assms(1,2) by (intro keeps_conj keeps_ball) auto
    moreover have "triple K (f x) (\<lambda>r s. r = Inr () \<longrightarrow> Q x s)" using xs assms(3) by simp
    ultimately show "triple (\<lambda>s. K s \<and> (\<forall>y \<in> set before. Q y s)) (f x)
        (\<lambda>r s. case r of Inl e \<Rightarrow> K s | Inr _ \<Rightarrow> K s \<and> (\<forall>y \<in> set (before @ [x]). Q y s))"
      unfolding keeps_def triple_def by (auto split: sum.splits)
  qed
  then show ?thesis by (rule triple_weaken) (auto split: sum.splits)
qed

end
