(* ===== verification/Disk.thy ===== *)
theory Disk
  imports State_Error Rust_Io "HOL-Library.AList"
begin

text \<open>
  The part of a POSIX file system that \<open>dra/src/metadata/store.rs\<close> uses: nodes under paths (lists
  of names from the root), and the calls \<open>mkdirat\<close>, \<open>openat\<close>, \<open>read\<close>, \<open>write\<close>, \<open>linkat\<close>, \<open>unlinkat\<close>,
  \<open>fsync\<close> and directory listing. A descriptor is the path it was opened at. \<open>os_fault n\<close> is an error the
  operating system injects into the \<open>n\<close>-th call, so that statements over all operating systems cover
  every failure; an error at a call and at every later one is a crash there. The hard link is a
  second name for the same bytes, which are never written again.
\<close>

datatype node = DirNode | FileNode (file_bytes: string) | LinkNode | SpecialNode

type_synonym node_path = "string list"

record os =
  os_fault :: "nat \<Rightarrow> io_error option"
  os_written :: "nat \<Rightarrow> nat" \<comment> \<open>bytes written by a call that fails\<close>
  os_canonical :: "string \<Rightarrow> node_path" \<comment> \<open>where a configured root lies\<close>
  os_pid :: nat

record disk =
  dk_nodes :: "(node_path \<times> node) list"
  dk_calls :: nat
  dk_next_stage :: nat \<comment> \<open>\<open>NEXT_STAGE\<close>\<close>

type_synonym 'a disk_op = "(disk, io_error, 'a) sm"

definition node_at :: "disk \<Rightarrow> node_path \<Rightarrow> node option" where
  "node_at s p = (if p = [] then Some DirNode else map_of (dk_nodes s) p)"

definition put_node :: "node_path \<Rightarrow> node \<Rightarrow> disk \<Rightarrow> disk" where
  "put_node p n s = s\<lparr>dk_nodes := AList.update p n (dk_nodes s)\<rparr>"

definition drop_node :: "node_path \<Rightarrow> disk \<Rightarrow> disk" where
  "drop_node p s = s\<lparr>dk_nodes := AList.delete p (dk_nodes s)\<rparr>"

text \<open>The names in a directory.\<close>

definition names_in :: "disk \<Rightarrow> node_path \<Rightarrow> string list" where
  "names_in s d =
     remdups (map last (filter (\<lambda>p. p \<noteq> [] \<and> butlast p = d) (map fst (dk_nodes s))))"

lemma node_at_put [simp]: "p \<noteq> [] \<Longrightarrow> node_at (put_node p n s) q = (if q = p then Some n else node_at s q)"
  by (simp add: node_at_def put_node_def update_conv')

lemma node_at_drop [simp]: "p \<noteq> [] \<Longrightarrow> node_at (drop_node p s) q = (if q = p then None else node_at s q)"
  by (simp add: node_at_def drop_node_def delete_conv')

lemma node_at_counters [simp]:
  "node_at (s\<lparr>dk_calls := n\<rparr>) p = node_at s p" "node_at (s\<lparr>dk_next_stage := n\<rparr>) p = node_at s p"
  by (simp_all add: node_at_def)

lemma set_names_in: "x \<in> set (names_in s d) \<longleftrightarrow> node_at s (d @ [x]) \<noteq> None"
proof -
  have "x \<in> set (names_in s d) \<longleftrightarrow> (\<exists>p \<in> fst ` set (dk_nodes s). p \<noteq> [] \<and> butlast p = d \<and> last p = x)"
    by (auto simp: names_in_def)
  also have "\<dots> \<longleftrightarrow> d @ [x] \<in> fst ` set (dk_nodes s)"
    by (metis append_butlast_last_id butlast_snoc last_snoc snoc_eq_iff_butlast)
  finally show ?thesis by (simp add: node_at_def map_of_eq_None_iff)
qed

subsection \<open>Calls\<close>

definition sys :: "os \<Rightarrow> 'a disk_op \<Rightarrow> 'a disk_op" where
  "sys E f s =
     (let n = dk_calls s; s = s\<lparr>dk_calls := n + 1\<rparr>
      in case os_fault E n of Some e \<Rightarrow> (Inl e, s) | None \<Rightarrow> f s)"

definition not_found :: io_error where "not_found = IoError NotFound ''no such file or directory''"
definition file_exists :: io_error where "file_exists = IoError AlreadyExists ''file exists''"
definition not_directory :: io_error where "not_directory = IoError OtherKind ''not a directory''"
definition is_directory :: io_error where "is_directory = IoError OtherKind ''is a directory''"
definition not_empty :: io_error where "not_empty = IoError OtherKind ''directory not empty''"
definition too_many_links :: io_error where "too_many_links = IoError OtherKind ''too many links''"

text \<open>\<open>fs::create_dir_all\<close>\<close>

definition sys_create_dir_all :: "os \<Rightarrow> string \<Rightarrow> unit disk_op" where
  "sys_create_dir_all E path = sys E (\<lambda>s.
     let dirs = map (\<lambda>k. take k (os_canonical E path)) [1..<length (os_canonical E path) + 1]
     in if list_all (\<lambda>d. node_at s d = None \<or> node_at s d = Some DirNode) dirs
        then (Inr (), fold (\<lambda>d. put_node d DirNode) dirs s) else (Inl file_exists, s))"

definition sys_canonicalize :: "os \<Rightarrow> string \<Rightarrow> node_path disk_op" where
  "sys_canonicalize E path = sys E (\<lambda>s.
     if node_at s (os_canonical E path) = None then (Inl not_found, s)
     else (Inr (os_canonical E path), s))"

definition sys_open_dir :: "os \<Rightarrow> node_path \<Rightarrow> node_path disk_op" where
  "sys_open_dir E p = sys E (\<lambda>s.
     case node_at s p of
       None \<Rightarrow> (Inl not_found, s)
     | Some DirNode \<Rightarrow> (Inr p, s)
     | Some _ \<Rightarrow> (Inl not_directory, s))"

definition sys_mkdir :: "os \<Rightarrow> node_path \<Rightarrow> string \<Rightarrow> unit disk_op" where
  "sys_mkdir E parent name = sys E (\<lambda>s.
     if node_at s parent \<noteq> Some DirNode then (Inl not_found, s)
     else if node_at s (parent @ [name]) \<noteq> None then (Inl file_exists, s)
     else (Inr (), put_node (parent @ [name]) DirNode s))"

text \<open>A call without an effect on the nodes: \<open>fsync\<close>, \<open>fchmod\<close>, \<open>fstat\<close>.\<close>

definition sys_touch :: "os \<Rightarrow> unit disk_op" where
  "sys_touch E = sys E (\<lambda>s. (Inr (), s))"

text \<open>Opening for reading without following links gives the node.\<close>

definition sys_open_read :: "os \<Rightarrow> node_path \<Rightarrow> string \<Rightarrow> node disk_op" where
  "sys_open_read E parent name = sys E (\<lambda>s.
     case node_at s (parent @ [name]) of
       None \<Rightarrow> (Inl not_found, s)
     | Some LinkNode \<Rightarrow> (Inl too_many_links, s)
     | Some n \<Rightarrow> (Inr n, s))"

text \<open>Exclusive creation of an empty file.\<close>

definition sys_create_new :: "os \<Rightarrow> node_path \<Rightarrow> string \<Rightarrow> unit disk_op" where
  "sys_create_new E parent name = sys E (\<lambda>s.
     if node_at s parent \<noteq> Some DirNode then (Inl not_found, s)
     else if node_at s (parent @ [name]) \<noteq> None then (Inl file_exists, s)
     else (Inr (), put_node (parent @ [name]) (FileNode []) s))"

text \<open>\<open>write_all\<close>: a failure may leave a prefix of the content in the file.\<close>

definition sys_write_all :: "os \<Rightarrow> node_path \<Rightarrow> string \<Rightarrow> unit disk_op" where
  "sys_write_all E p content s =
     (let n = dk_calls s; s = s\<lparr>dk_calls := n + 1\<rparr>
      in case os_fault E n of
           Some e \<Rightarrow> (Inl e, put_node p (FileNode (take (os_written E n) content)) s)
         | None \<Rightarrow> (Inr (), put_node p (FileNode content) s))"

definition sys_link :: "os \<Rightarrow> node_path \<Rightarrow> string \<Rightarrow> string \<Rightarrow> unit disk_op" where
  "sys_link E parent old new = sys E (\<lambda>s.
     case node_at s (parent @ [old]) of
       None \<Rightarrow> (Inl not_found, s)
     | Some n \<Rightarrow>
         if node_at s (parent @ [new]) \<noteq> None then (Inl file_exists, s)
         else (Inr (), put_node (parent @ [new]) n s))"

definition sys_unlink :: "os \<Rightarrow> node_path \<Rightarrow> string \<Rightarrow> bool \<Rightarrow> unit disk_op" where
  "sys_unlink E parent name directory = sys E (\<lambda>s.
     case node_at s (parent @ [name]) of
       None \<Rightarrow> (Inl not_found, s)
     | Some DirNode \<Rightarrow>
         if \<not> directory then (Inl is_directory, s)
         else if names_in s (parent @ [name]) \<noteq> [] then (Inl not_empty, s)
         else (Inr (), drop_node (parent @ [name]) s)
     | Some _ \<Rightarrow>
         if directory then (Inl not_directory, s)
         else (Inr (), drop_node (parent @ [name]) s))"

definition sys_list_dir :: "os \<Rightarrow> node_path \<Rightarrow> string list disk_op" where
  "sys_list_dir E d = sys E (\<lambda>s. (Inr (''.'' # ''..'' # names_in s d), s))"

end
