(* ===== verification/Metadata_Store.thy ===== *)
theory Metadata_Store
  imports Metadata Disk
begin

text \<open>
  \<open>dra/src/metadata/store.rs\<close>: writing the journal, the documents and the CDI specifications of a
  plan, and removing them again. Every operation of the code on a descriptor is a call of \<open>Disk\<close>,
  in the order of the code, so that a failure at any of them is covered.
\<close>

definition STORE_LIMIT :: nat where "STORE_LIMIT = 16 * 1024 * 1024"

subsection \<open>Operations on a directory\<close>

definition trusted_root :: "os \<Rightarrow> string \<Rightarrow> bool \<Rightarrow> node_path option disk_op" where
  "trusted_root E path create =
     sm_bind (if create then sys_create_dir_all E path else sm_return ()) (\<lambda>_.
     sm_match (sys_canonicalize E path)
       (\<lambda>error. if io_error_kind error = NotFound \<and> \<not> create then sm_return None else sm_fail error)
       (\<lambda>path. sm_bind (sys_open_dir E path) (\<lambda>fd. sm_return (Some fd))))"

definition open_directory :: "os \<Rightarrow> node_path \<Rightarrow> string \<Rightarrow> bool \<Rightarrow> node_path disk_op" where
  "open_directory E parent name create =
     sm_bind (if create
         then sm_match (sys_mkdir E parent name)
           (\<lambda>error. if io_error_kind error = AlreadyExists then sm_return () else sm_fail error)
           (\<lambda>_. sys_touch E)
         else sm_return ()) (\<lambda>_.
     sm_bind (sys_open_dir E (parent @ [name])) (\<lambda>fd.
     sm_bind (if create then sys_touch E else sm_return ()) (\<lambda>_. sm_return fd)))"

definition read_file :: "os \<Rightarrow> node_path \<Rightarrow> string \<Rightarrow> string option disk_op" where
  "read_file E parent name =
     sm_match (sys_open_read E parent name)
       (\<lambda>error. if io_error_kind error = NotFound then sm_return None else sm_fail error)
       (\<lambda>fd. sm_bind (sys_touch E) (\<lambda>_.
          case fd of
            FileNode bytes \<Rightarrow>
              sm_bind (sys_touch E) (\<lambda>_.
                if length (take (STORE_LIMIT + 1) bytes) > STORE_LIMIT
                then sm_fail (invalid ''metadata artifact exceeds 16 MiB'')
                else sm_return (Some (take (STORE_LIMIT + 1) bytes)))
          | _ \<Rightarrow> sm_fail (invalid ''metadata artifact is not a regular file'')))"

text \<open>The name of a staging file takes the next value of the counter, a \<open>u64\<close>.\<close>

definition stage_prefix :: "string \<Rightarrow> string" where
  "stage_prefix name = ''.stage-'' @ name @ ''-''"

definition next_stage :: "os \<Rightarrow> string \<Rightarrow> string disk_op" where
  "next_stage E name s =
     (Inr (stage_prefix name @ show_nat (os_pid E) @ ''-'' @ show_nat (dk_next_stage s)),
      s\<lparr>dk_next_stage := (dk_next_stage s + 1) mod 2 ^ 64\<rparr>)"

text \<open>The loop over staging names, with the attempts left.\<close>

fun create_stage :: "os \<Rightarrow> node_path \<Rightarrow> string \<Rightarrow> nat \<Rightarrow> string disk_op" where
  "create_stage E parent name 0 = sm_fail (io_other ''metadata staging filename collisions'')"
| "create_stage E parent name (Suc attempts) =
     sm_bind (next_stage E name) (\<lambda>stage.
     sm_match (sys_create_new E parent stage)
       (\<lambda>error. if io_error_kind error = AlreadyExists then create_stage E parent name attempts
                else sm_fail error)
       (\<lambda>_. sm_return stage))"

definition link_stage :: "os \<Rightarrow> node_path \<Rightarrow> string \<Rightarrow> string \<Rightarrow> string \<Rightarrow> unit disk_op" where
  "link_stage E parent name content stage =
     sm_bind (sys_write_all E (parent @ [stage]) content) (\<lambda>_.
     sm_bind (sys_touch E) (\<lambda>_.
     sm_bind (sys_touch E) (\<lambda>_.
     sm_bind (sm_match (sys_link E parent stage name)
         (\<lambda>error. if io_error_kind error = AlreadyExists
            then sm_bind (read_file E parent name) (\<lambda>found.
                   if found = Some content then sm_return () else sm_fail error)
            else sm_fail error)
         (\<lambda>_. sm_return ())) (\<lambda>_.
     sys_touch E))))"

definition ensure_file :: "os \<Rightarrow> node_path \<Rightarrow> string \<Rightarrow> string \<Rightarrow> unit disk_op" where
  "ensure_file E parent name content =
     (if length content > STORE_LIMIT then sm_fail (invalid ''metadata artifact exceeds 16 MiB'')
      else sm_bind (read_file E parent name) (\<lambda>existing.
        case existing of
          Some existing \<Rightarrow>
            if existing = content then sm_return ()
            else sm_fail (invalid (''immutable metadata artifact changed: '' @ name))
        | None \<Rightarrow>
            sm_bind (create_stage E parent name 16) (\<lambda>stage.
            sm_match (link_stage E parent name content stage)
              (\<lambda>error. sm_match (sys_unlink E parent stage False) (\<lambda>_. sm_fail error) (\<lambda>_. sm_fail error))
              (\<lambda>_. sys_unlink E parent stage False))))"

definition remove_entry :: "os \<Rightarrow> node_path \<Rightarrow> string \<Rightarrow> bool \<Rightarrow> unit disk_op" where
  "remove_entry E parent name directory =
     sm_match (sys_unlink E parent name directory)
       (\<lambda>error. if io_error_kind error = NotFound then sm_return () else sm_fail error)
       (\<lambda>_. sys_touch E)"

text \<open>
  A loop over the entries of a directory: opening it, reading each entry and finding its end are
  calls that may fail. A file name may be any bytes.
\<close>

definition for_entries :: "os \<Rightarrow> node_path \<Rightarrow> (string \<Rightarrow> unit disk_op) \<Rightarrow> unit disk_op" where
  "for_entries E d f =
     sm_bind (sys_list_dir E d) (\<lambda>names.
     sm_bind (sm_for (\<lambda>name. sm_bind (sys_touch E) (\<lambda>_. f name)) names) (\<lambda>_. sys_touch E))"

definition remove_stages :: "os \<Rightarrow> node_path \<Rightarrow> string \<Rightarrow> unit disk_op" where
  "remove_stages E parent prefix =
     for_entries E parent (\<lambda>name.
       if \<not> is_utf8 name then sm_fail (invalid ''invalid artifact filename'')
       else if starts_with prefix name then remove_entry E parent name False
       else sm_return ())"

definition spec_filename :: "string \<Rightarrow> string \<Rightarrow> string \<Rightarrow> string" where
  "spec_filename driver uid request = driver @ ''_metadata_'' @ uid @ ''_'' @ request @ ''.json''"

subsection \<open>Publishing\<close>

definition persist_document :: "os \<Rightarrow> node_path \<Rightarrow> string \<times> string \<Rightarrow> unit disk_op" where
  "persist_document E claim = (\<lambda>(request, document).
     sm_bind (open_directory E claim request True) (\<lambda>dir.
     sm_bind (ensure_file E dir ''metadata.json'' document) (\<lambda>_.
     remove_stages E dir (stage_prefix ''metadata.json''))))"

definition persist_spec :: "os \<Rightarrow> string \<Rightarrow> string \<Rightarrow> node_path \<Rightarrow> string \<times> string \<Rightarrow> unit disk_op" where
  "persist_spec E driver uid cdi = (\<lambda>(request, spec).
     let name = spec_filename driver uid request
     in sm_bind (ensure_file E cdi name spec) (\<lambda>_. remove_stages E cdi (stage_prefix name)))"

definition some_root :: "string \<Rightarrow> node_path option \<Rightarrow> node_path disk_op" where
  "some_root message found =
     (case found of None \<Rightarrow> sm_fail (invalid message) | Some fd \<Rightarrow> sm_return fd)"

definition persist :: "os \<Rightarrow> codec \<Rightarrow> metadata_runtime \<Rightarrow> plan \<Rightarrow> unit disk_op" where
  "persist E J rt p =
     sm_bind (sm_bind (trusted_root E (mr_local rt) True) (some_root ''missing plugin-data root'')) (\<lambda>local.
     sm_bind (open_directory E local ''dra-device-metadata'' True) (\<lambda>root.
     sm_bind (open_directory E root (cr_uid (pn_claim p)) True) (\<lambda>claim.
     sm_bind (sm_bind (trusted_root E (mr_cdi rt) True) (some_root ''missing CDI root'')) (\<lambda>cdi.
     sm_bind (sm_lift (res_map_err io_other (js_journal J (plan_journal p (mr_driver rt))))) (\<lambda>journal.
     sm_bind (ensure_file E claim ''journal.json'' journal) (\<lambda>_.
     sm_bind (sm_for (persist_document E claim) (pn_documents p)) (\<lambda>_.
     sm_bind (sm_for (persist_spec E (mr_driver rt) (cr_uid (pn_claim p)) cdi) (pn_specs p)) (\<lambda>_.
     remove_stages E claim (stage_prefix ''journal.json'')))))))))"

subsection \<open>Cleanup\<close>

definition open_existing :: "os \<Rightarrow> node_path \<Rightarrow> string \<Rightarrow> node_path option disk_op" where
  "open_existing E parent name =
     sm_match (open_directory E parent name False)
       (\<lambda>error. if io_error_kind error = NotFound then sm_return None else sm_fail error)
       (\<lambda>fd. sm_return (Some fd))"

definition remove_spec ::
    "os \<Rightarrow> string \<Rightarrow> string \<Rightarrow> node_path \<Rightarrow> (string, string) btree \<Rightarrow> string \<Rightarrow> unit disk_op" where
  "remove_spec E driver uid cdi specs request =
     (let name = spec_filename driver uid request
      in sm_bind (sm_bind (read_file E cdi name) (\<lambda>existing.
           case existing of
             None \<Rightarrow> sm_return ()
           | Some existing \<Rightarrow>
               if Some existing \<noteq> bt_lookup specs request
               then sm_fail (invalid ''foreign or changed CDI spec; refusing cleanup'')
               else remove_entry E cdi name False)) (\<lambda>_.
         remove_stages E cdi (stage_prefix name)))"

definition remove_document :: "os \<Rightarrow> node_path \<Rightarrow> string \<Rightarrow> unit disk_op" where
  "remove_document E claim request =
     sm_bind (open_existing E claim request) (\<lambda>dir.
       case dir of
         None \<Rightarrow> sm_return ()
       | Some dir \<Rightarrow>
           sm_bind (remove_entry E dir ''metadata.json'' False) (\<lambda>_.
           sm_bind (remove_stages E dir (stage_prefix ''metadata.json'')) (\<lambda>_.
           remove_entry E claim request True)))"

definition check_unknown :: "os \<Rightarrow> node_path \<Rightarrow> unit disk_op" where
  "check_unknown E claim =
     for_entries E claim (\<lambda>name.
       if name \<in> {''.'', ''..'', ''journal.json''} then sm_return ()
       else sm_fail (invalid ''unknown file in metadata claim directory; journal retained''))"

definition check_journal :: "string \<Rightarrow> claim_ref \<Rightarrow> journal \<Rightarrow> io_error + unit" where
  "check_journal driver identity journal =
     res_bind (ensure (jn_version journal = 1)
         (invalid ''unsupported metadata journal version; refusing cleanup'')) (\<lambda>_.
     res_bind (ensure (jn_driver journal = driver \<and> jn_claim journal = identity)
         (invalid ''metadata journal claim identity mismatch'')) (\<lambda>_.
     ensure (length (jn_documents journal) = length (jn_specs journal)
         \<and> list_all (\<lambda>k. metadata_label k 63 \<and> bt_lookup (jn_specs journal) k \<noteq> None)
             (map fst (jn_documents journal)))
       (invalid ''invalid metadata journal request names'')))"

text \<open>What follows a journal that was read and accepted.\<close>

definition cleanup_journal ::
    "os \<Rightarrow> metadata_runtime \<Rightarrow> claim_ref \<Rightarrow> node_path \<Rightarrow> node_path \<Rightarrow> journal \<Rightarrow> unit disk_op" where
  "cleanup_journal E rt identity data_root claim journal =
     sm_bind (trusted_root E (mr_cdi rt) False) (\<lambda>cdi.
     sm_bind (case cdi of
         None \<Rightarrow> sm_return ()
       | Some cdi \<Rightarrow>
           sm_for (remove_spec E (mr_driver rt) (cr_uid identity) cdi (jn_specs journal))
             (map fst (jn_specs journal))) (\<lambda>_.
     sm_bind (sm_for (remove_document E claim) (map fst (jn_documents journal))) (\<lambda>_.
     sm_bind (remove_stages E claim (stage_prefix ''journal.json'')) (\<lambda>_.
     sm_bind (check_unknown E claim) (\<lambda>_.
     sm_bind (remove_entry E claim ''journal.json'' False) (\<lambda>_.
     remove_entry E data_root (cr_uid identity) True))))))"

definition cleanup_claim ::
    "os \<Rightarrow> codec \<Rightarrow> metadata_runtime \<Rightarrow> claim_ref \<Rightarrow> node_path \<Rightarrow> node_path \<Rightarrow> unit disk_op" where
  "cleanup_claim E J rt identity data_root claim =
     sm_bind (read_file E claim ''journal.json'') (\<lambda>bytes.
       case bytes of
         None \<Rightarrow>
           sm_bind (remove_stages E claim (stage_prefix ''journal.json'')) (\<lambda>_.
           remove_entry E data_root (cr_uid identity) True)
       | Some bytes \<Rightarrow>
           sm_bind (sm_lift (res_map_err io_other (js_read_journal J bytes))) (\<lambda>journal.
           sm_bind (sm_lift (check_journal (mr_driver rt) identity journal)) (\<lambda>_.
           cleanup_journal E rt identity data_root claim journal)))"

definition cleanup_blocking :: "os \<Rightarrow> codec \<Rightarrow> metadata_runtime \<Rightarrow> claim_ref \<Rightarrow> unit disk_op" where
  "cleanup_blocking E J rt identity =
     (if \<not> metadata_label (cr_uid identity) 64 then sm_fail (invalid ''invalid metadata claim UID'')
      else sm_bind (trusted_root E (mr_local rt) False) (\<lambda>local.
        case local of
          None \<Rightarrow> sm_return ()
        | Some local \<Rightarrow>
            sm_bind (open_existing E local ''dra-device-metadata'') (\<lambda>data_root.
              case data_root of
                None \<Rightarrow> sm_return ()
              | Some data_root \<Rightarrow>
                  sm_bind (open_existing E data_root (cr_uid identity)) (\<lambda>claim.
                    case claim of
                      None \<Rightarrow> sm_return ()
                    | Some claim \<Rightarrow> cleanup_claim E J rt identity data_root claim))))"

end
