(* ===== verification/Dra_Service.thy ===== *)
theory Dra_Service
  imports Claim_Resolver Metadata_Store
begin

text \<open>
  \<open>dra/src/service.rs\<close>: \<open>NodePrepareResources\<close> and \<open>NodeUnprepareResources\<close>. The backend (a
  \<open>ClaimPreparer\<close>) is a record of the functions it computes during one call; \<open>dbg\<close> is the
  \<open>Debug\<close> text of a claim reference. Metadata files are written with the operations of
  \<open>Metadata_Store\<close>.
\<close>

subsection \<open>The wire types\<close>

record wire_claim =
  wc_namespace :: string
  wc_uid :: string
  wc_name :: string

record wire_prepared =
  wp_request_names :: "string list"
  wp_pool_name :: string
  wp_device_name :: string
  wp_cdi_device_ids :: "string list"
  wp_share_id :: "string option"

record prepare_response =
  nr_devices :: "wire_prepared list"
  nr_error :: string

definition claim_from_wire :: "wire_claim \<Rightarrow> claim_ref" where
  "claim_from_wire claim = ClaimRef (wc_namespace claim) (wc_uid claim) (wc_name claim)"

text \<open>\<open>find\<close> and \<open>truncate\<close> at the first slash.\<close>

definition truncate_request :: "string \<Rightarrow> string" where
  "truncate_request name =
     (case split_once (CHR ''/'') name of None \<Rightarrow> name | Some (base, _) \<Rightarrow> base)"

definition prepared_device_to_wire :: "prepared_device \<Rightarrow> wire_prepared" where
  "prepared_device_to_wire d =
     \<lparr>wp_request_names = sorted_list_of_set (set (map truncate_request (pr_request_names d))),
      wp_pool_name = pr_pool_name d, wp_device_name = pr_device_name d,
      wp_cdi_device_ids = pr_cdi_device_ids d, wp_share_id = None\<rparr>"

definition node_prepare_response ::
    "(claim_ref \<Rightarrow> string) \<Rightarrow> prepare_error + prepared_device list \<Rightarrow> prepare_response" where
  "node_prepare_response dbg result =
     (case result of
        Inr devices \<Rightarrow> \<lparr>nr_devices = map prepared_device_to_wire devices, nr_error = []\<rparr>
      | Inl err \<Rightarrow> \<lparr>nr_devices = [], nr_error = show_prepare_error dbg err\<rparr>)"

definition plugin_socket_path :: "string \<Rightarrow> string" where
  "plugin_socket_path driver_name =
     path_join (path_join KUBELET_PLUGINS_PATH driver_name) ''plugin.sock''"

subsection \<open>The service\<close>

record claim_backend =
  be_prepare :: "resolved_claim list \<Rightarrow> (claim_ref, prepare_error + prepared_device list) btree"
  be_prepare_with_metadata ::
    "resolved_claim list \<Rightarrow> (claim_ref, prepare_error + prepared_with_metadata list) btree"
  be_unprepare :: "claim_ref \<Rightarrow> prepare_error + unit"

record dra_service =
  sv_resolver :: claim_resolver
  sv_metadata :: "metadata_runtime option"
  sv_health :: bool \<comment> \<open>whether the health service has a reporter\<close>

definition dra_service_new :: "claim_resolver \<Rightarrow> dra_service" where
  "dra_service_new resolver = \<lparr>sv_resolver = resolver, sv_metadata = None, sv_health = False\<rparr>"

definition with_device_metadata ::
    "(string \<Rightarrow> string) \<Rightarrow> dra_service \<Rightarrow> string \<Rightarrow> metadata_options \<Rightarrow> io_error + dra_service" where
  "with_device_metadata dbg_string sv driver_name options =
     res_bind (res_map_err (\<lambda>error. IoError InvalidInput (show_validation_error dbg_string error))
         (validate_identity (sv_resolver sv) driver_name)) (\<lambda>_.
     res_bind (metadata_runtime_new dbg_string driver_name options) (\<lambda>rt.
     Inr (sv\<lparr>sv_metadata := Some rt\<rparr>)))"

definition with_resource_health :: "dra_service \<Rightarrow> dra_service" where
  "with_resource_health sv = sv\<lparr>sv_health := True\<rparr>"

text \<open>What the claims read from the API server, the file system and the codecs give to one call.\<close>

record call_env =
  ce_show_err :: "kube_error \<Rightarrow> string"
  ce_dbg :: "claim_ref \<Rightarrow> string"
  ce_answers :: "nat \<Rightarrow> nat \<Rightarrow> kube_error + resource_claim"
  ce_pick :: "nat \<Rightarrow> nat"
  ce_os :: os
  ce_codec :: codec
  ce_semver_ok :: "string \<Rightarrow> bool"

definition no_result :: "prepare_error + 'a" where
  "no_result = Inl (PrepareHookFailed ''claim preparer returned no result for this claim'')"

subsection \<open>Preparation without metadata\<close>

definition split_resolved ::
    "(claim_ref \<times> (prepare_error + resolved_claim)) list
      \<Rightarrow> (claim_ref, prepare_error) btree \<times> resolved_claim list" where
  "split_resolved results =
     fold (\<lambda>(claim_ref, result) (errors, claims). case result of
         Inr resolved \<Rightarrow> (errors, claims @ [resolved])
       | Inl err \<Rightarrow> (bt_insert claim_ref err errors, claims)) results ([], [])"

text \<open>The closure over the requested claims, which takes each result out of the maps.\<close>

fun answer_claims ::
    "(claim_ref, prepare_error) btree \<Rightarrow> (claim_ref, prepare_error + prepared_device list) btree
      \<Rightarrow> claim_ref list \<Rightarrow> (claim_ref \<times> (prepare_error + prepared_device list)) list" where
  "answer_claims errors prepared [] = []"
| "answer_claims errors prepared (claim # claims) =
     (case bt_lookup errors claim of
        Some err \<Rightarrow> (claim, Inl err) # answer_claims (bt_remove claim errors) prepared claims
      | None \<Rightarrow>
          (claim, case bt_lookup prepared claim of Some result \<Rightarrow> result | None \<Rightarrow> no_result)
            # answer_claims errors (bt_remove claim prepared) claims)"

definition responses ::
    "(claim_ref \<Rightarrow> string) \<Rightarrow> (claim_ref \<times> (prepare_error + prepared_device list)) list
      \<Rightarrow> (string, prepare_response) btree" where
  "responses dbg results =
     bt_collect (map (\<lambda>(claim, result). (cr_uid claim, node_prepare_response dbg result)) results)"

definition prepare_plain ::
    "call_env \<Rightarrow> claim_resolver \<Rightarrow> claim_backend \<Rightarrow> claim_ref list \<Rightarrow> (string, prepare_response) btree option" where
  "prepare_plain A v B claims =
     map_option (\<lambda>resolved.
         let (errors, resolved_claims) = split_resolved resolved
         in responses (ce_dbg A) (answer_claims errors (be_prepare B resolved_claims) claims))
       (resolve_all (ce_show_err A) v (ce_answers A) (ce_pick A) claims)"

subsection \<open>Preparation with metadata\<close>

text \<open>\<open>MetadataRuntime::publish\<close>\<close>

definition metadata_publish ::
    "call_env \<Rightarrow> metadata_runtime \<Rightarrow> resource_claim \<Rightarrow> prepared_with_metadata list \<Rightarrow> disk
      \<Rightarrow> (build_error + prepared_device list) \<times> disk" where
  "metadata_publish A rt claim devices s =
     (case plan_build (ce_codec A) (ce_semver_ok A) rt claim devices of
        Inl e \<Rightarrow> (Inl e, s)
      | Inr p \<Rightarrow>
          (case persist (ce_os A) (ce_codec A) rt p s of
             (Inl e, s) \<Rightarrow> (Inl (BuildFailed e), s)
           | (Inr _, s) \<Rightarrow> (Inr (pn_devices p), s)))"

record prepare_maps =
  pm_errors :: "(claim_ref, prepare_error) btree"
  pm_objects :: "(claim_ref, resource_claim) btree"
  pm_prepared :: "(claim_ref, prepare_error + prepared_with_metadata list) btree"

definition split_contexts ::
    "(claim_ref \<times> (prepare_error + resolved_context)) list
      \<Rightarrow> (claim_ref, prepare_error) btree \<times> (claim_ref, resource_claim) btree \<times> resolved_claim list" where
  "split_contexts results =
     fold (\<lambda>(claim, result) (errors, objects, resolved). case result of
         Inr context \<Rightarrow>
           (errors, bt_insert claim (rx_object context) objects, resolved @ [rx_resolved context])
       | Inl error \<Rightarrow> (bt_insert claim error errors, objects, resolved)) results ([], [], [])"

text \<open>The result of one claim; \<open>None\<close> is a panic while its plan is built.\<close>

definition publish_claim ::
    "call_env \<Rightarrow> metadata_runtime \<Rightarrow> prepare_maps \<Rightarrow> claim_ref \<Rightarrow> disk
      \<Rightarrow> (prepare_error + prepared_device list) option \<times> prepare_maps \<times> disk" where
  "publish_claim A rt m claim s =
     (case bt_lookup (pm_errors m) claim of
        Some error \<Rightarrow> (Some (Inl error), m\<lparr>pm_errors := bt_remove claim (pm_errors m)\<rparr>, s)
      | None \<Rightarrow>
          (let rest = m\<lparr>pm_prepared := bt_remove claim (pm_prepared m),
                        pm_objects := bt_remove claim (pm_objects m)\<rparr>
           in case (bt_lookup (pm_prepared m) claim, bt_lookup (pm_objects m) claim) of
                (Some (Inr devices), Some object) \<Rightarrow>
                  (case metadata_publish A rt object devices s of
                     (Inr devices, s) \<Rightarrow> (Some (Inr devices), rest, s)
                   | (Inl (BuildFailed error), s) \<Rightarrow>
                       (Some (Inl (PrepareHookFailed (''container metadata: '' @ io_error_text error))), rest, s)
                   | (Inl BuildPanicked, s) \<Rightarrow> (None, rest, s))
              | (Some (Inl error), _) \<Rightarrow> (Some (Inl error), rest, s)
              | _ \<Rightarrow> (Some no_result, rest, s)))"

fun publish_claims ::
    "call_env \<Rightarrow> metadata_runtime \<Rightarrow> prepare_maps \<Rightarrow> claim_ref list \<Rightarrow> disk
      \<Rightarrow> (claim_ref \<times> (prepare_error + prepared_device list)) list option \<times> disk" where
  "publish_claims A rt m [] s = (Some [], s)"
| "publish_claims A rt m (claim # claims) s =
     (case publish_claim A rt m claim s of
        (None, m, s) \<Rightarrow> (None, s)
      | (Some result, m, s) \<Rightarrow>
          (case publish_claims A rt m claims s of
             (results, s) \<Rightarrow> (map_option ((#) (claim, result)) results, s)))"

definition prepare_metadata ::
    "call_env \<Rightarrow> claim_resolver \<Rightarrow> metadata_runtime \<Rightarrow> claim_backend \<Rightarrow> claim_ref list \<Rightarrow> disk
      \<Rightarrow> (string, prepare_response) btree option \<times> disk" where
  "prepare_metadata A v rt B claims s =
     (case resolve_all_context (ce_show_err A) v (ce_answers A) (ce_pick A) claims of
        None \<Rightarrow> (None, s)
      | Some contexts \<Rightarrow>
          (let (errors, objects, resolved) = split_contexts contexts;
               m = \<lparr>pm_errors = errors, pm_objects = objects,
                    pm_prepared = be_prepare_with_metadata B resolved\<rparr>
           in case publish_claims A rt m claims s of
                (results, s) \<Rightarrow> (map_option (responses (ce_dbg A)) results, s)))"

subsection \<open>The calls of the kubelet\<close>

definition node_prepare_resources ::
    "call_env \<Rightarrow> dra_service \<Rightarrow> claim_backend \<Rightarrow> wire_claim list \<Rightarrow> disk
      \<Rightarrow> (string, prepare_response) btree option \<times> disk" where
  "node_prepare_resources A sv B request s =
     (let claims = map claim_from_wire request
      in if claims = [] then (Some [], s)
         else case sv_metadata sv of
                Some rt \<Rightarrow> prepare_metadata A (sv_resolver sv) rt B claims s
              | None \<Rightarrow> (prepare_plain A (sv_resolver sv) B claims, s))"

text \<open>
  One claim of \<open>NodeUnprepareResources\<close>, with its claim locked when there is metadata; the tasks of
  a call work on the claims in any order, so each has the disk it finds.
\<close>

definition unprepare_claim ::
    "call_env \<Rightarrow> metadata_runtime option \<Rightarrow> claim_backend \<Rightarrow> claim_ref \<Rightarrow> disk
      \<Rightarrow> (prepare_error + unit) \<times> disk" where
  "unprepare_claim A metadata B claim s =
     (case be_unprepare B claim of
        Inl error \<Rightarrow> (Inl error, s)
      | Inr _ \<Rightarrow>
          (case metadata of
             None \<Rightarrow> (Inr (), s)
           | Some rt \<Rightarrow>
               (case cleanup_blocking (ce_os A) (ce_codec A) rt claim s of
                  (Inl e, s) \<Rightarrow>
                    (Inl (PrepareHookFailed (''container metadata cleanup: '' @ io_error_text e)), s)
                | (Inr _, s) \<Rightarrow> (Inr (), s))))"

definition unprepare_response :: "(claim_ref \<Rightarrow> string) \<Rightarrow> prepare_error + unit \<Rightarrow> string" where
  "unprepare_response dbg result =
     (case result of Inl error \<Rightarrow> show_prepare_error dbg error | Inr _ \<Rightarrow> [])"

text \<open>The tasks in the order in which they finish, a list of positions in the request.\<close>

fun unprepare_in_order ::
    "call_env \<Rightarrow> metadata_runtime option \<Rightarrow> claim_backend \<Rightarrow> claim_ref list \<Rightarrow> nat list \<Rightarrow> disk
      \<Rightarrow> (nat \<times> claim_ref \<times> (prepare_error + unit)) list \<times> disk" where
  "unprepare_in_order A metadata B claims [] s = ([], s)"
| "unprepare_in_order A metadata B claims (index # order) s =
     (let (result, s) = unprepare_claim A metadata B (claims ! index) s;
          (results, s) = unprepare_in_order A metadata B claims order s
      in ((index, claims ! index, result) # results, s))"

text \<open>\<open>join_all\<close> gives the results in the order of the request, whatever the order of the tasks.\<close>

definition node_unprepare_resources ::
    "call_env \<Rightarrow> dra_service \<Rightarrow> claim_backend \<Rightarrow> nat list \<Rightarrow> wire_claim list \<Rightarrow> disk
      \<Rightarrow> (string, string) btree \<times> disk" where
  "node_unprepare_resources A sv B order request s =
     (let (results, s) = unprepare_in_order A (sv_metadata sv) B (map claim_from_wire request) order s
      in (bt_collect (map (\<lambda>(index, claim, result).
            (cr_uid claim, unprepare_response (ce_dbg A) result)) (sort_key fst results)), s))"

end
