(* ===== verification/Metadata_Files.thy ===== *)
theory Metadata_Files
  imports Metadata_Store
begin

text \<open>
  What the store does to the files, for every operating system: which files its operations never
  touch, what a successful \<open>ensure_file\<close> means, that a CDI specification appears only after the
  journal and all documents, and that the journal goes only after all that it lists.
\<close>

subsection \<open>Operations that keep a property of the nodes\<close>

lemma node_at_counters_fun [simp]:
  "node_at (s\<lparr>dk_calls := n\<rparr>) = node_at s" "node_at (s\<lparr>dk_next_stage := n\<rparr>) = node_at s"
  by (simp_all add: fun_eq_iff)

lemma keeps_sys:
  "(\<And>s. P (node_at s) \<Longrightarrow> P (node_at (snd (f s)))) \<Longrightarrow> keeps (\<lambda>s. P (node_at s)) (sys E f)"
  by (rule keepsI) (simp add: sys_def Let_def split: option.splits)

text \<open>Calls that change no node.\<close>

lemma keeps_reading [keeps_intros]:
  "keeps (\<lambda>s. P (node_at s)) (sys_touch E)"
  "keeps (\<lambda>s. P (node_at s)) (sys_canonicalize E path)"
  "keeps (\<lambda>s. P (node_at s)) (sys_open_dir E p)"
  "keeps (\<lambda>s. P (node_at s)) (sys_open_read E p name)"
  "keeps (\<lambda>s. P (node_at s)) (sys_list_dir E p)"
  "keeps (\<lambda>s. P (node_at s)) (next_stage E name)"
  unfolding sys_touch_def sys_canonicalize_def sys_open_dir_def sys_open_read_def sys_list_dir_def
  by (rule keeps_sys keepsI; simp add: next_stage_def split: option.splits node.splits)+

lemma keeps_option_case [keeps_intros]:
  "keeps I m \<Longrightarrow> (\<And>x. keeps I (f x)) \<Longrightarrow> keeps I (case v of None \<Rightarrow> m | Some x \<Rightarrow> f x)"
  by (cases v) simp_all

lemma keeps_node_case [keeps_intros]:
  "keeps I a \<Longrightarrow> (\<And>b. keeps I (f b)) \<Longrightarrow>
     keeps I (case n of DirNode \<Rightarrow> a | FileNode b \<Rightarrow> f b | LinkNode \<Rightarrow> a | SpecialNode \<Rightarrow> a)"
  by (cases n) simp_all

lemma keeps_for_entries [keeps_intros]:
  "keeps I (sys_list_dir E d) \<Longrightarrow> keeps I (sys_touch E) \<Longrightarrow> (\<And>name. keeps I (f name)) \<Longrightarrow>
     keeps I (for_entries E d f)"
  unfolding for_entries_def by (intro keeps_intros)

lemma keeps_read_file [keeps_intros]: "keeps (\<lambda>s. P (node_at s)) (read_file E p name)"
  unfolding read_file_def by (intro keeps_intros)

subsection \<open>Names\<close>

definition staging :: "string \<Rightarrow> bool" where
  "staging name \<longleftrightarrow> starts_with ''.stage-'' name"

lemma staging_prefix: "starts_with (stage_prefix name) n \<Longrightarrow> staging n"
  by (auto simp: staging_def stage_prefix_def starts_with_iff)

lemma not_staging [simp]:
  "\<not> staging ''metadata.json''" "\<not> staging ''journal.json''" "\<not> staging ''.''" "\<not> staging ''..''"
  by (simp_all add: staging_def)

lemma yields_next_stage: "yields (next_stage E name) staging"
  by (auto simp: yields_def next_stage_def staging_def stage_prefix_def starts_with_iff)

lemma yields_create_stage: "yields (create_stage E parent name n) staging"
proof (induction n)
  case (Suc n)
  show ?case
    unfolding create_stage.simps
    by (rule yields_bind_using [OF yields_next_stage], rule yields_match)
      (use Suc in \<open>auto simp: yields_simple\<close>)
qed (simp add: yields_simple)

lemma spec_filename_names:
  assumes "validate_driver_name driver = Inr ()"
  shows "\<not> staging (spec_filename driver uid request)"
    "spec_filename driver uid request \<noteq> ''metadata.json''"
    "spec_filename driver uid request \<noteq> ''journal.json''"
proof -
  have rfc: "rfc_subdomain driver" using assms by (simp add: validate_driver_name_ok)
  show "\<not> staging (spec_filename driver uid request)"
  proof
    assume "staging (spec_filename driver uid request)"
    then obtain r where r: "driver @ ''_metadata_'' @ uid @ ''_'' @ request @ ''.json'' = CHR ''.'' # r"
      by (auto simp: staging_def spec_filename_def)
    then have "driver = [] \<or> hd driver = CHR ''.''" by (cases driver) auto
    moreover have "driver \<noteq> []" using rfc by (rule rfc_subdomain_not_empty)
    ultimately show False
      using rfc label_not_empty by (cases driver) (auto simp: rfc_subdomain_split)
  qed
  have us: "CHR ''_'' \<in> set (spec_filename driver uid request)" by (simp add: spec_filename_def)
  have "CHR ''_'' \<notin> set ''metadata.json''" "CHR ''_'' \<notin> set ''journal.json''" by simp_all
  with us show "spec_filename driver uid request \<noteq> ''metadata.json''"
    "spec_filename driver uid request \<noteq> ''journal.json''" by auto
qed

subsection \<open>A file that is there stays\<close>

definition stored :: "node_path \<Rightarrow> string \<Rightarrow> disk \<Rightarrow> bool" where
  "stored q b s \<longleftrightarrow> node_at s q = Some (FileNode b)"

lemma stored_fun: "stored q b = (\<lambda>s. (\<lambda>m. m q = Some (FileNode b)) (node_at s))"
  by (simp add: stored_def fun_eq_iff)

lemma fold_put_dirs:
  "[] \<notin> set ds \<Longrightarrow> node_at (fold (\<lambda>d. put_node d DirNode) ds s) q
     = (if q \<in> set ds then Some DirNode else node_at s q)"
  by (induction ds arbitrary: s) auto

lemma prefixes_not_Nil: "[] \<notin> set (map (\<lambda>k. take k p) [1..<length p + 1])"
  by auto

lemma sys_create_dir_all_node:
  assumes "snd (sys_create_dir_all E path s) = s'"
  shows "node_at s' q = node_at s q \<or> (node_at s q = None \<and> node_at s' q = Some DirNode)"
proof (cases "os_fault E (dk_calls s)")
  case (Some e)
  with assms show ?thesis by (auto simp: sys_create_dir_all_def sys_def Let_def)
next
  case None
  let ?dirs = "map (\<lambda>k. take k (os_canonical E path)) [1..<length (os_canonical E path) + 1]"
  let ?s = "s\<lparr>dk_calls := dk_calls s + 1\<rparr>"
  have "sys_create_dir_all E path s =
      (if list_all (\<lambda>d. node_at ?s d = None \<or> node_at ?s d = Some DirNode) ?dirs
       then (Inr (), fold (\<lambda>d. put_node d DirNode) ?dirs ?s) else (Inl file_exists, ?s))"
    using None by (simp add: sys_create_dir_all_def sys_def Let_def)
  with assms fold_put_dirs [OF prefixes_not_Nil, of "os_canonical E path" ?s q] show ?thesis
    by (auto simp: list_all_iff split: if_splits)
qed

lemma stored_reading [keeps_intros]:
  "keeps (stored q b) (sys_touch E)" "keeps (stored q b) (sys_canonicalize E path)"
  "keeps (stored q b) (sys_open_dir E p)" "keeps (stored q b) (sys_list_dir E p)"
  "keeps (stored q b) (next_stage E name)" "keeps (stored q b) (read_file E p name)"
  unfolding stored_fun by (rule keeps_intros)+

lemma stored_create_dir_all [keeps_intros]: "keeps (stored q b) (sys_create_dir_all E path)"
  by (rule keepsI) (metis node.distinct(1) option.distinct(1) stored_def sys_create_dir_all_node)

lemma stored_mkdir [keeps_intros]: "keeps (stored q b) (sys_mkdir E p name)"
  unfolding stored_fun sys_mkdir_def by (rule keeps_sys) auto

lemma stored_create_new [keeps_intros]: "keeps (stored q b) (sys_create_new E p name)"
  unfolding stored_fun sys_create_new_def by (rule keeps_sys) auto

lemma stored_link [keeps_intros]: "keeps (stored q b) (sys_link E p old new)"
  unfolding stored_fun sys_link_def by (rule keeps_sys) (auto split: option.splits)

lemma stored_write: "p \<noteq> q \<Longrightarrow> p \<noteq> [] \<Longrightarrow> keeps (stored q b) (sys_write_all E p content)"
  by (rule keepsI) (auto simp: sys_write_all_def Let_def stored_def split: option.splits)

lemma stored_unlink: "p @ [name] \<noteq> q \<or> directory \<Longrightarrow> keeps (stored q b) (sys_unlink E p name directory)"
  unfolding stored_fun sys_unlink_def
  by (rule keeps_sys) (auto split: option.splits node.splits)

lemma stored_remove_entry: "p @ [name] \<noteq> q \<or> directory \<Longrightarrow> keeps (stored q b) (remove_entry E p name directory)"
  unfolding remove_entry_def by (intro keeps_intros stored_unlink)

lemma stored_trusted_root [keeps_intros]: "keeps (stored q b) (trusted_root E path create)"
  unfolding trusted_root_def by (intro keeps_intros)

lemma stored_open_directory [keeps_intros]: "keeps (stored q b) (open_directory E p name create)"
  unfolding open_directory_def by (intro keeps_intros)

lemma stored_open_existing [keeps_intros]: "keeps (stored q b) (open_existing E p name)"
  unfolding open_existing_def by (intro keeps_intros)

lemma stored_create_stage [keeps_intros]: "keeps (stored q b) (create_stage E p name n)"
  by (induction n) (simp_all, intro keeps_intros, auto intro: keeps_intros)

text \<open>The files whose name is not a staging name.\<close>

lemma stored_remove_stages:
  assumes "\<not> staging (last q)"
  shows "keeps (stored q b) (remove_stages E p (stage_prefix name))"
proof -
  have "keeps (stored q b) (remove_entry E p n False)" if "starts_with (stage_prefix name) n" for n
    using assms staging_prefix [OF that] by (intro stored_remove_entry) auto
  then show ?thesis
    unfolding remove_stages_def by (intro keeps_intros)
qed

lemma stored_ensure_file:
  assumes "\<not> staging (last q)"
  shows "keeps (stored q b) (ensure_file E p name content)"
proof -
  have ne: "p @ [stage] \<noteq> q" if "staging stage" for stage using assms that by auto
  have link: "keeps (stored q b) (link_stage E p name content stage)" if "staging stage" for stage
    unfolding link_stage_def by (intro keeps_intros stored_write ne that) auto
  have stages: "keeps (stored q b)
      (sm_bind (create_stage E p name 16) (\<lambda>stage.
            sm_match (link_stage E p name content stage)
              (\<lambda>error. sm_match (sys_unlink E p stage False) (\<lambda>_. sm_fail error) (\<lambda>_. sm_fail error))
              (\<lambda>_. sys_unlink E p stage False)))"
    by (rule keeps_bind_yields [OF stored_create_stage yields_create_stage])
      (intro keeps_intros link stored_unlink, auto dest: ne)
  then show ?thesis
    unfolding ensure_file_def
    by (intro keeps_if keeps_simple keeps_bind [OF stored_reading(6)] keeps_option_case stages)
qed

text \<open>A file that \<open>ensure_file\<close> reports as written.\<close>

lemma read_file_result:
  assumes "read_file E p name s = (Inr (Some b), s')"
  shows "stored (p @ [name]) b s'"
proof -
  have keep: "keeps (\<lambda>t. node_at t (p @ [name]) = node_at s (p @ [name])) (read_file E p name)"
    using keeps_read_file [of "\<lambda>m. m (p @ [name]) = node_at s (p @ [name])"] by simp
  have "node_at s (p @ [name]) = Some (FileNode b)"
    using assms
    by (auto simp: read_file_def sm_match_def sm_bind_def sys_open_read_def sys_touch_def sys_def Let_def
        sm_return_def sm_fail_def split: option.splits node.splits if_splits sum.splits prod.splits)
  with keepsD [OF keep] assms show ?thesis by (metis snd_conv stored_def)
qed

lemma triple_read_file:
  "triple (\<lambda>s. True) (read_file E p name) (\<lambda>r s. \<forall>b. r = Inr (Some b) \<longrightarrow> stored (p @ [name]) b s)"
  by (rule tripleI) (auto intro: read_file_result)

lemma triple_write_all:
  "q \<noteq> [] \<Longrightarrow> triple (\<lambda>s. True) (sys_write_all E q c) (\<lambda>r s. r = Inr () \<longrightarrow> stored q c s)"
  by (auto simp: triple_def sys_write_all_def Let_def stored_def split: option.splits)

lemma triple_link:
  "triple (stored (p @ [old]) c) (sys_link E p old new) (\<lambda>r s. r = Inr () \<longrightarrow> stored (p @ [new]) c s)"
  by (auto simp: triple_def sys_link_def sys_def Let_def stored_def split: option.splits if_splits)

lemma triple_link_stage:
  assumes "staging stage" "\<not> staging name"
  shows "triple (\<lambda>s. True) (link_stage E p name content stage)
    (\<lambda>r s. r = Inr () \<longrightarrow> stored (p @ [name]) content s)"
proof -
  have link: "triple (stored (p @ [stage]) content)
      (sm_match (sys_link E p stage name)
         (\<lambda>error. if io_error_kind error = AlreadyExists
            then sm_bind (read_file E p name) (\<lambda>found.
                   if found = Some content then sm_return () else sm_fail error)
            else sm_fail error)
         (\<lambda>_. sm_return ()))
      (\<lambda>r s. r = Inr () \<longrightarrow> stored (p @ [name]) content s)"
  proof (rule triple_match [OF triple_link])
    fix e
    have found: "triple (\<lambda>s. True) (sm_bind (read_file E p name) (\<lambda>found.
          if found = Some content then sm_return () else sm_fail e))
        (\<lambda>r s. r = Inr () \<longrightarrow> stored (p @ [name]) content s)"
      by (rule triple_bind [OF triple_read_file]) (auto intro!: triple_if triple_return triple_fail)
    show "triple (\<lambda>s. Inl e = Inr () \<longrightarrow> stored (p @ [name]) content s)
        (if io_error_kind e = AlreadyExists
         then sm_bind (read_file E p name) (\<lambda>found.
                if found = Some content then sm_return () else sm_fail e)
         else sm_fail e)
        (\<lambda>r s. r = Inr () \<longrightarrow> stored (p @ [name]) content s)"
      by (auto intro: triple_weaken [OF found] triple_fail)
  qed (simp add: triple_return)
  show ?thesis
    unfolding link_stage_def
    by (intro triple_then [OF triple_write_all] triple_then [OF triple_keeps_result] triple_then [OF link]
        triple_keeps_result stored_reading) simp
qed

lemma triple_ensure_file:
  assumes "\<not> staging name"
  shows "triple (\<lambda>s. True) (ensure_file E p name content)
    (\<lambda>r s. r = Inr () \<longrightarrow> stored (p @ [name]) content s)"
proof -
  have keep: "keeps (stored (p @ [name]) content) (sys_unlink E p stage False)" if "staging stage" for stage
    using that assms by (intro stored_unlink) auto
  have stages: "triple (\<lambda>s. True)
      (sm_bind (create_stage E p name 16) (\<lambda>stage.
            sm_match (link_stage E p name content stage)
              (\<lambda>error. sm_match (sys_unlink E p stage False) (\<lambda>_. sm_fail error) (\<lambda>_. sm_fail error))
              (\<lambda>_. sys_unlink E p stage False)))
      (\<lambda>r s. r = Inr () \<longrightarrow> stored (p @ [name]) content s)"
  proof (rule triple_bind_yields [OF _ yields_create_stage])
    fix stage assume st: "staging stage"
    show "triple (\<lambda>s. True) (sm_match (link_stage E p name content stage)
              (\<lambda>error. sm_match (sys_unlink E p stage False) (\<lambda>_. sm_fail error) (\<lambda>_. sm_fail error))
              (\<lambda>_. sys_unlink E p stage False))
        (\<lambda>r s. r = Inr () \<longrightarrow> stored (p @ [name]) content s)"
    proof (rule triple_match [OF triple_link_stage [OF st assms]])
      fix e
      show "triple (\<lambda>s. Inl e = Inr () \<longrightarrow> stored (p @ [name]) content s)
          (sm_match (sys_unlink E p stage False) (\<lambda>_. sm_fail e) (\<lambda>_. sm_fail e))
          (\<lambda>r s. r = Inr () \<longrightarrow> stored (p @ [name]) content s)"
        by (rule triple_match [where R = "\<lambda>_ _. True"]) (auto simp: triple_def sm_fail_def)
    next
      fix u
      show "triple (\<lambda>s. Inr u = Inr () \<longrightarrow> stored (p @ [name]) content s) (sys_unlink E p stage False)
          (\<lambda>r s. r = Inr () \<longrightarrow> stored (p @ [name]) content s)"
        by (rule triple_weaken [OF triple_keeps_result [OF keep [OF st]]]) auto
    qed
  qed (simp_all add: keeps_def triple_def)
  show ?thesis
    unfolding ensure_file_def
  proof (rule triple_if)
    show "triple (\<lambda>s. True) (sm_bind (read_file E p name) (\<lambda>existing.
        case existing of
          Some existing \<Rightarrow> if existing = content then sm_return ()
            else sm_fail (invalid (''immutable metadata artifact changed: '' @ name))
        | None \<Rightarrow> sm_bind (create_stage E p name 16) (\<lambda>stage.
            sm_match (link_stage E p name content stage)
              (\<lambda>error. sm_match (sys_unlink E p stage False) (\<lambda>_. sm_fail error) (\<lambda>_. sm_fail error))
              (\<lambda>_. sys_unlink E p stage False))))
      (\<lambda>r s. r = Inr () \<longrightarrow> stored (p @ [name]) content s)"
    proof (rule triple_bind [OF triple_read_file])
      fix existing
      show "triple (\<lambda>s. \<forall>b. (Inr existing :: io_error + string option) = Inr (Some b) \<longrightarrow> stored (p @ [name]) b s)
        (case existing of
          Some existing \<Rightarrow> if existing = content then sm_return ()
            else sm_fail (invalid (''immutable metadata artifact changed: '' @ name))
        | None \<Rightarrow> sm_bind (create_stage E p name 16) (\<lambda>stage.
            sm_match (link_stage E p name content stage)
              (\<lambda>error. sm_match (sys_unlink E p stage False) (\<lambda>_. sm_fail error) (\<lambda>_. sm_fail error))
              (\<lambda>_. sys_unlink E p stage False)))
        (\<lambda>r s. r = Inr () \<longrightarrow> stored (p @ [name]) content s)"
        by (cases existing) (auto intro: triple_weaken [OF stages] triple_if triple_return triple_fail)
    qed simp
  qed (simp add: triple_fail)
qed

subsection \<open>A file that is not there\<close>

definition unwritten :: "node_path \<Rightarrow> disk \<Rightarrow> bool" where
  "unwritten q s \<longleftrightarrow> (\<forall>b. \<not> stored q b s)"

lemma unwritten_fun: "unwritten q = (\<lambda>s. (\<lambda>m. \<forall>b. m q \<noteq> Some (FileNode b)) (node_at s))"
  by (simp add: unwritten_def stored_def fun_eq_iff)

lemma unwritten_reading [keeps_intros]:
  "keeps (unwritten q) (sys_touch E)" "keeps (unwritten q) (sys_canonicalize E path)"
  "keeps (unwritten q) (sys_open_dir E p)" "keeps (unwritten q) (sys_list_dir E p)"
  "keeps (unwritten q) (next_stage E name)" "keeps (unwritten q) (read_file E p name)"
  unfolding unwritten_fun by (rule keeps_intros)+

lemma unwritten_create_dir_all [keeps_intros]: "keeps (unwritten q) (sys_create_dir_all E path)"
  by (rule keepsI) (metis node.distinct(1) option.inject sys_create_dir_all_node unwritten_def stored_def)

lemma unwritten_mkdir [keeps_intros]: "keeps (unwritten q) (sys_mkdir E p name)"
  unfolding unwritten_fun sys_mkdir_def by (rule keeps_sys) auto

lemma unwritten_unlink [keeps_intros]: "keeps (unwritten q) (sys_unlink E p name directory)"
  unfolding unwritten_fun sys_unlink_def
  by (rule keeps_sys) (auto split: option.splits node.splits)

lemma unwritten_create_new: "p @ [name] \<noteq> q \<Longrightarrow> keeps (unwritten q) (sys_create_new E p name)"
  unfolding unwritten_fun sys_create_new_def by (rule keeps_sys) auto

lemma unwritten_link: "p @ [new] \<noteq> q \<Longrightarrow> keeps (unwritten q) (sys_link E p old new)"
  unfolding unwritten_fun sys_link_def by (rule keeps_sys) (auto split: option.splits)

lemma unwritten_write: "p \<noteq> q \<Longrightarrow> p \<noteq> [] \<Longrightarrow> keeps (unwritten q) (sys_write_all E p content)"
  by (rule keepsI) (auto simp: sys_write_all_def Let_def unwritten_def stored_def split: option.splits)

lemma unwritten_store [keeps_intros]:
  "keeps (unwritten q) (trusted_root E path create)"
  "keeps (unwritten q) (open_directory E p name create)"
  "keeps (unwritten q) (remove_entry E p name directory)"
  "keeps (unwritten q) (remove_stages E p prefix)"
  unfolding trusted_root_def open_directory_def remove_entry_def remove_stages_def
  by (intro keeps_intros)+

lemma unwritten_ensure_file:
  assumes "\<not> staging (last q)" "p @ [name] \<noteq> q"
  shows "keeps (unwritten q) (ensure_file E p name content)"
proof -
  have ne: "p @ [stage] \<noteq> q" if "staging stage" for stage using assms(1) that by auto
  have create: "keeps (unwritten q) (create_stage E p name n)" for n
  proof (induction n)
    case (Suc n)
    show ?case
      unfolding create_stage.simps
      by (rule keeps_bind_yields [OF unwritten_reading(5) yields_next_stage])
        (intro keeps_intros unwritten_create_new ne Suc)
  qed (simp add: keeps_simple)
  have link: "keeps (unwritten q) (link_stage E p name content stage)" if "staging stage" for stage
    unfolding link_stage_def
    by (intro keeps_bind keeps_match keeps_if keeps_simple unwritten_reading unwritten_link [OF assms(2)]
        unwritten_write ne that) simp
  have stages: "keeps (unwritten q)
      (sm_bind (create_stage E p name 16) (\<lambda>stage.
            sm_match (link_stage E p name content stage)
              (\<lambda>error. sm_match (sys_unlink E p stage False) (\<lambda>_. sm_fail error) (\<lambda>_. sm_fail error))
              (\<lambda>_. sys_unlink E p stage False)))"
    by (rule keeps_bind_yields [OF create yields_create_stage])
      (intro keeps_match keeps_simple unwritten_unlink link)
  show ?thesis
    unfolding ensure_file_def
    by (intro keeps_if keeps_simple keeps_bind [OF unwritten_reading(6)] keeps_option_case stages)
qed

end
