(* ===== verification/Metadata_Safety.thy ===== *)
theory Metadata_Safety
  imports Metadata_Files
begin

text \<open>
  The order of publication and cleanup: whatever call fails, a CDI specification of a plan is written
  only when the journal and all documents are, and the journal is removed only when all it lists is.
\<close>

subsection \<open>Where the files are\<close>

definition claim_directory :: "os \<Rightarrow> metadata_runtime \<Rightarrow> string \<Rightarrow> node_path" where
  "claim_directory E rt uid = os_canonical E (mr_local rt) @ [''dra-device-metadata'', uid]"

definition journal_path :: "os \<Rightarrow> metadata_runtime \<Rightarrow> string \<Rightarrow> node_path" where
  "journal_path E rt uid = claim_directory E rt uid @ [''journal.json'']"

definition document_path :: "os \<Rightarrow> metadata_runtime \<Rightarrow> string \<Rightarrow> string \<Rightarrow> node_path" where
  "document_path E rt uid request = claim_directory E rt uid @ [request, ''metadata.json'']"

definition spec_path :: "os \<Rightarrow> metadata_runtime \<Rightarrow> string \<Rightarrow> string \<Rightarrow> node_path" where
  "spec_path E rt uid request = os_canonical E (mr_cdi rt) @ [spec_filename (mr_driver rt) uid request]"

lemmas path_defs = claim_directory_def journal_path_def document_path_def spec_path_def

lemma last_paths [simp]:
  "last (journal_path E rt uid) = ''journal.json''"
  "last (document_path E rt uid request) = ''metadata.json''"
  "last (spec_path E rt uid request) = spec_filename (mr_driver rt) uid request"
  by (simp_all add: path_defs)

lemma yields_open_directory: "yields (open_directory E p name create) (\<lambda>fd. fd = p @ [name])"
proof -
  have "yields (sys_open_dir E q) (\<lambda>fd. fd = q)" for q
    by (auto simp: yields_def sys_open_dir_def sys_def Let_def split: option.splits node.splits)
  then show ?thesis
    unfolding open_directory_def
    by (intro yields_bind yields_bind_using) (auto simp: yields_simple intro!: yields_bind)
qed

lemma yields_trusted_root:
  "yields (trusted_root E path create) (\<lambda>fd. fd = None \<and> \<not> create \<or> fd = Some (os_canonical E path))"
proof -
  have c: "yields (sys_canonicalize E path) (\<lambda>p. p = os_canonical E path)"
    by (auto simp: yields_def sys_canonicalize_def sys_def Let_def split: option.splits if_splits)
  have o: "yields (sys_open_dir E q) (\<lambda>fd. fd = q)" for q
    by (auto simp: yields_def sys_open_dir_def sys_def Let_def split: option.splits node.splits)
  have m: "yields (sm_match (sys_canonicalize E path)
       (\<lambda>error. if io_error_kind error = NotFound \<and> \<not> create then sm_return None else sm_fail error)
       (\<lambda>path. sm_bind (sys_open_dir E path) (\<lambda>fd. sm_return (Some fd))))
       (\<lambda>fd. fd = None \<and> \<not> create \<or> fd = Some (os_canonical E path))"
    unfolding yields_def
  proof (intro allI impI)
    fix s x s'
    assume run: "sm_match (sys_canonicalize E path)
       (\<lambda>error. if io_error_kind error = NotFound \<and> \<not> create then sm_return None else sm_fail error)
       (\<lambda>path. sm_bind (sys_open_dir E path) (\<lambda>fd. sm_return (Some fd))) s = (Inr x, s')"
    obtain r t where t: "sys_canonicalize E path s = (r, t)" by fastforce
    show "x = None \<and> \<not> create \<or> x = Some (os_canonical E path)"
    proof (cases r)
      case (Inl e)
      with run t show ?thesis
        by (auto simp: sm_match_def sm_return_def sm_fail_def split: if_splits)
    next
      case (Inr p)
      with t c have "p = os_canonical E path" unfolding yields_def by blast
      with run t Inr o show ?thesis
        by (auto simp: sm_match_def sm_bind_def sm_return_def yields_def split: prod.splits sum.splits)
    qed
  qed
  then show ?thesis
    unfolding trusted_root_def by (rule yields_bind)
qed

lemma yields_root:
  "yields (sm_bind (trusted_root E path True) (some_root message)) (\<lambda>fd. fd = os_canonical E path)"
  by (rule yields_bind_using [OF yields_trusted_root]) (auto simp: some_root_def yields_simple)

lemma keeps_some_root [keeps_intros]: "keeps I (some_root message found)"
  unfolding some_root_def by (intro keeps_intros)

subsection \<open>Publication\<close>

lemma stored_persist_document:
  "\<not> staging (last q) \<Longrightarrow> keeps (stored q b) (persist_document E claim x)"
  unfolding persist_document_def
  by (cases x) (simp, intro keeps_bind stored_open_directory stored_ensure_file stored_remove_stages)

lemma stored_persist_spec:
  "\<not> staging (last q) \<Longrightarrow> keeps (stored q b) (persist_spec E driver uid cdi x)"
  unfolding persist_spec_def
  by (cases x) (simp add: Let_def, intro keeps_bind stored_ensure_file stored_remove_stages)

lemma unwritten_persist_document:
  "\<not> staging (last q) \<Longrightarrow> last q \<noteq> ''metadata.json'' \<Longrightarrow> keeps (unwritten q) (persist_document E claim x)"
  unfolding persist_document_def
  by (cases x) (simp, intro keeps_bind unwritten_store unwritten_ensure_file, auto)

lemma triple_persist_document:
  "triple (\<lambda>s. True) (persist_document E claim (request, document))
     (\<lambda>r s. r = Inr () \<longrightarrow> stored (claim @ [request, ''metadata.json'']) document s)"
  unfolding persist_document_def prod.case
proof (rule triple_bind_yields [OF _ yields_open_directory])
  fix dir assume "dir = claim @ [request]"
  then have p: "claim @ [request, ''metadata.json''] = dir @ [''metadata.json'']" by simp
  show "triple (\<lambda>s. True)
      (sm_bind (ensure_file E dir ''metadata.json'' document)
        (\<lambda>_. remove_stages E dir (stage_prefix ''metadata.json'')))
      (\<lambda>r s. r = Inr () \<longrightarrow> stored (claim @ [request, ''metadata.json'']) document s)"
    unfolding p
    by (intro triple_then [OF triple_ensure_file] triple_keeps_result stored_remove_stages) simp_all
qed (simp_all add: keeps_def triple_def)

lemma triple_persist_spec:
  assumes "\<not> staging (spec_filename driver uid request)"
  shows "triple (\<lambda>s. True) (persist_spec E driver uid cdi (request, spec))
     (\<lambda>r s. r = Inr () \<longrightarrow> stored (cdi @ [spec_filename driver uid request]) spec s)"
  unfolding persist_spec_def prod.case Let_def
  using assms by (intro triple_then [OF triple_ensure_file] triple_keeps_result stored_remove_stages) simp_all

definition documents_ready ::
    "os \<Rightarrow> codec \<Rightarrow> metadata_runtime \<Rightarrow> plan \<Rightarrow> disk \<Rightarrow> bool" where
  "documents_ready E J rt p s \<longleftrightarrow>
     (\<exists>j. js_journal J (plan_journal p (mr_driver rt)) = Inr j
        \<and> stored (journal_path E rt (cr_uid (pn_claim p))) j s
        \<and> (\<forall>x \<in> set (pn_documents p).
             stored (document_path E rt (cr_uid (pn_claim p)) (fst x)) (snd x) s))"

definition specs_written :: "os \<Rightarrow> metadata_runtime \<Rightarrow> plan \<Rightarrow> disk \<Rightarrow> bool" where
  "specs_written E rt p s \<longleftrightarrow>
     (\<forall>x \<in> set (pn_specs p). stored (spec_path E rt (cr_uid (pn_claim p)) (fst x)) (snd x) s)"

lemma keeps_ready:
  assumes "\<And>q b. \<not> staging (last q) \<Longrightarrow> keeps (stored q b) m"
  shows "keeps (documents_ready E J rt p) m"
  using assms unfolding documents_ready_def keeps_def triple_def
  by (metis last_paths(1,2) not_staging(1,2))

text \<open>The last two parts of \<open>persist\<close>, with the directories that it has opened.\<close>

abbreviation persist_rest_specs :: "os \<Rightarrow> metadata_runtime \<Rightarrow> plan \<Rightarrow> unit disk_op" where
  "persist_rest_specs E rt p \<equiv>
     sm_bind (sm_for (persist_spec E (mr_driver rt) (cr_uid (pn_claim p)) (os_canonical E (mr_cdi rt))) (pn_specs p)) (\<lambda>_.
     remove_stages E (claim_directory E rt (cr_uid (pn_claim p))) (stage_prefix ''journal.json''))"

abbreviation persist_rest_documents :: "os \<Rightarrow> metadata_runtime \<Rightarrow> plan \<Rightarrow> unit disk_op" where
  "persist_rest_documents E rt p \<equiv>
     sm_bind (sm_for (persist_document E (claim_directory E rt (cr_uid (pn_claim p)))) (pn_documents p)) (\<lambda>_.
     persist_rest_specs E rt p)"

text \<open>The file \<open>q\<close> is a specification: it is written only after the documents.\<close>

definition persist_post ::
    "os \<Rightarrow> codec \<Rightarrow> metadata_runtime \<Rightarrow> plan \<Rightarrow> node_path \<Rightarrow> io_error + unit \<Rightarrow> disk \<Rightarrow> bool" where
  "persist_post E J rt p q r s \<longleftrightarrow>
     (unwritten q s \<or> documents_ready E J rt p s)
     \<and> (r = Inr () \<longrightarrow> documents_ready E J rt p s \<and> specs_written E rt p s)"

lemma triple_persist_specs:
  assumes "validate_driver_name (mr_driver rt) = Inr ()"
  shows "triple (documents_ready E J rt p) (persist_rest_specs E rt p) (persist_post E J rt p q)"
proof -
  let ?uid = "cr_uid (pn_claim p)"
  let ?cdi = "os_canonical E (mr_cdi rt)"
  have names: "\<not> staging (spec_filename (mr_driver rt) ?uid r)" for r
    by (rule spec_filename_names [OF assms])
  have specs: "triple (documents_ready E J rt p) (sm_for (persist_spec E (mr_driver rt) ?uid ?cdi) (pn_specs p))
      (\<lambda>r s. documents_ready E J rt p s
        \<and> (r = Inr () \<longrightarrow> (\<forall>x \<in> set (pn_specs p). stored (spec_path E rt ?uid (fst x)) (snd x) s)))"
  proof (rule triple_for_each)
    fix x
    show "keeps (documents_ready E J rt p) (persist_spec E (mr_driver rt) ?uid ?cdi x)"
      by (intro keeps_ready stored_persist_spec)
    show "triple (documents_ready E J rt p) (persist_spec E (mr_driver rt) ?uid ?cdi x)
        (\<lambda>r s. r = Inr () \<longrightarrow> stored (spec_path E rt ?uid (fst x)) (snd x) s)"
      using triple_persist_spec [OF names [of "fst x"], of E ?cdi "snd x"]
      by (simp add: triple_def spec_path_def)
    show "keeps (stored (spec_path E rt ?uid (fst x)) (snd x)) (persist_spec E (mr_driver rt) ?uid ?cdi y)" for y
      by (intro stored_persist_spec) (simp add: names)
  qed
  have "keeps (\<lambda>s. documents_ready E J rt p s \<and> specs_written E rt p s)
      (remove_stages E (claim_directory E rt ?uid) (stage_prefix ''journal.json''))"
    unfolding specs_written_def
    by (intro keeps_conj keeps_ready keeps_ball stored_remove_stages) (simp_all add: names)
  then have last: "triple (\<lambda>s. documents_ready E J rt p s \<and> specs_written E rt p s)
      (remove_stages E (claim_directory E rt ?uid) (stage_prefix ''journal.json'')) (persist_post E J rt p q)"
    unfolding keeps_def by (rule triple_weaken) (auto simp: persist_post_def)
  show ?thesis
    by (rule triple_bind [OF specs])
      (auto simp: persist_post_def specs_written_def intro: triple_weaken [OF last])
qed

lemma triple_persist_documents:
  assumes "validate_driver_name (mr_driver rt) = Inr ()"
    and "\<not> staging (last q)" "last q \<noteq> ''metadata.json''" "js_journal J (plan_journal p (mr_driver rt)) = Inr j"
  shows "triple (\<lambda>s. unwritten q s \<and> stored (journal_path E rt (cr_uid (pn_claim p))) j s)
    (persist_rest_documents E rt p) (persist_post E J rt p q)"
proof -
  let ?uid = "cr_uid (pn_claim p)"
  let ?claim = "claim_directory E rt ?uid"
  let ?I = "\<lambda>s. unwritten q s \<and> stored (journal_path E rt ?uid) j s"
  have docs: "triple ?I (sm_for (persist_document E ?claim) (pn_documents p))
      (\<lambda>r s. ?I s \<and> (r = Inr () \<longrightarrow> (\<forall>x \<in> set (pn_documents p). stored (document_path E rt ?uid (fst x)) (snd x) s)))"
  proof (rule triple_for_each)
    fix x
    show "keeps ?I (persist_document E ?claim x)"
      using assms(2,3) by (intro keeps_conj unwritten_persist_document stored_persist_document) simp_all
    show "triple ?I (persist_document E ?claim x) (\<lambda>r s. r = Inr () \<longrightarrow> stored (document_path E rt ?uid (fst x)) (snd x) s)"
      using triple_persist_document [of E ?claim "fst x" "snd x"] by (simp add: triple_def document_path_def)
    show "keeps (stored (document_path E rt ?uid (fst x)) (snd x)) (persist_document E ?claim y)" for y
      by (intro stored_persist_document) simp
  qed
  show ?thesis
  proof (rule triple_bind [OF docs])
    fix u :: unit
    show "triple (\<lambda>s. ?I s \<and> ((Inr u :: io_error + unit) = Inr () \<longrightarrow>
        (\<forall>x \<in> set (pn_documents p). stored (document_path E rt ?uid (fst x)) (snd x) s)))
        (persist_rest_specs E rt p) (persist_post E J rt p q)"
      by (rule triple_weaken [OF triple_persist_specs [OF assms(1)]]) (auto simp: documents_ready_def assms(4))
  qed (simp add: persist_post_def)
qed

lemma triple_persist_journal:
  assumes "validate_driver_name (mr_driver rt) = Inr ()"
    and "\<not> staging (last q)" "last q \<noteq> ''metadata.json''" "last q \<noteq> ''journal.json''"
  shows "triple (unwritten q)
    (sm_bind (sm_lift (res_map_err io_other (js_journal J (plan_journal p (mr_driver rt))))) (\<lambda>j.
     sm_bind (ensure_file E (claim_directory E rt (cr_uid (pn_claim p))) ''journal.json'' j) (\<lambda>_.
     persist_rest_documents E rt p))) (persist_post E J rt p q)"
proof (rule triple_bind_yields [where R = "\<lambda>j. js_journal J (plan_journal p (mr_driver rt)) = Inr j"])
  let ?claim = "claim_directory E rt (cr_uid (pn_claim p))"
  fix j assume j: "js_journal J (plan_journal p (mr_driver rt)) = Inr j"
  have "keeps (unwritten q) (ensure_file E ?claim ''journal.json'' j)"
    using assms(2,4) by (intro unwritten_ensure_file) auto
  then have ensured: "triple (unwritten q) (ensure_file E ?claim ''journal.json'' j)
      (\<lambda>r s. unwritten q s \<and> (r = Inr () \<longrightarrow> stored (journal_path E rt (cr_uid (pn_claim p))) j s))"
    using triple_ensure_file [of "''journal.json''" E ?claim j]
    by (auto simp: keeps_def triple_def journal_path_def)
  show "triple (unwritten q) (sm_bind (ensure_file E ?claim ''journal.json'' j) (\<lambda>_. persist_rest_documents E rt p))
      (persist_post E J rt p q)"
    by (rule triple_bind [OF ensured])
      (auto simp: persist_post_def intro: triple_weaken [OF triple_persist_documents [OF assms(1-3) j]])
qed (auto intro: keeps_simple simp: yields_def sm_lift_def res_simps persist_post_def)

lemma triple_persist:
  assumes "validate_driver_name (mr_driver rt) = Inr ()"
  shows "triple (unwritten (spec_path E rt (cr_uid (pn_claim p)) request)) (persist E J rt p)
    (\<lambda>r s. (unwritten (spec_path E rt (cr_uid (pn_claim p)) request) s \<or> documents_ready E J rt p s)
       \<and> (r = Inr () \<longrightarrow> documents_ready E J rt p s \<and> specs_written E rt p s))"
proof -
  define q where "q = spec_path E rt (cr_uid (pn_claim p)) request"
  have q: "\<not> staging (last q)" "last q \<noteq> ''metadata.json''" "last q \<noteq> ''journal.json''"
    using spec_filename_names [OF assms] by (simp_all add: q_def)
  note journal = triple_persist_journal [OF assms q, of J p E]
  have failed: "persist_post E J rt p q (Inl e) s" if "unwritten q s" for e s
    using that by (simp add: persist_post_def)
  have "triple (unwritten q) (persist E J rt p) (persist_post E J rt p q)"
    unfolding persist_def
    apply (rule triple_bind_yields [OF _ yields_root], (intro keeps_intros)[1])
     apply (rule triple_bind_yields [OF _ yields_open_directory], (intro keeps_intros)[1])
      apply (rule triple_bind_yields [OF _ yields_open_directory], (intro keeps_intros)[1])
       apply (rule triple_bind_yields [OF _ yields_root], (intro keeps_intros)[1])
        apply (use journal failed in \<open>simp_all add: claim_directory_def\<close>)
    done
  then show ?thesis by (simp add: q_def persist_post_def [abs_def])
qed

subsection \<open>Files that are gone\<close>

definition absent :: "node_path \<Rightarrow> disk \<Rightarrow> bool" where
  "absent q s \<longleftrightarrow> node_at s q = None"

lemma absent_fun: "absent q = (\<lambda>s. (\<lambda>m. m q = None) (node_at s))"
  by (simp add: absent_def fun_eq_iff)

text \<open>Every node lies in a directory.\<close>

definition tree_ok :: "disk \<Rightarrow> bool" where
  "tree_ok s \<longleftrightarrow> (\<forall>d x. node_at s (d @ [x]) \<noteq> None \<longrightarrow> node_at s d = Some DirNode)"

lemma tree_fun: "tree_ok = (\<lambda>s. (\<lambda>m. \<forall>d x. m (d @ [x]) \<noteq> None \<longrightarrow> m d = Some DirNode) (node_at s))"
  by (simp add: tree_ok_def fun_eq_iff)

text \<open>An operating system that says "not found" only when it is so.\<close>

definition honest :: "os \<Rightarrow> bool" where
  "honest E \<longleftrightarrow> (\<forall>n e. os_fault E n = Some e \<longrightarrow> io_error_kind e \<noteq> NotFound)"

lemmas error_defs = not_found_def file_exists_def not_directory_def is_directory_def not_empty_def
  too_many_links_def

lemma absent_unlink [keeps_intros]: "keeps (absent q) (sys_unlink E p name directory)"
  unfolding absent_fun sys_unlink_def by (rule keeps_sys) (auto split: option.splits node.splits)

lemma tree_unlink [keeps_intros]: "keeps tree_ok (sys_unlink E p name directory)"
proof (rule keepsI)
  fix s assume t: "tree_ok s"
  let ?q = "p @ [name]"
  let ?s' = "snd (sys_unlink E p name directory s)"
  have "node_at ?s' = node_at s \<or>
      (node_at ?s' = (\<lambda>r. if r = ?q then None else node_at s r)
        \<and> (node_at s ?q = Some DirNode \<longrightarrow> names_in s ?q = []))"
    by (auto simp: sys_unlink_def sys_def Let_def fun_eq_iff names_in_def split: option.splits node.splits)
  then show "tree_ok ?s'"
  proof
    assume "node_at ?s' = node_at s"
    with t show ?thesis by (simp add: tree_ok_def)
  next
    assume a: "node_at ?s' = (\<lambda>r. if r = ?q then None else node_at s r)
        \<and> (node_at s ?q = Some DirNode \<longrightarrow> names_in s ?q = [])"
    have "node_at s (?q @ [x]) = None" for x
    proof (cases "node_at s ?q = Some DirNode")
      case True
      with a have "x \<notin> set (names_in s ?q)" by simp
      then show ?thesis by (simp add: set_names_in)
    next
      case False
      with t show ?thesis unfolding tree_ok_def by blast
    qed
    with a t show ?thesis by (auto simp: tree_ok_def)
  qed
qed

lemma absent_store [keeps_intros]:
  "keeps (absent q) (sys_touch E)" "keeps (absent q) (sys_canonicalize E path)"
  "keeps (absent q) (sys_open_dir E p)" "keeps (absent q) (sys_list_dir E p)"
  "keeps (absent q) (read_file E p name)"
  unfolding absent_fun by (rule keeps_intros)+

lemma tree_store [keeps_intros]:
  "keeps tree_ok (sys_touch E)" "keeps tree_ok (sys_canonicalize E path)"
  "keeps tree_ok (sys_open_dir E p)" "keeps tree_ok (sys_list_dir E p)"
  "keeps tree_ok (read_file E p name)"
  unfolding tree_fun by (rule keeps_intros)+

lemma absent_removals [keeps_intros]:
  "keeps (absent q) (remove_entry E p name directory)" "keeps (absent q) (remove_stages E p prefix)"
  "keeps (absent q) (trusted_root E path False)" "keeps (absent q) (open_directory E p name False)"
  "keeps (absent q) (open_existing E p name)"
  unfolding remove_entry_def remove_stages_def trusted_root_def open_existing_def open_directory_def if_False
  by (intro keeps_intros)+

lemma tree_removals [keeps_intros]:
  "keeps tree_ok (remove_entry E p name directory)" "keeps tree_ok (remove_stages E p prefix)"
  "keeps tree_ok (trusted_root E path False)" "keeps tree_ok (open_directory E p name False)"
  "keeps tree_ok (open_existing E p name)"
  unfolding remove_entry_def remove_stages_def trusted_root_def open_existing_def open_directory_def if_False
  by (intro keeps_intros)+

text \<open>What "not found" and success mean.\<close>

lemma triple_unlink:
  assumes "honest E"
  shows "triple (\<lambda>s. True) (sys_unlink E p name directory)
    (\<lambda>r s. (case r of Inl e \<Rightarrow> io_error_kind e = NotFound | Inr _ \<Rightarrow> True) \<longrightarrow> absent (p @ [name]) s)"
  using assms
  by (auto simp: triple_def sys_unlink_def sys_def Let_def absent_def honest_def error_defs
      split: option.splits node.splits sum.splits)

lemma triple_remove_entry:
  assumes "honest E"
  shows "triple (\<lambda>s. True) (remove_entry E p name directory) (\<lambda>r s. r = Inr () \<longrightarrow> absent (p @ [name]) s)"
  unfolding remove_entry_def
proof (rule triple_match [OF triple_unlink [OF assms]])
  fix e
  show "triple (\<lambda>s. (case Inl e of Inl e \<Rightarrow> io_error_kind e = NotFound | Inr _ \<Rightarrow> True) \<longrightarrow> absent (p @ [name]) s)
      (if io_error_kind e = NotFound then sm_return () else sm_fail e)
      (\<lambda>r s. r = Inr () \<longrightarrow> absent (p @ [name]) s)"
    by (auto intro: triple_return triple_fail)
next
  fix u :: unit
  show "triple (\<lambda>s. (case (Inr u :: io_error + unit) of Inl e \<Rightarrow> io_error_kind e = NotFound | Inr _ \<Rightarrow> True)
      \<longrightarrow> absent (p @ [name]) s) (sys_touch E) (\<lambda>r s. r = Inr () \<longrightarrow> absent (p @ [name]) s)"
    by (rule triple_weaken [OF triple_keeps_result [OF absent_store(1)]]) auto
qed

lemma triple_read_absent:
  assumes "honest E"
  shows "triple (\<lambda>s. True) (read_file E p name) (\<lambda>r s. r = Inr None \<longrightarrow> absent (p @ [name]) s)"
proof (rule tripleI, rule impI)
  fix s r s' assume run: "read_file E p name s = (r, s')" "r = Inr None"
  then have "absent (p @ [name]) s"
    using assms
    by (auto simp: read_file_def sm_match_def sm_bind_def sys_open_read_def sys_touch_def sys_def Let_def
        sm_return_def sm_fail_def absent_def honest_def error_defs
        split: option.splits node.splits if_splits sum.splits prod.splits)
  then show "absent (p @ [name]) s'" using keepsD [OF absent_store(5)] run by (metis snd_conv)
qed

lemma triple_open_absent:
  assumes "honest E"
  shows "triple (\<lambda>s. True) (open_existing E p name)
    (\<lambda>r s. case r of Inr (Some fd) \<Rightarrow> fd = p @ [name] | Inr None \<Rightarrow> absent (p @ [name]) s | Inl _ \<Rightarrow> True)"
  using assms
  by (auto simp: triple_def open_existing_def open_directory_def sm_match_def sm_bind_def sm_return_def
      sm_fail_def sys_open_dir_def sys_def Let_def absent_def honest_def error_defs
      split: option.splits node.splits sum.splits prod.splits if_splits)

lemma triple_root_absent:
  assumes "honest E"
  shows "triple (\<lambda>s. True) (trusted_root E path False)
    (\<lambda>r s. case r of Inr (Some fd) \<Rightarrow> fd = os_canonical E path
       | Inr None \<Rightarrow> absent (os_canonical E path) s | Inl _ \<Rightarrow> True)"
  using assms
  by (auto simp: triple_def trusted_root_def sm_match_def sm_bind_def sm_return_def
      sm_fail_def sys_canonicalize_def sys_open_dir_def sys_def Let_def absent_def honest_def error_defs
      split: option.splits node.splits sum.splits prod.splits if_splits)

lemma tree_absent: "tree_ok s \<Longrightarrow> absent d s \<Longrightarrow> absent (d @ [x]) s"
  unfolding tree_ok_def absent_def by (metis option.distinct(1))

end
