(* ===== verification/Metadata_Cleanup.thy ===== *)
theory Metadata_Cleanup
  imports Metadata_Safety
begin

text \<open>
  Cleanup removes what the journal lists before the journal, whatever call fails; the properties of
  publication and cleanup, and an example of both.
\<close>

subsection \<open>One entry of the journal\<close>

lemma stored_remove_spec:
  assumes "\<not> staging (last q)" "cdi @ [spec_filename driver uid request] \<noteq> q"
  shows "keeps (stored q b) (remove_spec E driver uid cdi specs request)"
  unfolding remove_spec_def Let_def
  by (intro keeps_bind stored_reading keeps_option_case keeps_if keeps_simple
      stored_remove_entry stored_remove_stages) (use assms in auto)

lemma stored_remove_document:
  assumes "\<not> staging (last q)" "last q \<noteq> ''metadata.json''"
  shows "keeps (stored q b) (remove_document E claim request)"
  unfolding remove_document_def
  by (intro keeps_bind stored_open_existing keeps_option_case keeps_simple
      stored_remove_entry stored_remove_stages) (use assms in auto)

lemma tree_removes [keeps_intros]:
  "keeps tree_ok (remove_spec E driver uid cdi specs request)" "keeps tree_ok (remove_document E claim request)"
  unfolding remove_spec_def remove_document_def Let_def by (intro keeps_intros)+

lemma absent_removes [keeps_intros]:
  "keeps (absent q) (remove_spec E driver uid cdi specs request)"
  "keeps (absent q) (remove_document E claim request)"
  unfolding remove_spec_def remove_document_def Let_def by (intro keeps_intros)+

lemma triple_remove_spec:
  assumes "honest E"
  shows "triple (\<lambda>s. True) (remove_spec E driver uid cdi specs request)
    (\<lambda>r s. r = Inr () \<longrightarrow> absent (cdi @ [spec_filename driver uid request]) s)"
proof -
  let ?name = "spec_filename driver uid request"
  let ?A = "absent (cdi @ [?name])"
  have "triple (\<lambda>s. True)
      (sm_bind (read_file E cdi ?name) (\<lambda>existing.
           case existing of
             None \<Rightarrow> sm_return ()
           | Some existing \<Rightarrow>
               if Some existing \<noteq> bt_lookup specs request
               then sm_fail (invalid ''foreign or changed CDI spec; refusing cleanup'')
               else remove_entry E cdi ?name False))
      (\<lambda>r s. r = Inr () \<longrightarrow> ?A s)"
  proof (rule triple_bind [OF triple_read_absent [OF assms]])
    fix existing :: "string option"
    show "triple (\<lambda>s. (Inr existing :: io_error + string option) = Inr None \<longrightarrow> ?A s)
        (case existing of
             None \<Rightarrow> sm_return ()
           | Some existing \<Rightarrow>
               if Some existing \<noteq> bt_lookup specs request
               then sm_fail (invalid ''foreign or changed CDI spec; refusing cleanup'')
               else remove_entry E cdi ?name False)
        (\<lambda>r s. r = Inr () \<longrightarrow> ?A s)"
      by (cases existing)
        (auto intro: triple_return triple_fail triple_weaken [OF triple_remove_entry [OF assms]])
  qed simp
  then show ?thesis
    unfolding remove_spec_def Let_def
    by (rule triple_then) (intro triple_keeps_result keeps_intros)
qed

lemma triple_remove_document:
  assumes "honest E"
  shows "triple tree_ok (remove_document E claim request)
    (\<lambda>r s. r = Inr () \<longrightarrow> absent (claim @ [request, ''metadata.json'']) s)"
  unfolding remove_document_def
proof (rule triple_bind)
  show "triple tree_ok (open_existing E claim request)
      (\<lambda>r s. (case r of Inr (Some fd) \<Rightarrow> fd = claim @ [request] | Inr None \<Rightarrow> absent (claim @ [request]) s | Inl _ \<Rightarrow> True)
        \<and> tree_ok s)"
    using triple_keeps [OF triple_open_absent [OF assms] tree_removals(5)] by simp
next
  fix dir
  show "triple (\<lambda>s. (case Inr dir of Inr (Some fd) \<Rightarrow> fd = claim @ [request]
          | Inr None \<Rightarrow> absent (claim @ [request]) s | Inl _ \<Rightarrow> True) \<and> tree_ok s)
      (case dir of
         None \<Rightarrow> sm_return ()
       | Some dir \<Rightarrow>
           sm_bind (remove_entry E dir ''metadata.json'' False) (\<lambda>_.
           sm_bind (remove_stages E dir (stage_prefix ''metadata.json'')) (\<lambda>_.
           remove_entry E claim request True)))
      (\<lambda>r s. r = Inr () \<longrightarrow> absent (claim @ [request, ''metadata.json'']) s)"
  proof (cases dir)
    case None
    then show ?thesis
      using tree_absent [of _ "claim @ [request]" "''metadata.json''"] by (auto intro!: triple_return)
  next
    case (Some d)
    have "triple (\<lambda>s. d = claim @ [request])
        (sm_bind (remove_entry E d ''metadata.json'' False) (\<lambda>_.
           sm_bind (remove_stages E d (stage_prefix ''metadata.json'')) (\<lambda>_.
           remove_entry E claim request True)))
        (\<lambda>r s. r = Inr () \<longrightarrow> absent (d @ [''metadata.json'']) s)"
    proof (rule triple_then)
      show "triple (\<lambda>s. d = claim @ [request]) (remove_entry E d ''metadata.json'' False)
          (\<lambda>r s. r = Inr () \<longrightarrow> absent (d @ [''metadata.json'']) s)"
        by (rule triple_weaken [OF triple_remove_entry [OF assms]]) auto
      show "triple (absent (d @ [''metadata.json'']))
          (sm_bind (remove_stages E d (stage_prefix ''metadata.json'')) (\<lambda>_. remove_entry E claim request True))
          (\<lambda>r s. r = Inr () \<longrightarrow> absent (d @ [''metadata.json'']) s)"
        by (intro triple_keeps_result keeps_intros)
    qed
    then show ?thesis
      using Some by (auto simp: triple_def)
  qed
qed simp

subsection \<open>The cleanup of a claim\<close>

definition journal_gone_last ::
    "os \<Rightarrow> metadata_runtime \<Rightarrow> string \<Rightarrow> journal \<Rightarrow> disk \<Rightarrow> bool" where
  "journal_gone_last E rt uid j s \<longleftrightarrow>
     (\<forall>r \<in> set (map fst (jn_specs j)). absent (spec_path E rt uid r) s)
     \<and> (\<forall>r \<in> set (map fst (jn_documents j)). absent (document_path E rt uid r) s)"

lemma keeps_gone:
  "(\<And>q. keeps (absent q) m) \<Longrightarrow> keeps (journal_gone_last E rt uid j) m"
  unfolding journal_gone_last_def by (intro keeps_conj keeps_ball) auto

text \<open>What comes after the specifications are gone, in the order of the code from the end.\<close>

lemma triple_cleanup_end:
  assumes "validate_driver_name (mr_driver rt) = Inr ()"
  shows "triple (\<lambda>s. stored (journal_path E rt (cr_uid c)) b s \<and> journal_gone_last E rt (cr_uid c) j s)
    (sm_bind (remove_stages E (claim_directory E rt (cr_uid c)) (stage_prefix ''journal.json'')) (\<lambda>_.
     sm_bind (check_unknown E (claim_directory E rt (cr_uid c))) (\<lambda>_.
     sm_bind (remove_entry E (claim_directory E rt (cr_uid c)) ''journal.json'' False) (\<lambda>_.
     remove_entry E data_root (cr_uid c) True))))
    (\<lambda>r s. stored (journal_path E rt (cr_uid c)) b s \<or> journal_gone_last E rt (cr_uid c) j s)"
    (is "triple ?K (sm_bind ?stages (\<lambda>_. sm_bind ?unknown (\<lambda>_. ?last))) ?Q")
proof -
  have "keeps (journal_gone_last E rt (cr_uid c) j) ?last"
    by (intro keeps_gone keeps_intros)
  then have last: "triple ?K ?last ?Q" by (auto simp: keeps_def triple_def)
  have "keeps ?K ?stages" by (intro keeps_conj keeps_gone stored_remove_stages absent_removals) simp
  moreover have "keeps ?K ?unknown"
    unfolding check_unknown_def
    by (intro keeps_conj keeps_gone keeps_for_entries keeps_if keeps_simple stored_reading absent_store)
  ultimately show ?thesis
    by (intro triple_then_keeps [OF \<open>keeps ?K ?stages\<close>] triple_then_keeps [OF \<open>keeps ?K ?unknown\<close>] last) auto
qed

lemma triple_cleanup_documents:
  assumes "honest E" "validate_driver_name (mr_driver rt) = Inr ()"
  shows "triple (\<lambda>s. (tree_ok s \<and> stored (journal_path E rt (cr_uid c)) b s)
      \<and> (\<forall>r \<in> set (map fst (jn_specs j)). absent (spec_path E rt (cr_uid c) r) s))
    (sm_bind (sm_for (remove_document E (claim_directory E rt (cr_uid c))) (map fst (jn_documents j))) (\<lambda>_.
     sm_bind (remove_stages E (claim_directory E rt (cr_uid c)) (stage_prefix ''journal.json'')) (\<lambda>_.
     sm_bind (check_unknown E (claim_directory E rt (cr_uid c))) (\<lambda>_.
     sm_bind (remove_entry E (claim_directory E rt (cr_uid c)) ''journal.json'' False) (\<lambda>_.
     remove_entry E data_root (cr_uid c) True)))))
    (\<lambda>r s. stored (journal_path E rt (cr_uid c)) b s \<or> journal_gone_last E rt (cr_uid c) j s)"
    (is "triple ?K (sm_bind ?documents (\<lambda>_. ?end)) ?Q")
proof -
  let ?docs = "\<lambda>s. \<forall>r \<in> set (map fst (jn_documents j)). absent (document_path E rt (cr_uid c) r) s"
  have documents: "triple ?K ?documents (\<lambda>r s. ?K s \<and> (r = Inr () \<longrightarrow> ?docs s))"
  proof (rule triple_for_each)
    fix r
    show "keeps ?K (remove_document E (claim_directory E rt (cr_uid c)) r)"
      by (intro keeps_conj keeps_ball tree_removes absent_removes stored_remove_document) simp_all
    show "triple ?K (remove_document E (claim_directory E rt (cr_uid c)) r)
        (\<lambda>m s. m = Inr () \<longrightarrow> absent (document_path E rt (cr_uid c) r) s)"
      using triple_remove_document [OF assms(1), of "claim_directory E rt (cr_uid c)" r]
      by (auto simp: triple_def document_path_def)
  qed (intro keeps_intros)
  show ?thesis
  proof (rule triple_bind [OF documents])
    fix u :: unit
    show "triple (\<lambda>s. ?K s \<and> ((Inr u :: io_error + unit) = Inr () \<longrightarrow> ?docs s)) ?end ?Q"
      by (rule triple_weaken [OF triple_cleanup_end [OF assms(2), of E c b j]]) (auto simp: journal_gone_last_def)
  qed simp
qed

lemma triple_cleanup_specs:
  assumes "honest E" "validate_driver_name (mr_driver rt) = Inr ()"
  shows "triple (\<lambda>s. tree_ok s \<and> stored (journal_path E rt (cr_uid c)) b s)
    (sm_for (remove_spec E (mr_driver rt) (cr_uid c) (os_canonical E (mr_cdi rt)) (jn_specs j)) (map fst (jn_specs j)))
    (\<lambda>r s. (tree_ok s \<and> stored (journal_path E rt (cr_uid c)) b s)
      \<and> (r = Inr () \<longrightarrow> (\<forall>r \<in> set (map fst (jn_specs j)). absent (spec_path E rt (cr_uid c) r) s)))"
    (is "triple ?I (sm_for ?remove _) _")
proof (rule triple_for_each)
  have names: "cdi @ [spec_filename (mr_driver rt) (cr_uid c) r] \<noteq> journal_path E rt (cr_uid c)" for cdi r
    using spec_filename_names(3) [OF assms(2), of "cr_uid c" r] by (auto simp: journal_path_def)
  fix r
  show "keeps ?I (?remove r)"
    by (intro keeps_conj tree_removes stored_remove_spec names) simp
  show "triple ?I (?remove r) (\<lambda>m s. m = Inr () \<longrightarrow> absent (spec_path E rt (cr_uid c) r) s)"
    using triple_remove_spec [OF assms(1), of "mr_driver rt" "cr_uid c" "os_canonical E (mr_cdi rt)" "jn_specs j" r]
    by (auto simp: triple_def spec_path_def)
qed (intro keeps_intros)

lemma triple_cleanup_journal:
  assumes "honest E" "validate_driver_name (mr_driver rt) = Inr ()"
  shows "triple (\<lambda>s. tree_ok s \<and> stored (journal_path E rt (cr_uid c)) b s)
    (cleanup_journal E rt c data_root (claim_directory E rt (cr_uid c)) j)
    (\<lambda>r s. stored (journal_path E rt (cr_uid c)) b s \<or> journal_gone_last E rt (cr_uid c) j s)"
    (is "triple ?I _ ?Q")
  unfolding cleanup_journal_def
proof (rule triple_bind)
  show "triple ?I (trusted_root E (mr_cdi rt) False)
      (\<lambda>r s. (case r of Inr (Some fd) \<Rightarrow> fd = os_canonical E (mr_cdi rt)
         | Inr None \<Rightarrow> absent (os_canonical E (mr_cdi rt)) s | Inl _ \<Rightarrow> True) \<and> ?I s)"
    using triple_keeps [OF triple_root_absent [OF assms(1)]
        keeps_conj [OF tree_removals(3) stored_trusted_root]] by simp
next
  note documents = triple_cleanup_documents [OF assms, of c b j data_root]
  fix cdi
  let ?R = "\<lambda>s. (case (Inr cdi :: io_error + node_path option) of Inr (Some fd) \<Rightarrow> fd = os_canonical E (mr_cdi rt)
         | Inr None \<Rightarrow> absent (os_canonical E (mr_cdi rt)) s | Inl _ \<Rightarrow> True) \<and> ?I s"
  let ?rest = "sm_bind (sm_for (remove_document E (claim_directory E rt (cr_uid c))) (map fst (jn_documents j))) (\<lambda>_.
     sm_bind (remove_stages E (claim_directory E rt (cr_uid c)) (stage_prefix ''journal.json'')) (\<lambda>_.
     sm_bind (check_unknown E (claim_directory E rt (cr_uid c))) (\<lambda>_.
     sm_bind (remove_entry E (claim_directory E rt (cr_uid c)) ''journal.json'' False) (\<lambda>_.
     remove_entry E data_root (cr_uid c) True))))"
  show "triple ?R (sm_bind (case cdi of None \<Rightarrow> sm_return ()
       | Some cdi \<Rightarrow> sm_for (remove_spec E (mr_driver rt) (cr_uid c) cdi (jn_specs j)) (map fst (jn_specs j)))
       (\<lambda>_. ?rest)) ?Q"
  proof (cases cdi)
    case None
    have "triple ?R (sm_return ()) (\<lambda>r s. ?I s \<and> (\<forall>r \<in> set (map fst (jn_specs j)). absent (spec_path E rt (cr_uid c) r) s))"
      using None by (auto intro!: triple_return simp: spec_path_def tree_absent)
    then show ?thesis
      using None by (auto intro: triple_bind [OF _ _ documents])
  next
    case (Some d)
    have "triple ?I (sm_bind (sm_for (remove_spec E (mr_driver rt) (cr_uid c) (os_canonical E (mr_cdi rt)) (jn_specs j))
          (map fst (jn_specs j))) (\<lambda>_. ?rest)) ?Q"
      by (rule triple_bind [OF triple_cleanup_specs [OF assms, of c b j]]) (use documents in \<open>auto simp: triple_def\<close>)
    then show ?thesis using Some by (auto simp: triple_def)
  qed
qed simp

text \<open>\<open>cleanup_blocking\<close> comes to the directory of the claim or ends before it.\<close>

lemma yields_open_existing:
  assumes "honest E"
  shows "yields (open_existing E p name) (\<lambda>fd. fd = None \<or> fd = Some (p @ [name]))"
  unfolding yields_def
proof (intro allI impI)
  fix s x s'
  assume r: "open_existing E p name s = (Inr x, s')"
  show "x = None \<or> x = Some (p @ [name])"
    using tripleD [OF triple_open_absent [OF assms, of p name] TrueI r] by (cases x) simp_all
qed

lemma triple_if_found:
  assumes "keeps I m" "yields m (\<lambda>fd. fd = None \<or> fd = Some p)" "triple I (f p) Q" "\<And>r s. I s \<Longrightarrow> Q r s"
  shows "triple I (sm_bind m (\<lambda>fd. case fd of None \<Rightarrow> sm_return () | Some d \<Rightarrow> f d)) Q"
proof (rule triple_bind_yields [OF assms(1,2)])
  fix fd
  assume "fd = None \<or> fd = Some p"
  then show "triple I (case fd of None \<Rightarrow> sm_return () | Some d \<Rightarrow> f d) Q"
    using assms(3,4) by (auto simp: triple_def sm_return_def)
qed (rule assms(4))

lemma triple_cleanup_blocking:
  assumes "honest E" "keeps I (trusted_root E (mr_local rt) False)" "\<And>p name. keeps I (open_existing E p name)"
    and "\<And>data_root. triple I (cleanup_claim E J rt c data_root (data_root @ [cr_uid c])) Q
      \<or> data_root @ [cr_uid c] \<noteq> claim_directory E rt (cr_uid c)"
    and "\<And>r s. I s \<Longrightarrow> Q r s"
  shows "triple I (cleanup_blocking E J rt c) Q"
proof -
  let ?local = "os_canonical E (mr_local rt)"
  let ?data = "?local @ [''dra-device-metadata'']"
  have "triple I (cleanup_claim E J rt c ?data (?data @ [cr_uid c])) Q"
    using assms(4) [of ?data] by (simp add: claim_directory_def)
  then have claim: "triple I (sm_bind (open_existing E ?data (cr_uid c))
      (\<lambda>fd. case fd of None \<Rightarrow> sm_return () | Some d \<Rightarrow> cleanup_claim E J rt c ?data d)) Q"
    by (rule triple_if_found [OF assms(3) yields_open_existing [OF assms(1)] _ assms(5)])
  have data: "triple I (sm_bind (open_existing E ?local ''dra-device-metadata'')
      (\<lambda>fd. case fd of None \<Rightarrow> sm_return () | Some d \<Rightarrow> sm_bind (open_existing E d (cr_uid c))
        (\<lambda>fd. case fd of None \<Rightarrow> sm_return () | Some claim \<Rightarrow> cleanup_claim E J rt c d claim))) Q"
    by (rule triple_if_found [OF assms(3) yields_open_existing [OF assms(1)] _ assms(5)]) (rule claim)
  have "yields (trusted_root E (mr_local rt) False) (\<lambda>fd. fd = None \<or> fd = Some ?local)"
    using yields_trusted_root [of E "mr_local rt" False] by simp
  then show ?thesis
    unfolding cleanup_blocking_def
    by (intro triple_if triple_fail assms(5) triple_if_found [OF assms(2)]) (use data in auto)
qed

lemma triple_cleanup_accepted:
  assumes "honest E" "validate_driver_name (mr_driver rt) = Inr ()" "js_read_journal J b = Inr j"
  shows "triple (\<lambda>s. tree_ok s \<and> stored (journal_path E rt (cr_uid c)) b s)
    (cleanup_claim E J rt c data_root (claim_directory E rt (cr_uid c)))
    (\<lambda>r s. stored (journal_path E rt (cr_uid c)) b s \<or> journal_gone_last E rt (cr_uid c) j s)"
    (is "triple ?I _ ?Q")
  unfolding cleanup_claim_def
proof (rule triple_bind)
  let ?claim = "claim_directory E rt (cr_uid c)"
  show "triple ?I (read_file E ?claim ''journal.json'')
      (\<lambda>r s. (\<forall>x. r = Inr (Some x) \<longrightarrow> stored (journal_path E rt (cr_uid c)) x s) \<and> ?I s)"
    using triple_keeps [OF triple_read_file keeps_conj [OF tree_store(5) stored_reading(6)]]
    by (simp add: journal_path_def)
  fix bytes
  let ?R = "\<lambda>s. (\<forall>x. (Inr bytes :: io_error + string option) = Inr (Some x)
      \<longrightarrow> stored (journal_path E rt (cr_uid c)) x s) \<and> ?I s"
  show "triple ?R
    (case bytes of
       None \<Rightarrow>
         sm_bind (remove_stages E ?claim (stage_prefix ''journal.json'')) (\<lambda>_.
         remove_entry E data_root (cr_uid c) True)
     | Some bytes \<Rightarrow>
         sm_bind (sm_lift (res_map_err io_other (js_read_journal J bytes))) (\<lambda>journal.
         sm_bind (sm_lift (check_journal (mr_driver rt) c journal)) (\<lambda>_.
         cleanup_journal E rt c data_root ?claim journal))) ?Q"
  proof (cases bytes)
    case None
    have "keeps (stored (journal_path E rt (cr_uid c)) b)
        (sm_bind (remove_stages E ?claim (stage_prefix ''journal.json'')) (\<lambda>_. remove_entry E data_root (cr_uid c) True))"
      by (intro keeps_bind stored_remove_stages stored_remove_entry) simp_all
    with None show ?thesis by (auto simp: keeps_def triple_def)
  next
    case (Some x)
    have "x = b" if "?R s" for s using that Some by (auto simp: stored_def)
    moreover have "triple ?I (sm_bind (sm_lift (res_map_err io_other (js_read_journal J b))) (\<lambda>journal.
         sm_bind (sm_lift (check_journal (mr_driver rt) c journal)) (\<lambda>_.
         cleanup_journal E rt c data_root ?claim journal))) ?Q"
      using triple_cleanup_journal [OF assms(1,2), of c b data_root j]
      by (auto simp: assms(3) triple_def sm_bind_def sm_lift_def split: sum.splits)
    ultimately show ?thesis using Some by (auto simp: triple_def)
  qed
qed auto

lemma triple_cleanup:
  assumes "honest E" "validate_driver_name (mr_driver rt) = Inr ()" "js_read_journal J b = Inr j"
  shows "triple (\<lambda>s. tree_ok s \<and> stored (journal_path E rt (cr_uid c)) b s) (cleanup_blocking E J rt c)
    (\<lambda>r s. stored (journal_path E rt (cr_uid c)) b s \<or> journal_gone_last E rt (cr_uid c) j s)"
proof (rule triple_cleanup_blocking [OF assms(1)])
  fix data_root
  show "triple (\<lambda>s. tree_ok s \<and> stored (journal_path E rt (cr_uid c)) b s)
      (cleanup_claim E J rt c data_root (data_root @ [cr_uid c]))
      (\<lambda>r s. stored (journal_path E rt (cr_uid c)) b s \<or> journal_gone_last E rt (cr_uid c) j s)
    \<or> data_root @ [cr_uid c] \<noteq> claim_directory E rt (cr_uid c)"
    using triple_cleanup_accepted [OF assms, of c data_root] by metis
qed (auto intro!: keeps_conj tree_removals stored_trusted_root stored_open_existing)

end
