(* ===== verification/Metadata_Plan.thy ===== *)
theory Metadata_Plan
  imports Metadata_Store
begin

text \<open>
  The plan of one claim: the state of the loop over the prepared devices keeps, per request, devices
  that the scheduler allocated to this driver under one full request name, so that the files of the
  plan agree with the allocation and with each other.
\<close>

lemma res_fold_keeps:
  assumes "res_fold f s xs = Inr t" "I s" "\<And>s x t. x \<in> set xs \<Longrightarrow> I s \<Longrightarrow> f s x = Inr t \<Longrightarrow> I t"
  shows "I t"
  using assms
proof (induction xs arbitrary: s)
  case (Cons x xs)
  then obtain u where "f s x = Inr u" "res_fold f u xs = Inr t" by (auto simp: res_simps)
  with Cons show ?case by (metis list.set_intros)
qed simp

subsection \<open>The invariant of the loop\<close>

text \<open>The entry lies under the key of its device, and the device is allocated under the full name.\<close>

definition entry_allocated ::
    "string \<Rightarrow> allocation_result list \<Rightarrow> string \<Rightarrow> string \<times> string \<Rightarrow> metadata_entry \<Rightarrow> bool" where
  "entry_allocated driver local full key e \<longleftrightarrow>
     key = (me_pool e, me_name e) \<and> me_driver e = driver
     \<and> (\<exists>a \<in> set local. ar_pool a = me_pool e \<and> ar_device a = me_name e \<and> ar_request a = full)"

definition group_ok ::
    "string \<Rightarrow> allocation_result list \<Rightarrow> string \<Rightarrow> string option
      \<Rightarrow> (string \<times> string, metadata_entry) btree \<Rightarrow> bool" where
  "group_ok driver local base full devices \<longleftrightarrow>
     devices \<noteq> [] \<and> bt_ok devices \<and> metadata_label base 63
     \<and> (\<exists>f. full = Some f \<and> request_ref f = Inr base
         \<and> (\<forall>key e. bt_lookup devices key = Some e \<longrightarrow> entry_allocated driver local f key e))"

definition plan_inv :: "string \<Rightarrow> allocation_result list \<Rightarrow> plan_state \<Rightarrow> bool" where
  "plan_inv driver local s \<longleftrightarrow>
     bt_ok (pst_by_request s) \<and> bt_ok (pst_full_names s)
     \<and> (\<forall>base devices. bt_lookup (pst_by_request s) base = Some devices \<longrightarrow>
          group_ok driver local base (bt_lookup (pst_full_names s) base) devices)"

lemma request_ref_label: "request_ref name = Inr base \<Longrightarrow> metadata_label base 63"
proof -
  assume r: "request_ref name = Inr base"
  obtain p ps where "split_on (CHR ''/'') name = p # ps"
    by (cases "split_on (CHR ''/'') name") (use r in \<open>auto simp: request_ref_def\<close>)
  with r show ?thesis by (auto simp: request_ref_def Let_def split: if_splits)
qed

lemma bt_insert_not_Nil [simp]: "bt_insert k v m \<noteq> []"
  by (cases m) (auto split: if_splits)

lemma place_allocation_inv:
  assumes "plan_inv driver local s" "place_allocation content base s a = Inr t"
    and "a \<in> set local" "ar_pool a = me_pool content" "ar_device a = me_name content"
    and "me_driver content = driver"
  shows "plan_inv driver local t"
proof -
  let ?devices = "case bt_lookup (pst_by_request s) base of None \<Rightarrow> [] | Some devices \<Rightarrow> devices"
  let ?key = "(me_pool content, me_name content)"
  have base: "request_ref (ar_request a) = Inr base"
    and full: "bt_lookup (pst_full_names s) base = None \<or> bt_lookup (pst_full_names s) base = Some (ar_request a)"
    and t: "t = s\<lparr>pst_full_names := bt_insert base (ar_request a) (pst_full_names s),
                 pst_by_request := bt_insert base (bt_insert ?key content ?devices) (pst_by_request s)\<rparr>"
    using assms(2) by (auto simp: place_allocation_def res_simps Let_def split: option.splits)
  have dev: "bt_ok ?devices
      \<and> (\<forall>key e. bt_lookup ?devices key = Some e \<longrightarrow> entry_allocated driver local (ar_request a) key e)"
  proof (cases "bt_lookup (pst_by_request s) base")
    case (Some devices)
    then have "group_ok driver local base (bt_lookup (pst_full_names s) base) devices"
      using assms(1) by (simp add: plan_inv_def)
    with Some full show ?thesis unfolding group_ok_def by auto
  qed simp
  have "group_ok driver local base (Some (ar_request a)) (bt_insert ?key content ?devices)"
    unfolding group_ok_def
    using dev base request_ref_label [OF base] assms(3-6)
    by (auto simp: bt_ok_insert bt_lookup_insert entry_allocated_def)
  then show ?thesis
    using assms(1) unfolding plan_inv_def t by (auto simp: bt_ok_insert bt_lookup_insert)
qed

lemma place_request_inv:
  assumes "plan_inv driver local s"
    and "place_request declared local device content (s, names) requested = Inr (t, names')"
    and "me_pool content = pr_pool_name device" "me_name content = pr_device_name device"
    and "me_driver content = driver"
  shows "plan_inv driver local t"
proof -
  have "\<exists>base. if matching_allocations local device requested base = [] then t = s
      else res_fold (place_allocation content base) s (matching_allocations local device requested base) = Inr t"
    using assms(2) by (fastforce simp: place_request_def res_simps Let_def split: if_splits)
  then obtain base where r: "if matching_allocations local device requested base = [] then t = s
      else res_fold (place_allocation content base) s (matching_allocations local device requested base) = Inr t" ..
  show ?thesis
  proof (cases "matching_allocations local device requested base = []")
    case False
    with r have "res_fold (place_allocation content base) s (matching_allocations local device requested base) = Inr t"
      by simp
    then show ?thesis
      by (rule res_fold_keeps [where I = "plan_inv driver local"])
        (use assms in \<open>auto simp: matching_allocations_def intro: place_allocation_inv\<close>)
  qed (use r assms in simp)
qed

lemma place_device_inv:
  assumes "plan_inv driver local s" "place_device semver_ok driver declared local s entry = Inr (d, t)"
  shows "plan_inv driver local t"
proof -
  define content where "content = \<lparr>me_attributes = bt_map_values attribute_value_to_wire (pm_attributes entry),
      me_driver = driver, me_name = pr_device_name (pm_device entry), me_pool = pr_pool_name (pm_device entry)\<rparr>"
  define requested where "requested = (if pr_request_names (pm_device entry) = [] then declared
      else pr_request_names (pm_device entry))"
  have c: "me_driver content = driver" "me_name content = pr_device_name (pm_device entry)"
      "me_pool content = pr_pool_name (pm_device entry)"
    by (simp_all add: content_def)
  have "\<exists>names. res_fold (place_request declared local (pm_device entry) content) (s, {}) requested = Inr (t, names)"
    using assms(2) by (auto simp: place_device_def res_simps Let_def content_def requested_def)
  then obtain names where
    r: "res_fold (place_request declared local (pm_device entry) content) (s, {}) requested = Inr (t, names)" ..
  have "plan_inv driver local (fst (t, names))"
    by (rule res_fold_keeps [OF r, where I = "\<lambda>x. plan_inv driver local (fst x)"])
      (use assms c in \<open>auto intro: place_request_inv\<close>)
  then show ?thesis by simp
qed

lemma place_devices_inv:
  "plan_inv driver local s \<Longrightarrow> place_devices semver_ok driver declared local s prepared = Inr (ds, t)
    \<Longrightarrow> plan_inv driver local t"
proof (induction prepared arbitrary: s ds)
  case (Cons entry prepared)
  then obtain d u ds' where "place_device semver_ok driver declared local s entry = Inr (d, u)"
      "place_devices semver_ok driver declared local u prepared = Inr (ds', t)"
    by (auto simp: res_simps)
  with Cons show ?case using place_device_inv by blast
qed simp

subsection \<open>The files of the plan\<close>

lemma plan_built:
  assumes "plan_build J semver_ok rt claim prepared = Inr p"
  obtains local wire s files annotation where
    "local = driver_results (mr_driver rt) claim" "plan_inv (mr_driver rt) local s"
    "traverse (finish_request J rt (plan_identity claim) annotation (pst_full_names s)) (pst_by_request s) = Inr files"
    "p = \<lparr>pn_claim = plan_identity claim,
          pn_documents = bt_collect (map (\<lambda>(base, document, spec, device). (base, document)) files),
          pn_specs = bt_collect (map (\<lambda>(base, document, spec, device). (base, spec)) files),
          pn_devices = wire @ map (\<lambda>(base, document, spec, device). device) files\<rparr>"
proof -
  have empty: "plan_inv (mr_driver rt) local \<lparr>pst_by_request = [], pst_full_names = []\<rparr>" for local
    by (simp add: plan_inv_def)
  show thesis
    using assms that place_devices_inv [OF empty]
    by (fastforce simp: plan_build_def check_claim_def Let_def res_simps)
qed

lemma finish_request_base: "finish_request J rt identity annotation names x = Inr file \<Longrightarrow> fst file = fst x"
  by (auto simp: finish_request_def res_simps build_invalid_def split: prod.splits list.splits option.splits)

lemma list_all2_origin: "list_all2 P xs ys \<Longrightarrow> y \<in> set ys \<Longrightarrow> \<exists>x \<in> set xs. P x y"
  by (induction rule: list_all2_induct) auto

lemma finish_request_no_panic:
  "bt_lookup names base \<noteq> None \<Longrightarrow> finish_request J rt identity annotation names (base, devices) \<noteq> Inl BuildPanicked"
  by (auto simp: finish_request_def res_simps build_invalid_def split: list.splits)

lemma collect_keys:
  "set (map fst (bt_collect xs)) = set (map fst xs)"
proof -
  have "k \<in> set (map fst (bt_collect xs)) \<longleftrightarrow> k \<in> set (map fst xs)" for k
    using bt_lookup_None [of "bt_collect xs" k]
    by (simp add: bt_lookup_collect map_of_eq_None_iff rev_map [symmetric] del: rev_map)
  then show ?thesis by blast
qed

lemma collect_same_keys: "map fst xs = map fst ys \<Longrightarrow> map fst (bt_collect xs) = map fst (bt_collect ys)"
  using bt_ok_collect [of xs] bt_ok_collect [of ys]
  by (intro sorted_wrt_less_unique) (simp_all only: bt_ok_def collect_keys)

lemma groups_ok:
  assumes "plan_inv driver local s" "(base, devices) \<in> set (pst_by_request s)"
  shows "group_ok driver local base (bt_lookup (pst_full_names s) base) devices"
  using assms by (simp add: plan_inv_def bt_mem_iff)

lemma plan_panic_free: "plan_build J semver_ok rt claim prepared \<noteq> Inl BuildPanicked"
proof
  assume "plan_build J semver_ok rt claim prepared = Inl BuildPanicked"
  then obtain local wire s where
    placed: "place_devices semver_ok (mr_driver rt) (declared_requests claim) local
        \<lparr>pst_by_request = [], pst_full_names = []\<rparr> prepared = Inr (wire, s)"
    and "traverse (finish_request J rt (plan_identity claim)
        (and_then (cl_annotations claim) (\<lambda>a. bt_lookup a POD_CLAIM_NAME)) (pst_full_names s)) (pst_by_request s)
      = Inl BuildPanicked"
    by (auto simp: plan_build_def Let_def res_simps)
  then obtain base devices where x: "(base, devices) \<in> set (pst_by_request s)"
      "finish_request J rt (plan_identity claim)
        (and_then (cl_annotations claim) (\<lambda>a. bt_lookup a POD_CLAIM_NAME)) (pst_full_names s) (base, devices)
      = Inl BuildPanicked"
    by (metis traverse_Inl_ex prod.exhaust)
  have "plan_inv (mr_driver rt) local s"
    by (rule place_devices_inv [OF _ placed]) (simp add: plan_inv_def)
  from groups_ok [OF this x(1)] x(2) show False
    using finish_request_no_panic [of "pst_full_names s" base] by (auto simp: group_ok_def)
qed

lemma plan_files:
  assumes "plan_build J semver_ok rt claim prepared = Inr p" "(base, content) \<in> set (pn_documents p)"
  obtains annotation full devices document where
    "group_ok (mr_driver rt) (driver_results (mr_driver rt) claim) base (Some full) devices"
    "js_document J (metadata_document (plan_identity claim) annotation full (map snd devices)) = Inr document"
    "content = document @ newline"
proof -
  obtain local wire s files annotation where local: "local = driver_results (mr_driver rt) claim"
    and I: "plan_inv (mr_driver rt) local s"
    and files: "traverse (finish_request J rt (plan_identity claim) annotation (pst_full_names s)) (pst_by_request s) = Inr files"
    and p: "pn_documents p = bt_collect (map (\<lambda>(base, document, spec, device). (base, document)) files)"
    using plan_built [OF assms(1)] by (metis plan.select_convs(2))
  have "(base, content) \<in> set (map (\<lambda>(base, document, spec, device). (base, document)) files)"
    using assms(2) map_of_SomeD [of "rev (map (\<lambda>(base, document, spec, device). (base, document)) files)" base content]
    by (simp add: p bt_mem_iff bt_lookup_collect)
  then obtain spec device where "(base, content, spec, device) \<in> set files" by auto
  moreover have "list_all2 (\<lambda>x y. finish_request J rt (plan_identity claim) annotation (pst_full_names s) x = Inr y)
      (pst_by_request s) files"
    using files by (simp add: res_simps)
  ultimately obtain x where x: "x \<in> set (pst_by_request s)"
      "finish_request J rt (plan_identity claim) annotation (pst_full_names s) x = Inr (base, content, spec, device)"
    by (auto dest: list_all2_origin)
  define devices where "devices = snd x"
  have xs: "x = (base, devices)"
    using finish_request_base [OF x(2)] by (simp add: devices_def)
  have g: "group_ok (mr_driver rt) local base (bt_lookup (pst_full_names s) base) devices"
    using groups_ok [OF I] x(1) by (simp add: xs)
  then obtain full where full: "bt_lookup (pst_full_names s) base = Some full" by (auto simp: group_ok_def)
  have "\<exists>document. js_document J (metadata_document (plan_identity claim) annotation full (map snd devices)) = Inr document
      \<and> content = document @ newline"
    using x(2) full by (auto simp: xs finish_request_def build_invalid_def res_simps split: list.splits)
  with that g show thesis unfolding full local by blast
qed

lemma plan_keys:
  assumes "plan_build J semver_ok rt claim prepared = Inr p"
  shows "map fst (pn_documents p) = map fst (pn_specs p)" "pn_claim p = plan_identity claim"
proof -
  obtain wire files where p:
    "p = \<lparr>pn_claim = plan_identity claim,
          pn_documents = bt_collect (map (\<lambda>(base, document, spec, device). (base, document)) files),
          pn_specs = bt_collect (map (\<lambda>(base, document, spec, device). (base, spec)) files),
          pn_devices = wire @ map (\<lambda>(base, document, spec, device). device) files\<rparr>"
    by (rule plan_built [OF assms]) blast
  have "map fst (map (\<lambda>(base, document, spec, device). (base, document)) files)
      = map fst (map (\<lambda>(base, document, spec, device). (base, spec)) files)"
    by (simp add: case_prod_beta comp_def)
  from collect_same_keys [OF this] show "map fst (pn_documents p) = map fst (pn_specs p)" by (simp add: p)
  show "pn_claim p = plan_identity claim" by (simp add: p)
qed

end
