(* ===== verification/Metadata_Properties.thy ===== *)
theory Metadata_Properties
  imports Metadata_Cleanup Metadata_Plan
begin

text \<open>
  What publication and cleanup of the metadata files promise, over every sequence of failures of the
  operating system, and a claim on which they run.
\<close>

lemma runtime_driver: "metadata_runtime_new dbg driver options = Inr rt \<Longrightarrow> validate_driver_name (mr_driver rt) = Inr ()"
  by (auto simp: metadata_runtime_new_def Let_def res_simps split: prod.splits)

subsection \<open>Evaluation\<close>

text \<open>Equations of the operations with the large numbers as integers.\<close>

lemma read_file_code [code]:
  "read_file E parent name =
     sm_match (sys_open_read E parent name)
       (\<lambda>error. if io_error_kind error = NotFound then sm_return None else sm_fail error)
       (\<lambda>fd. sm_bind (sys_touch E) (\<lambda>_.
          case fd of
            FileNode bytes \<Rightarrow>
              sm_bind (sys_touch E) (\<lambda>_.
                if 16777216 < int (length bytes)
                then sm_fail (invalid ''metadata artifact exceeds 16 MiB'') else sm_return (Some bytes))
          | _ \<Rightarrow> sm_fail (invalid ''metadata artifact is not a regular file'')))"
proof -
  have "(if length (take (STORE_LIMIT + 1) bytes) > STORE_LIMIT then x else sm_return (Some (take (STORE_LIMIT + 1) bytes)))
     = (if 16777216 < int (length bytes) then x else sm_return (Some bytes))" for x :: "(disk, io_error, string option) sm" and bytes
    by (auto simp: STORE_LIMIT_def take_all)
  then show ?thesis unfolding read_file_def by (simp only:)
qed

lemma ensure_file_code [code]:
  "ensure_file E parent name content =
     (if 16777216 < int (length content) then sm_fail (invalid ''metadata artifact exceeds 16 MiB'')
      else sm_bind (read_file E parent name) (\<lambda>existing.
        case existing of
          Some existing \<Rightarrow>
            if existing = content then sm_return ()
            else sm_fail (invalid (''immutable metadata artifact changed: '' @ name))
        | None \<Rightarrow>
            sm_bind (create_stage E parent name 16) (\<lambda>stage.
            sm_match (link_stage E parent name content stage)
              (\<lambda>error. sm_match (sys_unlink E parent stage False) (\<lambda>_. sm_fail error) (\<lambda>_. sm_fail error))
              (\<lambda>_. sys_unlink E parent stage False))))"
proof -
  have "STORE_LIMIT < length content \<longleftrightarrow> 16777216 < int (length content)"
    unfolding STORE_LIMIT_def by simp
  then show ?thesis unfolding ensure_file_def by (simp only:)
qed

lemma next_stage_code [code]:
  "next_stage E name s =
     (Inr (stage_prefix name @ show_nat (os_pid E) @ ''-'' @ show_nat (dk_next_stage s)),
      s\<lparr>dk_next_stage := nat ((int (dk_next_stage s) + 1) mod 18446744073709551616)\<rparr>)"
proof -
  have "nat ((int n + 1) mod 18446744073709551616) = (n + 1) mod 2 ^ 64" for n
    by (simp add: nat_mod_distrib nat_add_distrib)
  then show ?thesis unfolding next_stage_def by (simp only:)
qed

subsection \<open>An example\<close>

text \<open>One claim with one document, on a system whose calls from the \<open>k\<close>-th on fail.\<close>

definition sample_os :: "nat option \<Rightarrow> os" where
  "sample_os k = \<lparr>
     os_fault = \<lambda>n. case k of None \<Rightarrow> None
       | Some k \<Rightarrow> if n < k then None else Some (IoError OtherKind ''input/output error''),
     os_written = \<lambda>n. 0, os_canonical = \<lambda>p. if p = ''/var/run/cdi'' then [''cdi''] else [''data''],
     os_pid = 7\<rparr>"

definition sample_runtime :: metadata_runtime where
  "sample_runtime = \<lparr>mr_driver = ''d.io'', mr_local = ''/p'', mr_host = ''/p'', mr_cdi = ''/var/run/cdi''\<rparr>"

definition sample_options :: metadata_options where
  "sample_options = with_plugin_directories metadata_options_v1beta1 ''/p'' ''/p''"

definition sample_plan :: plan where
  "sample_plan = \<lparr>pn_claim = ClaimRef ''ns'' ''u1'' ''c'', pn_documents = [(''req'', ''doc'')],
     pn_specs = [(''req'', ''spec'')], pn_devices = []\<rparr>"

definition sample_codec :: codec where
  "sample_codec = \<lparr>js_document = \<lambda>_. Inr ''doc'', js_spec = \<lambda>_. Inr ''spec'', js_journal = \<lambda>_. Inr ''J'',
     js_read_journal = \<lambda>_. Inr (plan_journal sample_plan ''d.io'')\<rparr>"

definition empty_disk :: disk where
  "empty_disk = \<lparr>dk_nodes = [], dk_calls = 0, dk_next_stage = 0\<rparr>"

lemma sample_runtime_new: "metadata_runtime_new (\<lambda>s. s) ''d.io'' sample_options = Inr sample_runtime"
  by code_simp

lemma sample_honest: "honest (sample_os k)"
  by (auto simp: honest_def sample_os_def split: option.splits if_splits)

definition published_disk :: disk where
  "published_disk = \<lparr>dk_nodes = [([''data''], DirNode), ([''data'', ''dra-device-metadata''], DirNode),
     ([''data'', ''dra-device-metadata'', ''u1''], DirNode), ([''cdi''], DirNode),
     ([''data'', ''dra-device-metadata'', ''u1'', ''journal.json''], FileNode ''J''),
     ([''data'', ''dra-device-metadata'', ''u1'', ''req''], DirNode),
     ([''data'', ''dra-device-metadata'', ''u1'', ''req'', ''metadata.json''], FileNode ''doc''),
     ([''cdi'', ''d.io_metadata_u1_req.json''], FileNode ''spec'')], dk_calls = 0, dk_next_stage = 3\<rparr>"

lemma published_tree: "tree_ok published_disk"
  unfolding tree_ok_def published_disk_def node_at_def
  by (auto simp: append_eq_Cons_conv Cons_eq_append_conv split: if_splits)

lemma sample_journal:
  "js_read_journal sample_codec ''J'' = Inr (plan_journal sample_plan ''d.io'')"
  "stored (journal_path (sample_os None) sample_runtime (cr_uid (pn_claim sample_plan))) ''J'' published_disk"
  "\<not> stored (journal_path (sample_os None) sample_runtime (cr_uid (pn_claim sample_plan))) ''J''
     (snd (cleanup_blocking (sample_os None) sample_codec sample_runtime (pn_claim sample_plan) published_disk))"
  "map fst (jn_specs (plan_journal sample_plan ''d.io'')) = [''req'']"
  "map fst (jn_documents (plan_journal sample_plan ''d.io'')) = [''req'']"
  "cr_uid (pn_claim sample_plan) = ''u1''"
  by code_simp+

text \<open>There is always a request name whose specification is not on the disk.\<close>

lemma free_spec_path: "\<exists>request. unwritten (spec_path E rt uid request) s"
proof -
  let ?taken = "{request. node_at s (spec_path E rt uid request) \<noteq> None}"
  have "(\<lambda>request. spec_path E rt uid request) ` ?taken \<subseteq> fst ` set (dk_nodes s)"
    by (auto simp: node_at_def path_defs map_of_eq_None_iff split: if_splits)
  then have "finite ((\<lambda>request. spec_path E rt uid request) ` ?taken)"
    by (rule finite_subset) simp
  moreover have "inj_on (\<lambda>request. spec_path E rt uid request) ?taken"
    by (simp add: inj_on_def path_defs spec_filename_def)
  ultimately have "finite ?taken" by (rule finite_imageD)
  then obtain request where "request \<notin> ?taken"
    using ex_new_if_finite [OF infinite_UNIV_listI] by blast
  then have "unwritten (spec_path E rt uid request) s" by (simp add: unwritten_def stored_def)
  then show ?thesis ..
qed

subsection \<open>Properties\<close>

text \<open>
  C22: a CDI specification that a publication writes appears on the disk only when the journal and
  every document of the plan are there, whichever of the calls fail.
\<close>
theorem persist_specs_last:
  assumes "metadata_runtime_new dbg driver options = Inr rt"
    and "unwritten (spec_path E rt (cr_uid (pn_claim p)) request) s"
    and "stored (spec_path E rt (cr_uid (pn_claim p)) request) b (snd (persist E J rt p s))"
  shows "documents_ready E J rt p (snd (persist E J rt p s))"
  using triple_persist [OF runtime_driver [OF assms(1)], of E p request J] assms(2,3)
  by (auto simp: triple_def unwritten_def)

theorem persist_specs_last_witness:
  "documents_ready (sample_os (Some 49)) sample_codec sample_runtime sample_plan
     (snd (persist (sample_os (Some 49)) sample_codec sample_runtime sample_plan empty_disk))"
proof (rule persist_specs_last [OF sample_runtime_new, of _ _ "''req''" _ "''spec''"])
  show "unwritten (spec_path (sample_os (Some 49)) sample_runtime (cr_uid (pn_claim sample_plan)) ''req'') empty_disk"
    by (simp add: unwritten_def stored_def node_at_def empty_disk_def path_defs)
  show "stored (spec_path (sample_os (Some 49)) sample_runtime (cr_uid (pn_claim sample_plan)) ''req'') ''spec''
      (snd (persist (sample_os (Some 49)) sample_codec sample_runtime sample_plan empty_disk))"
    by code_simp
qed

text \<open>
  A publication that succeeds has stored the journal, every document and every CDI specification
  of the plan, under the paths that cleanup uses.
\<close>
theorem persist_writes_plan:
  assumes "metadata_runtime_new dbg driver options = Inr rt"
    and "persist E J rt p s = (Inr (), s')"
  shows "documents_ready E J rt p s' \<and> specs_written E rt p s'"
  using free_spec_path [of E rt "cr_uid (pn_claim p)" s]
    triple_persist [OF runtime_driver [OF assms(1)], of E p _ J] assms(2)
  by (auto dest: tripleD)

text \<open>
  C21: cleanup lets the journal of a claim go only when no document and no CDI specification that it
  lists is left, whichever of the calls fail.
\<close>
theorem cleanup_journal_last:
  assumes "metadata_runtime_new dbg driver options = Inr rt" and "honest E" and "tree_ok s"
    and "js_read_journal J b = Inr j" and "stored (journal_path E rt (cr_uid c)) b s"
    and "\<not> stored (journal_path E rt (cr_uid c)) b (snd (cleanup_blocking E J rt c s))"
  shows "list_all (\<lambda>r. absent (spec_path E rt (cr_uid c) r) (snd (cleanup_blocking E J rt c s)))
      (map fst (jn_specs j))
    \<and> list_all (\<lambda>r. absent (document_path E rt (cr_uid c) r) (snd (cleanup_blocking E J rt c s)))
      (map fst (jn_documents j))"
  using triple_cleanup [OF assms(2) runtime_driver [OF assms(1)] assms(4), of c] assms(3,5,6)
  by (auto simp: triple_def journal_gone_last_def list_all_iff)

theorem cleanup_journal_last_witness:
  "list_all (\<lambda>r. absent (spec_path (sample_os None) sample_runtime ''u1'' r)
       (snd (cleanup_blocking (sample_os None) sample_codec sample_runtime (pn_claim sample_plan) published_disk)))
     [''req'']
   \<and> list_all (\<lambda>r. absent (document_path (sample_os None) sample_runtime ''u1'' r)
       (snd (cleanup_blocking (sample_os None) sample_codec sample_runtime (pn_claim sample_plan) published_disk)))
     [''req'']"
  by (rule cleanup_journal_last [OF sample_runtime_new sample_honest published_tree sample_journal(1-3),
        unfolded sample_journal(4-6)])

text \<open>
  C23: every document of a plan is the serialised metadata of one request, and each device in it is
  allocated to this driver under the request name the document has.
\<close>
theorem documents_name_allocations:
  assumes "plan_build J semver_ok rt claim prepared = Inr p" and "(base, content) \<in> set (pn_documents p)"
  shows "\<exists>annotation full entries document.
    js_document J (metadata_document (plan_identity claim) annotation full entries) = Inr document
    \<and> content = document @ newline \<and> request_ref full = Inr base
    \<and> list_all (\<lambda>e. me_driver e = mr_driver rt
        \<and> list_ex (\<lambda>a. ar_pool a = me_pool e \<and> ar_device a = me_name e \<and> ar_request a = full)
            (driver_results (mr_driver rt) claim)) entries"
proof -
  obtain annotation full devices document where
    g: "group_ok (mr_driver rt) (driver_results (mr_driver rt) claim) base (Some full) devices"
    and d: "js_document J (metadata_document (plan_identity claim) annotation full (map snd devices)) = Inr document"
      "content = document @ newline"
    by (rule plan_files [OF assms])
  have "entry_allocated (mr_driver rt) (driver_results (mr_driver rt) claim) full k e" if "(k, e) \<in> set devices" for k e
    using g that by (cases k) (auto simp: group_ok_def bt_mem_iff)
  then have "list_all (\<lambda>e. me_driver e = mr_driver rt
      \<and> list_ex (\<lambda>a. ar_pool a = me_pool e \<and> ar_device a = me_name e \<and> ar_request a = full)
          (driver_results (mr_driver rt) claim)) (map snd devices)"
    by (force simp: entry_allocated_def list_all_iff list_ex_iff)
  moreover have "request_ref full = Inr base" using g by (simp add: group_ok_def)
  ultimately show ?thesis using d by blast
qed

definition sample_prepared :: "prepared_with_metadata list" where
  "sample_prepared = [\<lparr>pm_device = \<lparr>pr_request_names = [''widget''], pr_pool_name = ''pool'',
      pr_device_name = ''gpu-0'', pr_cdi_device_ids = []\<rparr>, pm_attributes = [(''model'', AttrString ''x'')]\<rparr>]"

definition sample_allocated :: resource_claim where
  "sample_allocated = sample_claim ''u1'' [sample_result ''d.io'' ''gpu-0'']"

lemma sample_built:
  "plan_build sample_codec (\<lambda>_. True) sample_runtime sample_allocated sample_prepared = Inr
     \<lparr>pn_claim = ClaimRef ''default'' ''u1'' ''claim'', pn_documents = [(''widget'', ''doc'' @ newline)],
      pn_specs = [(''widget'', ''spec'' @ newline)],
      pn_devices = [pm_device (hd sample_prepared),
        \<lparr>pr_request_names = [''widget''], pr_pool_name = ''pool'', pr_device_name = ''gpu-0'',
         pr_cdi_device_ids = [''d.io/metadata=u1_widget'']\<rparr>]\<rparr>"
  by code_simp

theorem documents_name_allocations_witness:
  "\<exists>annotation full entries document.
    js_document sample_codec (metadata_document (plan_identity sample_allocated) annotation full entries) = Inr document
    \<and> ''doc'' @ newline = document @ newline \<and> request_ref full = Inr ''widget''
    \<and> list_all (\<lambda>e. me_driver e = mr_driver sample_runtime
        \<and> list_ex (\<lambda>a. ar_pool a = me_pool e \<and> ar_device a = me_name e \<and> ar_request a = full)
            (driver_results (mr_driver sample_runtime) sample_allocated)) entries"
  by (rule documents_name_allocations [OF sample_built]) simp

text \<open>
  C24: cleanup accepts the journal of every plan: version, driver and claim are its own, and the
  documents and CDI specifications have the same, valid request names.
\<close>
theorem plan_journal_accepted:
  assumes "plan_build J semver_ok rt claim prepared = Inr p"
  shows "check_journal (mr_driver rt) (plan_identity claim) (plan_journal p (mr_driver rt)) = Inr ()"
proof -
  have names: "metadata_label base 63 \<and> bt_lookup (pn_specs p) base \<noteq> None"
    if "(base, content) \<in> set (pn_documents p)" for base content
  proof
    show "metadata_label base 63" by (rule plan_files [OF assms that]) (simp add: group_ok_def)
    have "base \<in> set (map fst (pn_specs p))" using that by (simp flip: plan_keys(1) [OF assms] add: rev_image_eqI)
    then show "bt_lookup (pn_specs p) base \<noteq> None" by (simp add: bt_lookup_None)
  qed
  moreover have "length (pn_documents p) = length (pn_specs p)"
    using arg_cong [OF plan_keys(1) [OF assms], of length] by simp
  ultimately show ?thesis
    using plan_keys(2) [OF assms]
    by (force simp: check_journal_def plan_journal_def list_all_iff res_simps)
qed

theorem plan_journal_accepted_witness:
  "check_journal (mr_driver sample_runtime) (plan_identity sample_allocated)
     (plan_journal \<lparr>pn_claim = ClaimRef ''default'' ''u1'' ''claim'', pn_documents = [(''widget'', ''doc'' @ newline)],
      pn_specs = [(''widget'', ''spec'' @ newline)],
      pn_devices = [pm_device (hd sample_prepared),
        \<lparr>pr_request_names = [''widget''], pr_pool_name = ''pool'', pr_device_name = ''gpu-0'',
         pr_cdi_device_ids = [''d.io/metadata=u1_widget'']\<rparr>]\<rparr> (mr_driver sample_runtime)) = Inr ()"
  by (rule plan_journal_accepted [OF sample_built])

end
