(* ===== verification/Claim_Resolution.thy ===== *)
theory Claim_Resolution
  imports Claim_Resolver "HOL-Library.Multiset"
begin

text \<open>
  What resolution guarantees: which reads are made, which objects are accepted and what is taken
  from them; a batch is resolved completely and in request order, with a bounded number of
  concurrent reads, whatever the order in which the reads end.
\<close>

subsection \<open>The reads of one claim\<close>

definition retried :: "kube_error + resource_claim \<Rightarrow> bool" where
  "retried r \<longleftrightarrow> (case r of Inl e \<Rightarrow> is_transient_read_error e | Inr _ \<Rightarrow> False)"

lemma retried_simps [simp]: "retried (Inl e) = is_transient_read_error e" "\<not> retried (Inr c)"
  by (simp_all add: retried_def)

lemma fetch_claim_iff:
  "fetch_claim v answer k = (r, n) \<longleftrightarrow>
     k < n \<and> r = answer n \<and> list_all (\<lambda>j. retried (answer j)) [Suc k..<n]
     \<and> n \<le> max (Suc k) (cv_max_attempts v) \<and> (n < cv_max_attempts v \<longrightarrow> \<not> retried (answer n))"
proof (induction v answer k arbitrary: r n rule: fetch_claim.induct)
  case (1 v answer k)
  show ?case
  proof (cases "Suc k < cv_max_attempts v \<and> retried (answer (Suc k))")
    case True
    then obtain e where e: "answer (Suc k) = Inl e" "is_transient_read_error e"
      by (cases "answer (Suc k)") auto
    have step: "fetch_claim v answer k = fetch_claim v answer (Suc k)"
      using True e by (subst fetch_claim.simps) simp
    have IH: "fetch_claim v answer (Suc k) = (r, n) \<longleftrightarrow>
        Suc k < n \<and> r = answer n \<and> list_all (\<lambda>j. retried (answer j)) [Suc (Suc k)..<n]
        \<and> n \<le> max (Suc (Suc k)) (cv_max_attempts v) \<and> (n < cv_max_attempts v \<longrightarrow> \<not> retried (answer n))"
      using 1 [of "Suc k" e r n] True e by simp
    show ?thesis
      unfolding step IH using True e
      by (cases "n = Suc k") (auto simp: upt_conv_Cons)
  next
    case False
    have stop: "fetch_claim v answer k = (answer (Suc k), Suc k)"
      using False by (subst fetch_claim.simps) (auto split: sum.splits)
    show ?thesis
    proof
      assume "fetch_claim v answer k = (r, n)"
      with stop False show "k < n \<and> r = answer n \<and> list_all (\<lambda>j. retried (answer j)) [Suc k..<n]
          \<and> n \<le> max (Suc k) (cv_max_attempts v) \<and> (n < cv_max_attempts v \<longrightarrow> \<not> retried (answer n))"
        by auto
    next
      assume a: "k < n \<and> r = answer n \<and> list_all (\<lambda>j. retried (answer j)) [Suc k..<n]
          \<and> n \<le> max (Suc k) (cv_max_attempts v) \<and> (n < cv_max_attempts v \<longrightarrow> \<not> retried (answer n))"
      have "n = Suc k"
      proof (rule ccontr)
        assume "n \<noteq> Suc k"
        with a have "Suc k < n" by simp
        moreover from this a have "retried (answer (Suc k))" by (simp add: upt_conv_Cons)
        ultimately show False using a False by simp
      qed
      with a stop show "fetch_claim v answer k = (r, n)" by simp
    qed
  qed
qed

text \<open>The checks on the object that was read.\<close>

lemma resolve_object_ok:
  "resolve_object v c claim = Inr x \<longleftrightarrow>
     claim_uid claim = cr_uid c \<and> claim_allocation claim \<noteq> None
     \<and> list_all (\<lambda>r. ar_share_id r = None) (driver_results (cv_driver_name v) claim)
     \<and> x = \<lparr>rx_resolved = \<lparr>rc_claim = c,
              rc_devices = map allocated_device_of (driver_results (cv_driver_name v) claim)\<rparr>,
            rx_object = claim\<rparr>"
proof (cases "claim_allocation claim")
  case None
  then show ?thesis by (auto simp: resolve_object_def Let_def res_simps)
next
  case (Some a)
  then show ?thesis
    by (auto simp: resolve_object_def Let_def driver_results_def claim_results_allocation
        list_ex_iff list_all_iff)
qed

lemma fetch_claim_Inr_iff:
  "fst (fetch_claim v answer 0) = Inr claim \<longleftrightarrow>
     (\<exists>n. 0 < n \<and> n \<le> max 1 (cv_max_attempts v) \<and> list_all (\<lambda>j. retried (answer j)) [1..<n]
        \<and> answer n = Inr claim)"
proof -
  have "fst (fetch_claim v answer 0) = Inr claim \<longleftrightarrow> (\<exists>n. fetch_claim v answer 0 = (Inr claim, n))"
    by (metis fst_conv surj_pair)
  then show ?thesis unfolding fetch_claim_iff by (auto intro: sym)
qed

lemma resolve_context_Inr_iff:
  "resolve_context se v c answer = Inr x \<longleftrightarrow>
     (\<exists>claim. fst (fetch_claim v answer 0) = Inr claim \<and> resolve_object v c claim = Inr x)"
  by (auto simp: resolve_context_def split: prod.splits sum.splits)

subsection \<open>A batch\<close>

definition batch_jobs :: "'a batch \<Rightarrow> (nat \<times> claim_ref) list" where
  "batch_jobs s = bt_waiting s @ bt_running s @ map (\<lambda>(i, c, r). (i, c)) (bt_finished s)"

definition batch_inv ::
    "nat \<Rightarrow> (nat \<Rightarrow> claim_ref \<Rightarrow> prepare_error + 'a) \<Rightarrow> claim_ref list \<Rightarrow> 'a batch \<Rightarrow> bool" where
  "batch_inv limit f refs s \<longleftrightarrow>
     length (bt_running s) \<le> limit
     \<and> mset (batch_jobs s) = mset (enumerate 0 refs)
     \<and> list_all (\<lambda>(i, c, r). r = f i c) (bt_finished s)"

lemma batch_inv_start: "batch_inv limit f refs (batch_start refs)"
  by (simp add: batch_inv_def batch_start_def batch_jobs_def)

lemma batch_inv_step: "batch_step limit f s t \<Longrightarrow> batch_inv limit f refs s \<Longrightarrow> batch_inv limit f refs t"
  by (erule batch_stepE) (auto simp: batch_inv_def batch_jobs_def)

inductive batch_reachable ::
    "nat \<Rightarrow> (nat \<Rightarrow> claim_ref \<Rightarrow> prepare_error + 'a) \<Rightarrow> claim_ref list \<Rightarrow> 'a batch \<Rightarrow> bool"
  for limit f refs where
  start: "batch_reachable limit f refs (batch_start refs)"
| step: "batch_reachable limit f refs s \<Longrightarrow> batch_step limit f s t \<Longrightarrow> batch_reachable limit f refs t"

lemma batch_reachable_inv: "batch_reachable limit f refs s \<Longrightarrow> batch_inv limit f refs s"
  by (induction rule: batch_reachable.induct) (auto intro: batch_inv_start batch_inv_step)

text \<open>
  Results that came in any order: sorting by position gives the order of the request, because every
  position occurs once.
\<close>

lemma in_request_order_any:
  assumes ms: "mset resolved = mset (map (\<lambda>(i, c). (i, c, f i c)) (enumerate 0 refs))"
  shows "in_request_order resolved = map (\<lambda>(i, c). (c, f i c)) (enumerate 0 refs)"
proof -
  let ?g = "\<lambda>(i, c). (i, c, f i c)"
  let ?all = "map ?g (enumerate 0 refs)"
  have "map fst ?all = [0..<length refs]"
    by (simp add: comp_def split_beta map_fst_enumerate)
  then have keys: "distinct (map fst ?all)" "sorted (map fst ?all)" by simp_all
  have sets: "set resolved = set ?all" using ms by (rule mset_eq_setD)
  have "mset (map fst resolved) = mset (map fst ?all)" by (simp only: mset_map ms)
  from mset_eq_imp_distinct_iff [OF this] keys(1) have dist: "distinct (map fst resolved)" by (simp only:)
  have "inj_on fst (set resolved)"
    unfolding sets using keys(1) by (simp only: distinct_map)
  then have "sort_key fst resolved = ?all"
    using dist keys sets by (intro map_sorted_distinct_set_unique [where f = fst]) (simp_all add: distinct_map)
  then show ?thesis by (simp add: in_request_order_def comp_def split_beta)
qed

lemma in_request_order_over:
  assumes inv: "batch_inv limit f refs s" and over: "batch_over s"
  shows "in_request_order (bt_finished s) = map (\<lambda>(i, c). (c, f i c)) (enumerate 0 refs)"
proof (rule in_request_order_any)
  let ?g = "\<lambda>(i, c). (i, c, f i c)"
  have jobs: "mset (map (\<lambda>(i, c, r). (i, c)) (bt_finished s)) = mset (enumerate 0 refs)"
    using inv over by (simp add: batch_inv_def batch_over_def batch_jobs_def)
  have "map (\<lambda>x. ?g ((\<lambda>(i, c, r). (i, c)) x)) (bt_finished s) = bt_finished s"
    using inv by (intro map_idI) (auto simp: batch_inv_def list_all_iff)
  then have "mset (bt_finished s) = image_mset ?g (mset (map (\<lambda>(i, c, r). (i, c)) (bt_finished s)))"
    by (metis (no_types, lifting) list.map_comp comp_def mset_map map_cong)
  then show "mset (bt_finished s) = mset (map ?g (enumerate 0 refs))"
    unfolding jobs by (simp only: mset_map)
qed

text \<open>\<open>run_batch\<close> takes steps of the relation until the batch is over, unless the bound is zero.\<close>

lemma drop_nth_split: "k < length xs \<Longrightarrow> xs = take k xs @ xs ! k # drop (k + 1) xs"
  by (simp add: Cons_nth_drop_Suc)

lemma run_batch_steps:
  assumes "0 < limit"
  shows "\<exists>t. run_batch limit pick f s = Some t \<and> (batch_step limit f)\<^sup>*\<^sup>* s t \<and> batch_over t"
  using assms
proof (induction limit pick f s rule: run_batch.induct)
  case (1 limit pick f s)
  consider (begin_read) "bt_waiting s \<noteq> []" "length (bt_running s) < limit"
    | (end_read) "\<not> (bt_waiting s \<noteq> [] \<and> length (bt_running s) < limit)" "bt_running s \<noteq> []"
    | (over) "bt_waiting s = []" "bt_running s = []"
    using 1(3) by fastforce
  then show ?case
  proof cases
    case begin_read
    let ?t = "s\<lparr>bt_waiting := tl (bt_waiting s), bt_running := bt_running s @ [hd (bt_waiting s)]\<rparr>"
    have "run_batch limit pick f s = run_batch limit pick f ?t"
      using begin_read by (subst run_batch.simps) simp
    moreover have "batch_step limit f s ?t"
      using begin_read by (intro batch_step.begin_read) simp_all
    ultimately show ?thesis using 1(1) [OF _ 1(3)] begin_read by (auto intro: converse_rtranclp_into_rtranclp)
  next
    case end_read
    define k where "k = pick (length (bt_finished s)) mod length (bt_running s)"
    obtain index c where job: "bt_running s ! k = (index, c)" by fastforce
    have k: "k < length (bt_running s)" using end_read by (simp add: k_def)
    let ?t = "s\<lparr>bt_running := take k (bt_running s) @ drop (k + 1) (bt_running s),
                bt_finished := bt_finished s @ [(index, c, f index c)]\<rparr>"
    have "run_batch limit pick f s = run_batch limit pick f ?t"
      using end_read(2) job [unfolded k_def]
      by (subst run_batch.simps, subst if_not_P [OF end_read(1)]) (simp add: k_def Let_def)
    moreover have "batch_step limit f s ?t"
      using drop_nth_split [OF k] job by (intro batch_step.end_read) simp
    ultimately show ?thesis
      using 1(2) [OF end_read k_def _ _ 1(3), of "(index, c)" index c] job
      by (auto intro: converse_rtranclp_into_rtranclp)
  next
    case over
    then have "run_batch limit pick f s = Some s" by (subst run_batch.simps) simp
    with over show ?thesis by (auto simp: batch_over_def)
  qed
qed

lemma batch_reachable_steps:
  "(batch_step limit f)\<^sup>*\<^sup>* s t \<Longrightarrow> batch_reachable limit f refs s \<Longrightarrow> batch_reachable limit f refs t"
  by (induction rule: rtranclp_induct) (auto intro: batch_reachable.step)

lemma resolve_all_context_eq:
  assumes "0 < cv_max_concurrent_resolves v"
  shows "resolve_all_context se v answers pick refs =
    Some (map (\<lambda>(i, c). (c, resolve_context se v c (answers i))) (enumerate 0 refs))"
proof -
  let ?f = "\<lambda>i c. resolve_context se v c (answers i)"
  let ?n = "cv_max_concurrent_resolves v"
  obtain t where t: "run_batch ?n pick ?f (batch_start refs) = Some t"
      "(batch_step ?n ?f)\<^sup>*\<^sup>* (batch_start refs) t" "batch_over t"
    using run_batch_steps [OF assms] by blast
  then have "batch_inv ?n ?f refs t"
    using batch_reachable_inv batch_reachable_steps batch_reachable.start by blast
  with t show ?thesis by (simp add: resolve_all_context_def in_request_order_over)
qed

lemma resolve_all_eq:
  assumes "0 < cv_max_concurrent_resolves v"
  shows "resolve_all se v answers pick refs =
    Some (map (\<lambda>(i, c). (c, resolve se v c (answers i))) (enumerate 0 refs))"
  by (simp add: resolve_all_def resolve_all_context_eq [OF assms] resolve_def split_beta comp_def)

subsection \<open>Properties\<close>

text \<open>
  C15: a claim resolves exactly when, after only transient failures, a read within the allowed
  attempts returns the object with the UID of the reference, allocated, and with no share
  identifier among the results of this driver; the devices are those results in their order.
\<close>
theorem resolve_accepts:
  "resolve_context se v c answer = Inr x \<longleftrightarrow>
     (\<exists>n claim. 0 < n \<and> n \<le> max 1 (cv_max_attempts v)
        \<and> list_all (\<lambda>j. case answer j of Inl e \<Rightarrow> is_transient_read_error e | Inr _ \<Rightarrow> False) [1..<n]
        \<and> answer n = Inr claim \<and> claim_uid claim = cr_uid c \<and> claim_allocation claim \<noteq> None
        \<and> list_all (\<lambda>r. ar_share_id r = None) (driver_results (cv_driver_name v) claim)
        \<and> x = \<lparr>rx_resolved = \<lparr>rc_claim = c,
                 rc_devices = map allocated_device_of (driver_results (cv_driver_name v) claim)\<rparr>,
               rx_object = claim\<rparr>)"
  unfolding resolve_context_Inr_iff fetch_claim_Inr_iff resolve_object_ok retried_def by blast

text \<open>
  C16: a batch is answered completely and in the order of the request: \<open>resolve_all\<close> of a resolver
  that was built returns one result for each reference, the result of resolving that reference with
  the answers it got, whichever of the running reads ends next. The order does not rest on the stream
  of the library: any order of the collected results is undone by their positions.
\<close>
theorem resolve_all_in_order:
  assumes "resolver_ok v"
  shows "resolve_all se v answers pick refs =
      Some (map (\<lambda>(i, c). (c, resolve se v c (answers i))) (enumerate 0 refs))
    \<and> (\<forall>resolved. mset resolved
          = mset (map (\<lambda>(i, c). (i, c, resolve_context se v c (answers i))) (enumerate 0 refs)) \<longrightarrow>
        in_request_order resolved = map (\<lambda>(i, c). (c, resolve_context se v c (answers i))) (enumerate 0 refs))"
  using assms in_request_order_any [where f = "\<lambda>i c. resolve_context se v c (answers i)"]
  by (auto simp: resolver_ok_def resolve_all_eq)

definition sample_resolver :: claim_resolver where
  "sample_resolver = \<lparr>cv_driver_name = ''a.io'', cv_max_concurrent_resolves = 2, cv_max_attempts = 1,
     cv_retry_delay = 0\<rparr>"

lemma sample_resolver_built: "resolver_ok sample_resolver"
  by code_simp

theorem resolve_all_in_order_witness:
  "resolve_all (\<lambda>_. []) sample_resolver (\<lambda>_ _. Inl (OtherError [])) (\<lambda>n. n + 1) [ClaimRef ''n'' ''b'' ''u'', ClaimRef ''n'' ''a'' ''v'']
     = Some [(ClaimRef ''n'' ''b'' ''u'', resolve (\<lambda>_. []) sample_resolver (ClaimRef ''n'' ''b'' ''u'') (\<lambda>_. Inl (OtherError []))),
         (ClaimRef ''n'' ''a'' ''v'', resolve (\<lambda>_. []) sample_resolver (ClaimRef ''n'' ''a'' ''v'') (\<lambda>_. Inl (OtherError [])))]"
  using resolve_all_in_order [OF sample_resolver_built] by (simp add: enumerate_simps)

text \<open>
  No reachable state of a batch has more reads under way than the bound, or loses or repeats a
  claim of the request.
\<close>
lemma batch_bounded:
  assumes "batch_reachable limit resolve_one refs s"
  shows "length (bt_running s) \<le> limit
    \<and> mset (bt_waiting s) + mset (bt_running s) + mset (map (\<lambda>(i, c, r). (i, c)) (bt_finished s))
        = mset (enumerate 0 refs)
    \<and> list_all (\<lambda>(i, c, r). r = resolve_one i c) (bt_finished s)"
  using batch_reachable_inv [OF assms] by (simp add: batch_inv_def batch_jobs_def add.assoc)

end
