(* ===== verification/Dra_Service_Properties.thy ===== *)
theory Dra_Service_Properties
  imports Dra_Service Metadata_Properties Claim_Resolution
begin

text \<open>
  What the kubelet is told: every requested claim has an answer, the answer of a claim is its own,
  and a claim that is reported as prepared has its metadata files on the disk.
\<close>

subsection \<open>Answers\<close>

lemma answered_claims: "map fst (answer_claims errors prepared claims) = claims"
  by (induction errors prepared claims rule: answer_claims.induct) (auto split: option.splits)

lemma metadata_publish_no_panic: "metadata_publish A rt claim devices s \<noteq> (Inl BuildPanicked, s')"
  using plan_panic_free
  by (auto simp: metadata_publish_def split: sum.splits prod.splits)

lemma publish_claim_answers: "fst (publish_claim A rt m claim s) \<noteq> None"
  using metadata_publish_no_panic
  by (auto simp: publish_claim_def Let_def split: option.splits sum.splits prod.splits build_error.splits)

lemma publish_claims_answers:
  "\<exists>results. fst (publish_claims A rt m claims s) = Some results \<and> map fst results = claims"
proof (induction A rt m claims s rule: publish_claims.induct)
  case (2 A rt m claim claims s)
  obtain r m' s' where p: "publish_claim A rt m claim s = (Some r, m', s')"
    using publish_claim_answers [of A rt m claim s] by (cases "publish_claim A rt m claim s") auto
  obtain results s'' where "publish_claims A rt m' claims s' = (Some results, s'')" "map fst results = claims"
    using 2 [OF p [symmetric] refl refl] by (cases "publish_claims A rt m' claims s'") auto
  then show ?case by (simp add: p)
qed simp

lemma responses_keys: "fst ` set (responses dbg results) = cr_uid ` fst ` set results"
  using collect_keys [of "map (\<lambda>(claim, result). (cr_uid claim, node_prepare_response dbg result)) results"]
  by (simp add: responses_def image_image case_prod_beta)

lemma uid_from_wire [simp]: "cr_uid (claim_from_wire c) = wc_uid c"
  by (simp add: claim_from_wire_def)

lemma answered_uids:
  assumes "map fst results = map claim_from_wire request"
  shows "fst ` set (responses dbg results) = wc_uid ` set request"
proof -
  have "fst ` set results = claim_from_wire ` set request"
    using arg_cong [OF assms, of set] by simp
  then show ?thesis by (simp add: responses_keys image_image)
qed

text \<open>
  A claim that is requested twice in one call: its result is taken by the first request, and the
  answer is that of the second, that the backend returned none.
\<close>

lemma repeated_claim_no_result:
  assumes "bt_ok prepared" "bt_lookup errors c = None"
  shows "bt_lookup (responses dbg (answer_claims errors prepared [c, c])) (cr_uid c)
    = Some (node_prepare_response dbg no_result)"
  using assms by (simp add: responses_def bt_lookup_collect bt_lookup_remove)

subsection \<open>The answer of each claim without metadata\<close>

text \<open>
  What the claim at a position of the request gets: its resolution error or, from the one call of the
  backend with all resolved claims, the backend's result for it.
\<close>

definition claim_outcome ::
    "call_env \<Rightarrow> claim_resolver \<Rightarrow> claim_backend \<Rightarrow> claim_ref list \<Rightarrow> nat \<Rightarrow> claim_ref
      \<Rightarrow> prepare_error + prepared_device list" where
  "claim_outcome A v B claims i claim =
     (case resolve (ce_show_err A) v claim (ce_answers A i) of
        Inl err \<Rightarrow> Inl err
      | Inr _ \<Rightarrow>
          (case bt_lookup (be_prepare B (concat (map (\<lambda>(i, c).
                 case resolve (ce_show_err A) v c (ce_answers A i) of Inr r \<Rightarrow> [r] | Inl _ \<Rightarrow> [])
               (enumerate 0 claims)))) claim of
             Some result \<Rightarrow> result | None \<Rightarrow> no_result))"

lemma bt_lookup_remove_other: "j \<noteq> k \<Longrightarrow> bt_lookup (bt_remove k m) j = bt_lookup m j"
  by (induction k m rule: bt_remove.induct) (auto simp: bt_lookup_def)

lemma answer_claims_distinct:
  "distinct claims \<Longrightarrow> answer_claims errors prepared claims = map (\<lambda>claim. (claim,
     case bt_lookup errors claim of Some err \<Rightarrow> Inl err
     | None \<Rightarrow> (case bt_lookup prepared claim of Some result \<Rightarrow> result | None \<Rightarrow> no_result))) claims"
proof (induction errors prepared claims rule: answer_claims.induct)
  case (2 errors prepared claim claims)
  then have "claim \<notin> set claims" by simp
  then have "bt_lookup (bt_remove claim errors) c = bt_lookup errors c"
      "bt_lookup (bt_remove claim prepared) c = bt_lookup prepared c" if "c \<in> set claims" for c
    using that by (auto intro!: bt_lookup_remove_other)
  with 2 show ?case by (auto split: option.splits cong: map_cong)
qed simp

abbreviation collect_errors ::
    "(claim_ref \<times> (prepare_error + 'a)) list \<Rightarrow> (claim_ref, prepare_error) btree
      \<Rightarrow> (claim_ref, prepare_error) btree" where
  "collect_errors \<equiv> fold (\<lambda>(claim, result) errors.
     case result of Inr _ \<Rightarrow> errors | Inl err \<Rightarrow> bt_insert claim err errors)"

lemma split_resolved_fold:
  "fold (\<lambda>(claim_ref, result) (errors, claims). case result of
         Inr resolved \<Rightarrow> (errors, claims @ [resolved])
       | Inl err \<Rightarrow> (bt_insert claim_ref err errors, claims)) results (es, cs)
   = (collect_errors results es, cs @ concat (map (\<lambda>(c, result). case result of Inr r \<Rightarrow> [r] | Inl _ \<Rightarrow> []) results))"
  by (induction results arbitrary: es cs) (auto split: sum.splits)

lemma errors_other: "k \<notin> fst ` set results \<Longrightarrow> bt_lookup (collect_errors results es) k = bt_lookup es k"
  by (induction results arbitrary: es) (auto simp: bt_lookup_insert split: sum.splits)

lemma errors_lookup:
  assumes "distinct (map fst results)" "(claim, result) \<in> set results"
  shows "bt_lookup (collect_errors results es) claim
    = (case result of Inl e \<Rightarrow> Some e | Inr _ \<Rightarrow> bt_lookup es claim)"
  using assms
proof (induction results arbitrary: es)
  case (Cons x results)
  obtain c r where x: "x = (c, r)" by (cases x)
  show ?case
  proof (cases "claim = c")
    case True
    with Cons.prems x have "r = result" "c \<notin> fst ` set results" by force+
    with True x show ?thesis by (auto simp: errors_other bt_lookup_insert split: sum.splits)
  next
    case False
    with Cons.prems x have "(claim, result) \<in> set results" "distinct (map fst results)" by auto
    from Cons.IH [OF this(2,1)] False x show ?thesis by (auto simp: bt_lookup_insert split: sum.splits)
  qed
qed simp

lemma map_fst_tagged: "map fst (map (\<lambda>(i, c). (c, f i c)) xs) = map snd xs"
  by (induction xs) auto

lemma prepare_plain_answers:
  assumes "0 < cv_max_concurrent_resolves v" "distinct claims"
  shows "prepare_plain A v B claims =
    Some (responses (ce_dbg A) (map (\<lambda>(i, c). (c, claim_outcome A v B claims i c)) (enumerate 0 claims)))"
proof -
  let ?results = "map (\<lambda>(i, c). (c, resolve (ce_show_err A) v c (ce_answers A i))) (enumerate 0 claims)"
  let ?resolved = "concat (map (\<lambda>(i, c). case resolve (ce_show_err A) v c (ce_answers A i) of
      Inr r \<Rightarrow> [r] | Inl _ \<Rightarrow> []) (enumerate 0 claims))"
  have keys: "map fst ?results = claims" unfolding map_fst_tagged by simp
  have s: "split_resolved ?results = (collect_errors ?results [], ?resolved)"
    unfolding split_resolved_def split_resolved_fold by (simp add: comp_def case_prod_unfold)
  have e: "bt_lookup (collect_errors ?results []) c = (case resolve (ce_show_err A) v c (ce_answers A i) of
      Inl e \<Rightarrow> Some e | Inr _ \<Rightarrow> None)" if "(i, c) \<in> set (enumerate 0 claims)" for i c
  proof -
    have "(c, resolve (ce_show_err A) v c (ce_answers A i)) \<in> set ?results" using that by force
    moreover have "distinct (map fst ?results)" unfolding keys by (rule assms(2))
    ultimately have "bt_lookup (collect_errors ?results []) c
        = (case resolve (ce_show_err A) v c (ce_answers A i) of Inl e \<Rightarrow> Some e | Inr _ \<Rightarrow> bt_lookup [] c)"
      by (intro errors_lookup)
    then show ?thesis by (simp only: bt_lookup_Nil)
  qed
  have "answer_claims (collect_errors ?results []) (be_prepare B ?resolved) claims
      = map (\<lambda>(i, c). (c, claim_outcome A v B claims i c)) (enumerate 0 claims)" (is "?lhs = _")
  proof -
    let ?f = "\<lambda>claim. (claim, case bt_lookup (collect_errors ?results []) claim of Some err \<Rightarrow> Inl err
       | None \<Rightarrow> (case bt_lookup (be_prepare B ?resolved) claim of Some result \<Rightarrow> result | None \<Rightarrow> no_result))"
    have "?lhs = map ?f (map snd (enumerate 0 claims))"
      using answer_claims_distinct [OF assms(2)] by simp
    also have "\<dots> = map (\<lambda>(i, c). (c, claim_outcome A v B claims i c)) (enumerate 0 claims)"
      unfolding map_map
    proof (rule map_cong [OF refl])
      fix x assume x: "x \<in> set (enumerate 0 claims)"
      then have "(fst x, snd x) \<in> set (enumerate 0 claims)" by simp
      from e [OF this] show "(?f \<circ> snd) x = (case x of (i, c) \<Rightarrow> (c, claim_outcome A v B claims i c))"
        by (cases x) (auto simp: claim_outcome_def split: sum.splits)
    qed
    finally show ?thesis .
  qed
  then show ?thesis
    by (simp add: prepare_plain_def resolve_all_eq [OF assms(1)] s)
qed

subsection \<open>Files of a prepared claim\<close>

lemma stored_persist:
  assumes "\<not> staging (last q)"
  shows "keeps (stored q b) (persist E J rt p)"
  unfolding persist_def
  by (intro keeps_bind stored_trusted_root stored_open_directory keeps_some_root keeps_simple keeps_for
      stored_ensure_file stored_persist_document stored_persist_spec stored_remove_stages assms)

text \<open>What the kubelet relies on when a claim with these devices is reported as prepared.\<close>

definition claim_published ::
    "call_env \<Rightarrow> metadata_runtime \<Rightarrow> string \<Rightarrow> prepared_device list \<Rightarrow> disk \<Rightarrow> bool" where
  "claim_published A rt uid devices s \<longleftrightarrow>
     (\<exists>claim prepared p. plan_build (ce_codec A) (ce_semver_ok A) rt claim prepared = Inr p
        \<and> cr_uid (pn_claim p) = uid \<and> pn_devices p = devices
        \<and> documents_ready (ce_os A) (ce_codec A) rt p s \<and> specs_written (ce_os A) rt p s)"

lemma keeps_published:
  assumes "validate_driver_name (mr_driver rt) = Inr ()"
  shows "keeps (claim_published A rt uid devices) (persist (ce_os A) (ce_codec A) rt p)"
proof -
  have "keeps (documents_ready (ce_os A) (ce_codec A) rt p') (persist (ce_os A) (ce_codec A) rt p)" for p'
    by (intro keeps_ready stored_persist)
  moreover have "keeps (specs_written (ce_os A) rt p') (persist (ce_os A) (ce_codec A) rt p)" for p'
    unfolding specs_written_def using spec_filename_names [OF assms]
    by (intro keeps_ball stored_persist) simp
  ultimately show ?thesis
    unfolding claim_published_def keeps_def triple_def by blast
qed

lemma publish_keeps_published:
  assumes "validate_driver_name (mr_driver rt) = Inr ()" "claim_published A rt uid devices s"
    and "metadata_publish A rt claim prepared s = (r, s')"
  shows "claim_published A rt uid devices s'"
proof -
  have "claim_published A rt uid devices s2" if "persist (ce_os A) (ce_codec A) rt p s = (e, s2)" for p e s2
    using keepsD [OF keeps_published [OF assms(1)] assms(2), of p] that by simp
  then show ?thesis
    using assms(2,3) by (auto simp: metadata_publish_def split: sum.splits prod.splits)
qed

lemma plan_uid: "plan_build J semver_ok rt claim prepared = Inr p \<Longrightarrow> cr_uid (pn_claim p) = claim_uid claim"
  by (simp add: plan_keys(2) plan_identity_def claim_uid_def)

lemma publish_publishes:
  assumes "validate_driver_name (mr_driver rt) = Inr ()" "metadata_publish A rt claim prepared s = (Inr devices, s')"
  shows "claim_published A rt (claim_uid claim) devices s'"
proof -
  obtain p where p: "plan_build (ce_codec A) (ce_semver_ok A) rt claim prepared = Inr p"
      "persist (ce_os A) (ce_codec A) rt p s = (Inr (), s')" "pn_devices p = devices"
    using assms(2) by (auto simp: metadata_publish_def split: sum.splits prod.splits)
  obtain request where "unwritten (spec_path (ce_os A) rt (cr_uid (pn_claim p)) request) s"
    using free_spec_path by blast
  from tripleD [OF triple_persist [OF assms(1)] this p(2)] show ?thesis
    using p plan_uid unfolding claim_published_def by blast
qed

text \<open>The objects are the ones that were read for their claims.\<close>

definition objects_match :: "prepare_maps \<Rightarrow> bool" where
  "objects_match m \<longleftrightarrow> (\<forall>c claim. (c, claim) \<in> set (pm_objects m) \<longrightarrow> claim_uid claim = cr_uid c)"

lemma publish_claim_step:
  assumes "validate_driver_name (mr_driver rt) = Inr ()" "objects_match m"
    and "publish_claim A rt m c s = (Some result, m', s')"
  shows "objects_match m'"
    and "claim_published A rt uid devices s \<Longrightarrow> claim_published A rt uid devices s'"
    and "result = Inr devices \<Longrightarrow> claim_published A rt (cr_uid c) devices s'"
proof -
  show "objects_match m'"
    using assms(2,3) set_bt_remove [of c "pm_objects m"]
    by (auto simp: publish_claim_def objects_match_def Let_def
        split: option.splits sum.splits prod.splits build_error.splits)
  show "claim_published A rt uid devices s \<Longrightarrow> claim_published A rt uid devices s'"
    using assms(3) publish_keeps_published [OF assms(1)]
    by (auto simp: publish_claim_def Let_def split: option.splits sum.splits prod.splits build_error.splits)
  assume "result = Inr devices"
  then obtain claim prepared where found: "bt_lookup (pm_objects m) c = Some claim"
      and run: "metadata_publish A rt claim prepared s = (Inr devices, s')"
    using assms(3)
    by (auto simp: publish_claim_def Let_def no_result_def
        split: option.splits sum.splits prod.splits build_error.splits)
  have "claim_uid claim = cr_uid c"
    using assms(2) bt_lookup_in [OF found] unfolding objects_match_def by blast
  with publish_publishes [OF assms(1) run] show "claim_published A rt (cr_uid c) devices s'" by simp
qed

lemma publish_claims_published:
  assumes "validate_driver_name (mr_driver rt) = Inr ()"
  shows "objects_match m \<Longrightarrow> publish_claims A rt m claims s = (Some results, s') \<Longrightarrow>
    (\<forall>uid devices. claim_published A rt uid devices s \<longrightarrow> claim_published A rt uid devices s')
    \<and> (\<forall>c devices. (c, Inr devices) \<in> set results \<longrightarrow> claim_published A rt (cr_uid c) devices s')"
proof (induction claims arbitrary: m s results)
  case (Cons c claims)
  obtain result m1 s1 rest where step: "publish_claim A rt m c s = (Some result, m1, s1)"
    and rest: "publish_claims A rt m1 claims s1 = (Some rest, s')" and results: "results = (c, result) # rest"
    using Cons.prems(2) by (auto split: prod.splits option.splits)
  note one = publish_claim_step [OF assms Cons.prems(1) step]
  from Cons.IH [OF one(1) rest] one(2,3) show ?case unfolding results by auto
qed simp

abbreviation collect_objects ::
    "(claim_ref \<times> (prepare_error + resolved_context)) list \<Rightarrow> (claim_ref, resource_claim) btree
      \<Rightarrow> (claim_ref, resource_claim) btree" where
  "collect_objects \<equiv> fold (\<lambda>(claim, result) objects.
     case result of Inr context \<Rightarrow> bt_insert claim (rx_object context) objects | Inl _ \<Rightarrow> objects)"

lemma split_contexts_fold:
  "fold (\<lambda>(claim, result) (errors, objects, resolved). case result of
         Inr context \<Rightarrow>
           (errors, bt_insert claim (rx_object context) objects, resolved @ [rx_resolved context])
       | Inl error \<Rightarrow> (bt_insert claim error errors, objects, resolved)) results (es, os, rs)
   = (collect_errors results es, collect_objects results os,
      rs @ concat (map (\<lambda>(c, result). case result of Inr x \<Rightarrow> [rx_resolved x] | Inl _ \<Rightarrow> []) results))"
  by (induction results arbitrary: es os rs) (auto split: sum.splits)

lemma set_bt_insert: "set (bt_insert k v m) \<subseteq> insert (k, v) (set m)"
  by (induction k v m rule: bt_insert.induct) auto

lemma collect_objects_origin:
  "(c, claim) \<in> set (collect_objects results os) \<Longrightarrow>
     (c, claim) \<in> set os \<or> (\<exists>x. (c, Inr x) \<in> set results \<and> claim = rx_object x)"
proof (induction results arbitrary: os)
  case (Cons r results)
  obtain d res where r: "r = (d, res)" by (cases r)
  show ?case
  proof (cases res)
    case (Inr x)
    with Cons.IH [of "bt_insert d (rx_object x) os"] Cons.prems r
    have "(c, claim) \<in> set (bt_insert d (rx_object x) os) \<or> (\<exists>x. (c, Inr x) \<in> set results \<and> claim = rx_object x)"
      by simp
    then show ?thesis using set_bt_insert [of d "rx_object x" os] r Inr by auto
  next
    case (Inl e)
    with Cons.IH [of os] Cons.prems r show ?thesis by auto
  qed
qed simp

lemma resolved_object_uid:
  "resolve_context se v c answer = Inr x \<Longrightarrow> claim_uid (rx_object x) = cr_uid c"
  by (auto simp: resolve_context_def resolve_object_ok split: prod.splits sum.splits)

lemma prepare_metadata_run:
  assumes "0 < cv_max_concurrent_resolves v"
  obtains m where "objects_match m"
    "prepare_metadata A v rt B claims s
      = (case publish_claims A rt m claims s of (results, s) \<Rightarrow> (map_option (responses (ce_dbg A)) results, s))"
proof -
  define contexts where "contexts = map (\<lambda>(i, c). (c, resolve_context (ce_show_err A) v c (ce_answers A i))) (enumerate 0 claims)"
  obtain errors objects resolved where split: "split_contexts contexts = (errors, objects, resolved)"
    by (cases "split_contexts contexts") auto
  have "objects = collect_objects contexts []"
    using split unfolding split_contexts_def split_contexts_fold by simp
  then have "objects_match \<lparr>pm_errors = errors, pm_objects = objects,
      pm_prepared = be_prepare_with_metadata B resolved\<rparr>"
    using collect_objects_origin [of _ _ contexts "[]"]
    by (fastforce simp: objects_match_def contexts_def resolved_object_uid)
  moreover have "prepare_metadata A v rt B claims s
      = (case publish_claims A rt \<lparr>pm_errors = errors, pm_objects = objects,
           pm_prepared = be_prepare_with_metadata B resolved\<rparr> claims s of
         (results, s) \<Rightarrow> (map_option (responses (ce_dbg A)) results, s))"
    by (simp add: prepare_metadata_def resolve_all_context_eq [OF assms] split flip: contexts_def)
  ultimately show thesis by (rule that)
qed

lemma error_text [simp]: "show_prepare_error dbg e \<noteq> []"
  by (cases e) simp_all

lemma response_ok:
  assumes "bt_lookup (responses dbg results) uid = Some r" "nr_error r = []"
  obtains c devices where "(c, Inr devices) \<in> set results" "cr_uid c = uid"
    "nr_devices r = map prepared_device_to_wire devices"
proof -
  let ?f = "\<lambda>(claim, result). (cr_uid claim, node_prepare_response dbg result)"
  have "map_of (rev (map ?f results)) uid = Some r"
    using assms(1) by (simp add: responses_def bt_lookup_collect)
  from map_of_SomeD [OF this] obtain c result where "(c, result) \<in> set results" "cr_uid c = uid"
      "r = node_prepare_response dbg result" by auto
  with assms(2) that show thesis by (auto simp: node_prepare_response_def split: sum.splits)
qed

subsection \<open>An example\<close>

text \<open>A request for two claims, of which the API server knows the first.\<close>

definition sample_env :: call_env where
  "sample_env = \<lparr>ce_show_err = \<lambda>_. ''unreachable'', ce_dbg = \<lambda>c. cr_uid c,
     ce_answers = \<lambda>i k. if i = 0 then Inr sample_allocated else Inl (OtherError ''gone''),
     ce_pick = \<lambda>_. 0, ce_os = sample_os None, ce_codec = sample_codec, ce_semver_ok = \<lambda>_. True\<rparr>"

definition sample_service :: dra_service where
  "sample_service = dra_service_new \<lparr>cv_driver_name = ''d.io'', cv_max_concurrent_resolves = 2,
     cv_max_attempts = 1, cv_retry_delay = 0\<rparr>"

definition sample_backend :: claim_backend where
  "sample_backend = \<lparr>be_prepare = \<lambda>claims. bt_collect (map (\<lambda>c. (rc_claim c, Inr [])) claims),
     be_prepare_with_metadata = \<lambda>claims. bt_collect (map (\<lambda>c. (rc_claim c, Inr sample_prepared)) claims),
     be_unprepare = \<lambda>c. Inr ()\<rparr>"

definition sample_request :: "wire_claim list" where
  "sample_request = [\<lparr>wc_namespace = ''default'', wc_uid = ''u1'', wc_name = ''claim''\<rparr>,
     \<lparr>wc_namespace = ''default'', wc_uid = ''u2'', wc_name = ''other''\<rparr>]"

lemma sample_resolver_ok: "resolver_ok (sv_resolver sample_service)"
  by code_simp

subsection \<open>Properties\<close>

text \<open>
  C25: \<open>NodePrepareResources\<close> always answers, and its answer has an entry for exactly the requested
  claims, with and without metadata, whatever the API server, the backend and the disk do.
\<close>
theorem prepare_answers_all:
  assumes "resolver_ok (sv_resolver sv)"
  shows "\<exists>resp. fst (node_prepare_resources A sv B request s) = Some resp
    \<and> fst ` set resp = wc_uid ` set request"
proof -
  have limit: "0 < cv_max_concurrent_resolves (sv_resolver sv)" using assms by (simp add: resolver_ok_def)
  show ?thesis
  proof (cases "sv_metadata sv")
    case None
    obtain errors resolved where split: "split_resolved (map (\<lambda>(i, c).
        (c, resolve (ce_show_err A) (sv_resolver sv) c (ce_answers A i)))
        (enumerate 0 (map claim_from_wire request))) = (errors, resolved)"
      by fastforce
    have "\<exists>resp. prepare_plain A (sv_resolver sv) B (map claim_from_wire request) = Some resp
        \<and> fst ` set resp = wc_uid ` set request"
      by (simp only: prepare_plain_def resolve_all_eq [OF limit] split option.map prod.case Let_def
          option.inject ex_simps simp_thms answered_uids [OF answered_claims])
    with None show ?thesis by (simp add: node_prepare_resources_def Let_def)
  next
    case (Some rt)
    obtain m where m: "prepare_metadata A (sv_resolver sv) rt B (map claim_from_wire request) s
        = (case publish_claims A rt m (map claim_from_wire request) s of
             (results, s) \<Rightarrow> (map_option (responses (ce_dbg A)) results, s))"
      by (rule prepare_metadata_run [OF limit])
    obtain results where "fst (publish_claims A rt m (map claim_from_wire request) s) = Some results"
      and keys: "map fst results = map claim_from_wire request"
      using publish_claims_answers by blast
    then have "fst (prepare_metadata A (sv_resolver sv) rt B (map claim_from_wire request) s)
        = Some (responses (ce_dbg A) results)"
      unfolding m by (cases "publish_claims A rt m (map claim_from_wire request) s") simp
    then show ?thesis
      using answered_uids [OF keys] Some by (auto simp: node_prepare_resources_def Let_def)
  qed
qed

theorem prepare_answers_all_witness:
  "\<exists>resp. fst (node_prepare_resources sample_env (sample_service\<lparr>sv_metadata := Some sample_runtime\<rparr>)
       sample_backend sample_request empty_disk) = Some resp
    \<and> fst ` set resp = wc_uid ` set sample_request"
  by (rule prepare_answers_all) (simp add: sample_resolver_ok)

text \<open>
  C26: a claim that the kubelet is told is prepared (an entry without error) has its journal, its
  documents and its CDI specifications on the disk when the call returns, with the devices of the
  answer, even after the other claims of the call were published.
\<close>
theorem prepared_has_files:
  assumes "with_device_metadata dbg sv0 driver options = Inr sv" and "resolver_ok (sv_resolver sv0)"
    and "node_prepare_resources A sv B request s = (Some resp, s')"
    and "bt_lookup resp uid = Some r" and "nr_error r = []"
  shows "\<exists>rt devices. sv_metadata sv = Some rt \<and> nr_devices r = map prepared_device_to_wire devices
    \<and> claim_published A rt uid devices s'"
proof -
  obtain rt where rt: "metadata_runtime_new dbg driver options = Inr rt" "sv = sv0\<lparr>sv_metadata := Some rt\<rparr>"
    using assms(1) by (auto simp: with_device_metadata_def res_simps)
  note driver = runtime_driver [OF rt(1)]
  have limit: "0 < cv_max_concurrent_resolves (sv_resolver sv)"
    using assms(2) rt by (simp add: resolver_ok_def)
  have "request \<noteq> []" using assms(3,4) by (auto simp: node_prepare_resources_def)
  then have run: "prepare_metadata A (sv_resolver sv) rt B (map claim_from_wire request) s = (Some resp, s')"
    using assms(3) rt(2) by (simp add: node_prepare_resources_def)
  obtain m where "objects_match m"
      "prepare_metadata A (sv_resolver sv) rt B (map claim_from_wire request) s
        = (case publish_claims A rt m (map claim_from_wire request) s of
             (results, s) \<Rightarrow> (map_option (responses (ce_dbg A)) results, s))"
    by (rule prepare_metadata_run [OF limit])
  with run obtain results where pub: "publish_claims A rt m (map claim_from_wire request) s = (Some results, s')"
      "resp = responses (ce_dbg A) results" "objects_match m"
    by (auto split: prod.splits)
  obtain c devices where "(c, Inr devices) \<in> set results" "cr_uid c = uid"
      "nr_devices r = map prepared_device_to_wire devices"
    using response_ok assms(4,5) pub(2) by metis
  then show ?thesis
    using publish_claims_published [OF driver pub(3,1)] rt(2) by auto
qed

definition sample_response :: "(string, prepare_response) btree \<times> disk" where
  "sample_response = map_prod the id (node_prepare_resources sample_env
     (sample_service\<lparr>sv_metadata := Some sample_runtime\<rparr>) sample_backend sample_request empty_disk)"

lemma sample_call:
  "with_device_metadata (\<lambda>s. s) sample_service ''d.io'' sample_options
     = Inr (sample_service\<lparr>sv_metadata := Some sample_runtime\<rparr>)"
  "fst (node_prepare_resources sample_env (sample_service\<lparr>sv_metadata := Some sample_runtime\<rparr>)
     sample_backend sample_request empty_disk) \<noteq> None"
  "bt_lookup (fst sample_response) ''u1'' \<noteq> None"
  "nr_error (the (bt_lookup (fst sample_response) ''u1'')) = []"
  by code_simp+

theorem prepared_has_files_witness:
  "\<exists>rt devices. sv_metadata (sample_service\<lparr>sv_metadata := Some sample_runtime\<rparr>) = Some rt
    \<and> nr_devices (the (bt_lookup (fst sample_response) ''u1'')) = map prepared_device_to_wire devices
    \<and> claim_published sample_env rt ''u1'' devices (snd sample_response)"
proof (rule prepared_has_files [OF sample_call(1) sample_resolver_ok _ _ sample_call(4)])
  show "node_prepare_resources sample_env (sample_service\<lparr>sv_metadata := Some sample_runtime\<rparr>)
      sample_backend sample_request empty_disk = (Some (fst sample_response), snd sample_response)"
    using sample_call(2) by (simp add: sample_response_def prod_eq_iff)
  show "bt_lookup (fst sample_response) ''u1'' = Some (the (bt_lookup (fst sample_response) ''u1''))"
    using sample_call(3) by simp
qed

text \<open>The entry of a claim without metadata, from which \<open>Claim_Preparer\<close> states what it depends on.\<close>

lemma claim_answer:
  assumes "resolver_ok (sv_resolver sv)" and "sv_metadata sv = None"
    and "distinct (map wc_uid request)" and "i < length request"
  shows "\<exists>resp. node_prepare_resources A sv B request s = (Some resp, s)
    \<and> bt_lookup resp (wc_uid (request ! i)) = Some (node_prepare_response (ce_dbg A)
        (claim_outcome A (sv_resolver sv) B (map claim_from_wire request) i (claim_from_wire (request ! i))))"
proof -
  let ?claims = "map claim_from_wire request"
  let ?r = "\<lambda>i c. node_prepare_response (ce_dbg A) (claim_outcome A (sv_resolver sv) B ?claims i c)"
  let ?pairs = "map (\<lambda>(i, c). (cr_uid c, ?r i c)) (enumerate 0 ?claims)"
  have limit: "0 < cv_max_concurrent_resolves (sv_resolver sv)" using assms(1) by (simp add: resolver_ok_def)
  have uids: "map cr_uid ?claims = map wc_uid request" by simp
  then have distinct: "distinct ?claims" using assms(3) by (metis distinct_map)
  have "map fst ?pairs = map cr_uid (map snd (enumerate 0 ?claims))"
    unfolding map_map by (rule map_cong) auto
  then have keys: "distinct (map fst ?pairs)" using assms(3) uids by (simp only: map_snd_enumerate)
  have "(i, claim_from_wire (request ! i)) \<in> set (enumerate 0 ?claims)"
    using assms(4) by (simp add: in_set_enumerate_eq)
  then have "(wc_uid (request ! i), ?r i (claim_from_wire (request ! i))) \<in> set ?pairs" by force
  then have "map_of (rev ?pairs) (wc_uid (request ! i)) = Some (?r i (claim_from_wire (request ! i)))"
    using keys by (simp only: map_of_rev_distinct map_of_eq_Some_iff)
  then have "bt_lookup (responses (ce_dbg A) (map (\<lambda>(i, c). (c, claim_outcome A (sv_resolver sv) B ?claims i c))
      (enumerate 0 ?claims))) (wc_uid (request ! i)) = Some (?r i (claim_from_wire (request ! i)))"
    by (simp add: responses_def bt_lookup_collect comp_def case_prod_unfold)
  moreover have "?claims \<noteq> []" using assms(4) by auto
  ultimately show ?thesis
    using assms(2) by (simp add: node_prepare_resources_def Let_def prepare_plain_answers [OF limit distinct])
qed

end
