(* ===== verification/Dra_Registration.thy ===== *)
theory Dra_Registration
  imports Socket_Name Dra_Service Unix_Socket
begin

text \<open>
  \<open>dra/src/registration.rs\<close>, the server that the kubelet's plugin watcher asks for the driver's
  identity, and \<open>dra/src/health.rs\<close>, the liveness probe that calls both sockets of a driver. The
  probe's transport is a record of what connecting to a path and calling a service there gives; its
  calls are recorded in order. \<open>node_transport\<close> is the transport of a node on which given servers
  listen, and the lemmas run the probe against it.
\<close>

subsection \<open>Constants of the kubelet\<close>

definition DRA_PLUGIN_SERVICE :: string where "DRA_PLUGIN_SERVICE = ''v1.DRAPlugin''"

definition KUBELET_PLUGINS_REGISTRY_PATH :: string where
  "KUBELET_PLUGINS_REGISTRY_PATH = ''/var/lib/kubelet/plugins_registry/''"

definition REGISTRATION_SOCKET_SUFFIX :: string where "REGISTRATION_SOCKET_SUFFIX = ''-reg.sock''"

lemmas registration_consts =
  DRA_PLUGIN_SERVICE_def KUBELET_PLUGINS_REGISTRY_PATH_def REGISTRATION_SOCKET_SUFFIX_def

subsection \<open>The registration server\<close>

record plugin_info =
  pi_type :: string
  pi_name :: string
  pi_endpoint :: string
  pi_supported_versions :: "string list"

record registration_server =
  rs_socket_path :: string
  rs_plugin_info :: plugin_info

definition registration_socket_name :: "string \<Rightarrow> string" where
  "registration_socket_name driver_name =
     (let budget = MAX_SOCKET_PATH_LEN - length KUBELET_PLUGINS_REGISTRY_PATH
            - length REGISTRATION_SOCKET_SUFFIX
      in sanitize_socket_name driver_name budget @ REGISTRATION_SOCKET_SUFFIX)"

definition registration_server_new :: "string \<Rightarrow> string \<Rightarrow> validation_error + registration_server" where
  "registration_server_new driver_name plugin_endpoint =
     res_bind (validate_driver_name driver_name) (\<lambda>_.
       Inr \<lparr>rs_socket_path =
              path_join KUBELET_PLUGINS_REGISTRY_PATH (registration_socket_name driver_name),
            rs_plugin_info = \<lparr>pi_type = ''DRAPlugin'', pi_name = driver_name,
              pi_endpoint = plugin_endpoint, pi_supported_versions = [DRA_PLUGIN_SERVICE]\<rparr>\<rparr>)"

text \<open>\<open>health_service\<close> is the generated name of the health service.\<close>

definition registration_with_resource_health ::
    "string \<Rightarrow> registration_server \<Rightarrow> registration_server" where
  "registration_with_resource_health health_service server =
     server\<lparr>rs_plugin_info := (rs_plugin_info server)\<lparr>pi_supported_versions :=
       pi_supported_versions (rs_plugin_info server) @ [health_service]\<rparr>\<rparr>"

text \<open>
  \<open>setup_listener\<close>, the same in both servers; \<open>from_std\<close> is how handing the listener to the
  asynchronous runtime ends. \<open>spawn\<close> gives the information the service serves from then on.
\<close>

definition setup_listener :: "socket_env \<Rightarrow> io_error + unit \<Rightarrow> string \<Rightarrow> unit traced" where
  "setup_listener e from_std socket_path =
     (let (listener, calls) = run_bind e socket_path
      in (res_bind listener (\<lambda>_. from_std), calls))"

definition registration_spawn ::
    "socket_env \<Rightarrow> io_error + unit \<Rightarrow> registration_server \<Rightarrow> plugin_info traced" where
  "registration_spawn e from_std server =
     (let (incoming, calls) = setup_listener e from_std (rs_socket_path server)
      in (res_bind incoming (\<lambda>_. Inr (rs_plugin_info server)), calls))"

definition service_spawn_at :: "socket_env \<Rightarrow> io_error + unit \<Rightarrow> dra_service \<Rightarrow> string \<Rightarrow> dra_service traced" where
  "service_spawn_at e from_std sv socket_path =
     (let (incoming, calls) = setup_listener e from_std socket_path
      in (res_bind incoming (\<lambda>_. Inr sv), calls))"

definition service_spawn ::
    "(string \<Rightarrow> string) \<Rightarrow> socket_env \<Rightarrow> io_error + unit \<Rightarrow> dra_service \<Rightarrow> string \<Rightarrow> dra_service traced" where
  "service_spawn dbg e from_std sv driver_name =
     (case validate_identity (sv_resolver sv) driver_name of
        Inl error \<Rightarrow> (Inl (IoError InvalidInput (show_validation_error dbg error)), [])
      | Inr _ \<Rightarrow> service_spawn_at e from_std sv (plugin_socket_path driver_name))"

definition get_info :: "plugin_info \<Rightarrow> plugin_info" where
  "get_info service = service"

datatype registration_log = RegisteredWithKubelet string | KubeletRejected string string

definition notify_registration_status :: "plugin_info \<Rightarrow> bool \<Rightarrow> string \<Rightarrow> registration_log" where
  "notify_registration_status service plugin_registered error =
     (if plugin_registered then RegisteredWithKubelet (pi_name service)
      else KubeletRejected (pi_name service) error)"

subsection \<open>The liveness probe\<close>

record liveness_probe =
  lp_driver_name :: string
  lp_registration_socket_path :: string
  lp_plugin_socket_path :: string

definition probe_with_socket_paths ::
    "string \<Rightarrow> string \<Rightarrow> string \<Rightarrow> validation_error + liveness_probe" where
  "probe_with_socket_paths driver_name registration_path plugin_path =
     res_bind (validate_driver_name driver_name) (\<lambda>_.
       Inr \<lparr>lp_driver_name = driver_name, lp_registration_socket_path = registration_path,
            lp_plugin_socket_path = plugin_path\<rparr>)"

definition probe_new :: "string \<Rightarrow> validation_error + liveness_probe" where
  "probe_new driver_name =
     (let plugin_path = path_join (path_join KUBELET_PLUGINS_PATH driver_name) ''plugin.sock'';
          registration_path =
            path_join KUBELET_PLUGINS_REGISTRY_PATH (registration_socket_name driver_name)
      in probe_with_socket_paths driver_name registration_path plugin_path)"

text \<open>Errors of the transport and statuses of calls, timeouts included, are their texts.\<close>

record probe_transport =
  pt_connect :: "string \<Rightarrow> string + unit"
  pt_get_info :: "string \<Rightarrow> string + plugin_info"
  pt_prepare :: "string \<Rightarrow> wire_claim list \<Rightarrow> string + unit"

datatype probe_call = Connect string | GetInfo string | PrepareResources string "wire_claim list"

definition probe_connect :: "probe_transport \<Rightarrow> string \<Rightarrow> string \<Rightarrow> io_error + unit" where
  "probe_connect T socket_path service =
     res_map_err (\<lambda>error. io_other (''connect to '' @ service @ '' socket '' @ socket_path @ '': '' @ error))
       (pt_connect T socket_path)"

definition rpc_error :: "string \<Rightarrow> string \<Rightarrow> io_error" where
  "rpc_error operation error = io_other (operation @ '' probe failed: '' @ error)"

text \<open>The checks on the answer of the registration socket.\<close>

definition check_info :: "liveness_probe \<Rightarrow> plugin_info \<Rightarrow> io_error + unit" where
  "check_info p info =
     (if pi_type info \<noteq> ''DRAPlugin''
      then Inl (IoError InvalidData (''registration socket '' @ lp_registration_socket_path p
        @ '' reported plugin type '' @ pi_type info @ '', not DRAPlugin''))
      else if pi_name info \<noteq> lp_driver_name p
        \<or> \<not> list_ex (\<lambda>service. service = DRA_PLUGIN_SERVICE) (pi_supported_versions info)
      then Inl (IoError InvalidData (''registration must advertise driver '' @ lp_driver_name p
        @ '' and service '' @ DRA_PLUGIN_SERVICE))
      else if path_components (pi_endpoint info) \<noteq> path_components (lp_plugin_socket_path p)
      then Inl (IoError InvalidData (''registration socket '' @ lp_registration_socket_path p
        @ '' advertised '' @ pi_endpoint info @ '', expected '' @ lp_plugin_socket_path p))
      else Inr ())"

definition probe_plugin :: "probe_transport \<Rightarrow> liveness_probe \<Rightarrow> (io_error + unit) \<times> probe_call list" where
  "probe_plugin T p =
     (let path = lp_plugin_socket_path p
      in case probe_connect T path ''DRAPlugin'' of
           Inl error \<Rightarrow> (Inl error, [Connect path])
         | Inr _ \<Rightarrow>
             (res_map_err (rpc_error ''DRAPlugin NodePrepareResources'') (pt_prepare T path []),
              [Connect path, PrepareResources path []]))"

definition probe_check :: "probe_transport \<Rightarrow> liveness_probe \<Rightarrow> (io_error + unit) \<times> probe_call list" where
  "probe_check T p =
     (let path = lp_registration_socket_path p
      in case probe_connect T path ''registration'' of
           Inl error \<Rightarrow> (Inl error, [Connect path])
         | Inr _ \<Rightarrow>
             (case pt_get_info T path of
                Inl error \<Rightarrow> (Inl (rpc_error ''registration GetInfo'' error), [Connect path, GetInfo path])
              | Inr info \<Rightarrow>
                  (case check_info p info of
                     Inl error \<Rightarrow> (Inl error, [Connect path, GetInfo path])
                   | Inr _ \<Rightarrow>
                       (case probe_plugin T p of
                          (result, calls) \<Rightarrow> (result, [Connect path, GetInfo path] @ calls)))))"

lemmas probe_defs = probe_check_def probe_plugin_def probe_connect_def Let_def

subsection \<open>Socket paths\<close>

lemma registration_path_eq:
  "path_join KUBELET_PLUGINS_REGISTRY_PATH (registration_socket_name driver_name)
     = KUBELET_PLUGINS_REGISTRY_PATH @ registration_socket_name driver_name"
proof -
  have "CHR ''/'' \<notin> set (sanitize_socket_name driver_name 64)" by (simp add: sanitize_path_part)
  then have "\<not> is_absolute (registration_socket_name driver_name)"
    by (cases "sanitize_socket_name driver_name 64")
      (auto simp: is_absolute_iff registration_socket_name_def registration_consts
        MAX_SOCKET_PATH_LEN_def)
  then show ?thesis by (simp add: path_join_def registration_consts ends_with_def)
qed

lemma registration_socket_name_budget:
  "registration_socket_name driver_name = sanitize_socket_name driver_name 64 @ ''-reg.sock''"
  by (simp add: registration_socket_name_def registration_consts MAX_SOCKET_PATH_LEN_def)

lemma registration_path_length:
  "length (KUBELET_PLUGINS_REGISTRY_PATH @ registration_socket_name driver_name) \<le> 107"
  using length_sanitize_socket_name [of driver_name 64]
  by (simp add: registration_socket_name_budget registration_consts)

lemma driver_name_path:
  assumes "validate_driver_name driver_name = Inr ()"
  shows "CHR ''/'' \<notin> set driver_name" "driver_name \<noteq> []" "length driver_name \<le> 63"
    "driver_name \<noteq> ''.''" "driver_name \<noteq> ''..''"
proof -
  from assms have s: "is_valid_dns_subdomain driver_name" and len: "length driver_name \<le> 63"
    by (auto simp: validate_driver_name_def validation_consts split: if_splits)
  from s show "CHR ''/'' \<notin> set driver_name" by (rule subdomain_no_slash)
  from s show "driver_name \<noteq> []" by (simp add: is_valid_dns_subdomain_def)
  from s show "driver_name \<noteq> ''.''" "driver_name \<noteq> ''..''"
    by (auto simp: is_valid_dns_subdomain_def is_valid_dns_label_def)
  from len show "length driver_name \<le> 63" .
qed

lemma plugin_socket_path_eq:
  assumes "validate_driver_name driver_name = Inr ()"
  shows "plugin_socket_path driver_name = KUBELET_PLUGINS_PATH @ driver_name @ ''/plugin.sock''"
proof -
  note d = driver_name_path [OF assms]
  then have "\<not> is_absolute driver_name" by (auto simp: is_absolute_iff)
  moreover have "\<not> ends_with ''/'' (KUBELET_PLUGINS_PATH @ driver_name)"
    using d by (cases driver_name rule: rev_cases) (auto simp: ends_with_def)
  ultimately show ?thesis
    by (simp add: plugin_socket_path_def path_join_def KUBELET_PLUGINS_PATH_def is_absolute_def
        ends_with_def starts_with_def)
qed

end
