(* ===== verification/Dra_Plugin.thy ===== *)
theory Dra_Plugin
  imports Dra_Registration Slice_Publisher
begin

text \<open>
  \<open>DraPlugin\<close> of \<open>dra/src/lib.rs\<close>: how a plugin is built from one driver name, and \<open>run\<close>, which
  starts the DRAPlugin service, the registration server and the publisher as tasks and stops the
  others when one exits. \<open>run\<close> is a step relation, in which a task may end at any time, an aborted
  task ends at a time of the scheduler's choice, and every outcome of the file system is a step.
\<close>

subsection \<open>Building a plugin\<close>

record dra_plugin =
  dp_driver_name :: string
  dp_registration :: registration_server
  dp_service :: dra_service
  dp_publisher :: publisher

text \<open>\<open>from_driver\<close>, of which \<open>new\<close> is a wrapper; \<open>backend_name\<close> is \<open>driver.driver_name()\<close>.\<close>

definition from_driver :: "string \<Rightarrow> string \<Rightarrow> string \<Rightarrow> validation_error + dra_plugin" where
  "from_driver driver_name node_name backend_name =
     res_bind (validate_driver_name driver_name) (\<lambda>_.
       if backend_name \<noteq> driver_name then Inl (DriverNameMismatch driver_name backend_name)
       else let plugin_endpoint = plugin_socket_path driver_name
         in res_bind (registration_server_new driver_name plugin_endpoint) (\<lambda>server.
            res_bind (claim_resolver_new driver_name) (\<lambda>resolver.
            let service = dra_service_new resolver
            in res_bind (publisher_new driver_name node_name) (\<lambda>publisher.
               Inr \<lparr>dp_driver_name = driver_name, dp_registration = server, dp_service = service,
                    dp_publisher = publisher\<rparr>))))"

definition plugin_with_device_metadata ::
    "(string \<Rightarrow> string) \<Rightarrow> dra_plugin \<Rightarrow> metadata_options \<Rightarrow> io_error + dra_plugin" where
  "plugin_with_device_metadata dbg p options =
     res_bind (with_device_metadata dbg (dp_service p) (dp_driver_name p) options) (\<lambda>service.
       Inr (p\<lparr>dp_service := service\<rparr>))"

definition plugin_with_resource_health ::
    "string \<Rightarrow> string \<Rightarrow> string \<Rightarrow> string \<Rightarrow> validation_error + dra_plugin" where
  "plugin_with_resource_health health_service driver_name node_name backend_name =
     res_bind (from_driver driver_name node_name backend_name) (\<lambda>p.
       Inr (p\<lparr>dp_service := with_resource_health (dp_service p),
              dp_registration := registration_with_resource_health health_service (dp_registration p)\<rparr>))"

text \<open>The plugins a caller can build for a backend whose \<open>driver_name()\<close> is \<open>backend_name\<close>.\<close>

inductive built :: "string \<Rightarrow> (string \<Rightarrow> string) \<Rightarrow> string \<Rightarrow> dra_plugin \<Rightarrow> bool"
  for health_service dbg backend_name where
  plain: "from_driver driver_name node_name backend_name = Inr p \<Longrightarrow> built health_service dbg backend_name p"
| health: "plugin_with_resource_health health_service driver_name node_name backend_name = Inr p \<Longrightarrow>
     built health_service dbg backend_name p"
| metadata: "built health_service dbg backend_name p \<Longrightarrow> plugin_with_device_metadata dbg p options = Inr p' \<Longrightarrow>
     built health_service dbg backend_name p'"

definition plugin_wf :: "string \<Rightarrow> dra_plugin \<Rightarrow> bool" where
  "plugin_wf health_service p \<longleftrightarrow>
     (let d = dp_driver_name p; info = rs_plugin_info (dp_registration p)
      in validate_driver_name d = Inr ()
        \<and> validate_node_name (pub_node_name (dp_publisher p)) = Inr ()
        \<and> pi_type info = ''DRAPlugin'' \<and> pi_name info = d
        \<and> cv_driver_name (sv_resolver (dp_service p)) = d \<and> pub_driver_name (dp_publisher p) = d
        \<and> pred_option (\<lambda>rt. mr_driver rt = d) (sv_metadata (dp_service p))
        \<and> pi_endpoint info = plugin_socket_path d \<and> length (pi_endpoint info) \<le> 107
        \<and> rs_socket_path (dp_registration p) = KUBELET_PLUGINS_REGISTRY_PATH @ registration_socket_name d
        \<and> length (rs_socket_path (dp_registration p)) \<le> 107
        \<and> set (pi_supported_versions info)
            = {DRA_PLUGIN_SERVICE} \<union> (if sv_health (dp_service p) then {health_service} else {}))"

lemma from_driver_wf:
  assumes "from_driver driver_name node_name backend_name = Inr p"
  shows "plugin_wf health_service p" "dp_driver_name p = driver_name" "dp_driver_name p = backend_name"
    "sv_health (dp_service p) = False"
proof -
  from assms have v: "validate_driver_name driver_name = Inr ()"
    by (auto simp: from_driver_def res_simps)
  note path = plugin_socket_path_eq [OF v]
  have "length (plugin_socket_path driver_name) \<le> 107"
    using driver_name_path(3) [OF v] by (simp add: path KUBELET_PLUGINS_PATH_def)
  with assms show "plugin_wf health_service p" "dp_driver_name p = driver_name" "dp_driver_name p = backend_name"
      "sv_health (dp_service p) = False"
    by (auto simp: from_driver_def res_simps plugin_wf_def Let_def claim_resolver_new_def
        publisher_new_def dra_service_new_def registration_server_new_def
        registration_path_eq registration_path_length [simplified] split: if_splits)
qed

text \<open>What \<open>from_driver\<close> accepts.\<close>

lemma from_driver_accepts:
  "(\<exists>p. from_driver driver_name node_name backend_name = Inr p) \<longleftrightarrow>
     validate_driver_name driver_name = Inr () \<and> validate_node_name node_name = Inr ()
     \<and> backend_name = driver_name"
  by (auto simp: from_driver_def res_simps Let_def claim_resolver_new_def publisher_new_def
      registration_server_new_def)

lemma built_name: "built health_service dbg backend_name p \<Longrightarrow> dp_driver_name p = backend_name"
proof (induction rule: built.induct)
  case (health driver_name node_name p)
  then show ?case by (auto simp: plugin_with_resource_health_def res_simps dest: from_driver_wf(3))
next
  case (metadata p options p')
  then show ?case by (auto simp: plugin_with_device_metadata_def res_simps)
qed (rule from_driver_wf(3))

lemma built_wf: "built health_service dbg backend_name p \<Longrightarrow> plugin_wf health_service p"
proof (induction rule: built.induct)
  case (health driver_name node_name p)
  then obtain q where q: "from_driver driver_name node_name backend_name = Inr q"
      "p = q\<lparr>dp_service := with_resource_health (dp_service q),
              dp_registration := registration_with_resource_health health_service (dp_registration q)\<rparr>"
    by (auto simp: plugin_with_resource_health_def res_simps)
  from from_driver_wf(1) [OF q(1)] have "plugin_wf health_service q" .
  with from_driver_wf(4) [OF q(1)] show ?case
    unfolding q(2) plugin_wf_def Let_def with_resource_health_def registration_with_resource_health_def
    by (elim conjE) simp
next
  case (metadata p options p')
  then obtain rt where rt: "metadata_runtime_new dbg (dp_driver_name p) options = Inr rt"
      "p' = p\<lparr>dp_service := (dp_service p)\<lparr>sv_metadata := Some rt\<rparr>\<rparr>"
    by (auto simp: plugin_with_device_metadata_def with_device_metadata_def res_simps)
  then have "mr_driver rt = dp_driver_name p"
    by (auto simp: metadata_runtime_new_def res_simps Let_def split: prod.splits)
  with metadata.IH show ?case unfolding rt(2) plugin_wf_def Let_def by (elim conjE) simp
qed (rule from_driver_wf(1))

subsection \<open>Running a plugin\<close>

datatype component = RegistrationTask | ServiceTask | PublisherTask

text \<open>How a task ends: with its result or, when it panicked or was cancelled, a join error.\<close>

datatype task_end = Finished "string + unit" | JoinError string

definition component_error :: "string \<Rightarrow> task_end \<Rightarrow> io_error" where
  "component_error name result =
     (case result of
        Finished (Inr ()) \<Rightarrow> io_other (name @ '' exited unexpectedly'')
      | Finished (Inl err) \<Rightarrow> io_other (name @ '' failed: '' @ err)
      | JoinError join_err \<Rightarrow> io_other (name @ '' panicked: '' @ join_err))"

definition publisher_error :: "task_end \<Rightarrow> io_error" where
  "publisher_error result =
     (case result of
        Finished _ \<Rightarrow> io_other ''ResourceSlice publisher exited unexpectedly''
      | JoinError join_err \<Rightarrow> io_other (''ResourceSlice publisher panicked: '' @ join_err))"

fun exit_error :: "component \<Rightarrow> task_end \<Rightarrow> io_error" where
  "exit_error RegistrationTask result = component_error ''registration server'' result"
| "exit_error ServiceTask result = component_error ''DRAPlugin service'' result"
| "exit_error PublisherTask result = publisher_error result"

text \<open>\<open>Active\<close> has whether \<open>abort\<close> was called on the task.\<close>

datatype task_state = NotStarted | Active bool | Ended task_end

fun abort_task :: "task_state \<Rightarrow> task_state" where
  "abort_task (Active _) = Active True"
| "abort_task t = t"

fun is_ended :: "task_state \<Rightarrow> bool" where
  "is_ended (Ended _) = True"
| "is_ended _ = False"

fun is_active :: "task_state \<Rightarrow> bool" where
  "is_active (Active _) = True"
| "is_active _ = False"

text \<open>
  Where \<open>run\<close> is: creating the two directories, binding the service, binding the registration
  server, awaiting the aborted service after that failed, in \<open>select!\<close>, awaiting the two aborted
  tasks in \<open>join!\<close>, or done.
\<close>

datatype run_phase =
    CreatingRegistry | CreatingDirectory | StartingService | StartingRegistration
  | StoppingService io_error | Waiting | Reaping component io_error | Returned io_error

record lifecycle =
  lc_phase :: run_phase
  lc_tasks :: "component \<Rightarrow> task_state"
  lc_exited :: "(component \<times> task_end) list" \<comment> \<open>the tasks that ended and were not cancelled\<close>

definition run_begin :: lifecycle where
  "run_begin = \<lparr>lc_phase = CreatingRegistry, lc_tasks = (\<lambda>_. NotStarted), lc_exited = []\<rparr>"

definition abort_others :: "component \<Rightarrow> (component \<Rightarrow> task_state) \<Rightarrow> component \<Rightarrow> task_state" where
  "abort_others c tasks d = (if d = c then tasks d else abort_task (tasks d))"

text \<open>\<open>Runtime\<close> is a step of \<open>run\<close> or of the scheduler; \<open>TaskExits\<close> is a task that ends by itself.\<close>

datatype run_event = Runtime | TaskExits component

text \<open>The publisher's task has no error of its own.\<close>

fun may_end :: "component \<Rightarrow> task_end \<Rightarrow> bool" where
  "may_end PublisherTask (Finished r) = (r = Inr ())"
| "may_end _ _ = True"

inductive run_step :: "run_event \<Rightarrow> lifecycle \<Rightarrow> lifecycle \<Rightarrow> bool" where
  registry_fails: "lc_phase w = CreatingRegistry \<Longrightarrow> run_step Runtime w (w\<lparr>lc_phase := Returned err\<rparr>)"
| registry_created: "lc_phase w = CreatingRegistry \<Longrightarrow>
     run_step Runtime w (w\<lparr>lc_phase := CreatingDirectory\<rparr>)"
| directory_fails: "lc_phase w = CreatingDirectory \<Longrightarrow> run_step Runtime w (w\<lparr>lc_phase := Returned err\<rparr>)"
| directory_created: "lc_phase w = CreatingDirectory \<Longrightarrow>
     run_step Runtime w (w\<lparr>lc_phase := StartingService\<rparr>)"
| service_fails: "lc_phase w = StartingService \<Longrightarrow> run_step Runtime w (w\<lparr>lc_phase := Returned err\<rparr>)"
| service_starts: "lc_phase w = StartingService \<Longrightarrow>
     run_step Runtime w (w\<lparr>lc_phase := StartingRegistration,
       lc_tasks := (lc_tasks w)(ServiceTask := Active False)\<rparr>)"
| registration_fails: "lc_phase w = StartingRegistration \<Longrightarrow>
     run_step Runtime w (w\<lparr>lc_phase := StoppingService err,
       lc_tasks := (lc_tasks w)(ServiceTask := abort_task (lc_tasks w ServiceTask))\<rparr>)"
| service_stopped: "lc_phase w = StoppingService err \<Longrightarrow> is_ended (lc_tasks w ServiceTask) \<Longrightarrow>
     run_step Runtime w (w\<lparr>lc_phase := Returned err\<rparr>)"
| registration_starts: "lc_phase w = StartingRegistration \<Longrightarrow>
     run_step Runtime w (w\<lparr>lc_phase := Waiting,
       lc_tasks := (lc_tasks w)(RegistrationTask := Active False, PublisherTask := Active False)\<rparr>)"
| select: "lc_phase w = Waiting \<Longrightarrow> lc_tasks w c = Ended result \<Longrightarrow>
     run_step Runtime w (w\<lparr>lc_phase := Reaping c (exit_error c result),
       lc_tasks := abort_others c (lc_tasks w)\<rparr>)"
| reaped: "lc_phase w = Reaping c err \<Longrightarrow> is_ended (lc_tasks w RegistrationTask) \<Longrightarrow>
     is_ended (lc_tasks w ServiceTask) \<Longrightarrow> is_ended (lc_tasks w PublisherTask) \<Longrightarrow>
     run_step Runtime w (w\<lparr>lc_phase := Returned err\<rparr>)"
| cancelled: "lc_tasks w c = Active True \<Longrightarrow>
     run_step Runtime w (w\<lparr>lc_tasks := (lc_tasks w)(c := Ended (JoinError err))\<rparr>)"
| task_exits: "lc_tasks w c = Active aborted \<Longrightarrow> may_end c result \<Longrightarrow>
     run_step (TaskExits c) w (w\<lparr>lc_tasks := (lc_tasks w)(c := Ended result),
       lc_exited := lc_exited w @ [(c, result)]\<rparr>)"

inductive_cases run_stepE: "run_step ev w w'"

inductive run_reaches :: "lifecycle \<Rightarrow> bool" where
  start: "run_reaches run_begin"
| more: "run_reaches w \<Longrightarrow> run_step ev w w' \<Longrightarrow> run_reaches w'"

subsection \<open>The invariant\<close>

text \<open>The tasks that ended without being aborted are those recorded.\<close>

definition task_known :: "lifecycle \<Rightarrow> component \<Rightarrow> bool" where
  "task_known w c \<longleftrightarrow> (case lc_tasks w c of Ended r \<Rightarrow> (c, r) \<in> set (lc_exited w) | _ \<Rightarrow> True)"

fun phase_inv :: "run_phase \<Rightarrow> lifecycle \<Rightarrow> bool" where
  "phase_inv (Returned err) w \<longleftrightarrow>
     (\<forall>c. \<not> is_active (lc_tasks w c))
     \<and> (lc_tasks w RegistrationTask = NotStarted \<and> lc_tasks w PublisherTask = NotStarted
        \<or> (\<exists>(c, r) \<in> set (lc_exited w). err = exit_error c r))"
| "phase_inv (Reaping c err) w \<longleftrightarrow>
     (\<forall>d. lc_tasks w d = Active True \<or> is_ended (lc_tasks w d)) \<and> is_ended (lc_tasks w c)
     \<and> (\<exists>(c, r) \<in> set (lc_exited w). err = exit_error c r)"
| "phase_inv Waiting w \<longleftrightarrow>
     (\<forall>d. lc_tasks w d = Active False \<or> is_ended (lc_tasks w d)) \<and> (\<forall>d. task_known w d)"
| "phase_inv StartingRegistration w \<longleftrightarrow>
     (lc_tasks w ServiceTask = Active False \<or> is_ended (lc_tasks w ServiceTask))
     \<and> lc_tasks w RegistrationTask = NotStarted \<and> lc_tasks w PublisherTask = NotStarted
     \<and> (\<forall>d. task_known w d)"
| "phase_inv (StoppingService err) w \<longleftrightarrow>
     (lc_tasks w ServiceTask = Active True \<or> is_ended (lc_tasks w ServiceTask))
     \<and> lc_tasks w RegistrationTask = NotStarted \<and> lc_tasks w PublisherTask = NotStarted"
| "phase_inv _ w \<longleftrightarrow> lc_tasks w = (\<lambda>_. NotStarted) \<and> lc_exited w = []"

definition run_inv :: "lifecycle \<Rightarrow> bool" where
  "run_inv w = phase_inv (lc_phase w) w"

lemma all_components: "(\<forall>c. P c) \<longleftrightarrow> P RegistrationTask \<and> P ServiceTask \<and> P PublisherTask"
  by (metis component.exhaust)

lemma abort_others_simps [simp]:
  "abort_others c tasks c = tasks c" "d \<noteq> c \<Longrightarrow> abort_others c tasks d = abort_task (tasks d)"
  by (simp_all add: abort_others_def)

lemma aborted_or_ended:
  "t = Active aborted \<or> is_ended t \<Longrightarrow> abort_task t = Active True \<or> is_ended (abort_task t)"
  by (cases t) auto

lemma is_ended_iff: "is_ended t \<longleftrightarrow> (\<exists>r. t = Ended r)"
  by (cases t) simp_all

lemma run_inv_step: "run_step ev w w' \<Longrightarrow> run_inv w \<Longrightarrow> run_inv w'"
proof (induction rule: run_step.induct)
  case (select w c result)
  then have "task_known w c" by (simp add: run_inv_def)
  with select have "(c, result) \<in> set (lc_exited w)" by (simp add: task_known_def)
  moreover from select have "lc_tasks w d = Active False \<or> is_ended (lc_tasks w d)" for d
    by (simp add: run_inv_def)
  then have "abort_others c (lc_tasks w) d = Active True \<or> is_ended (abort_others c (lc_tasks w) d)" for d
    using select aborted_or_ended by (cases "d = c") auto
  ultimately show ?case using select by (auto simp: run_inv_def)
next
  case (cancelled w c err)
  then show ?case
    by (cases "lc_phase w"; cases c) (auto simp: run_inv_def all_components is_ended_iff task_known_def)
next
  case (task_exits w c aborted result)
  then show ?case
    by (cases "lc_phase w"; cases c) (auto simp: run_inv_def all_components is_ended_iff task_known_def split: task_state.splits)
qed (auto simp: run_inv_def all_components is_ended_iff task_known_def)

lemma run_reaches_inv: "run_reaches w \<Longrightarrow> run_inv w"
proof (induction rule: run_reaches.induct)
  case start
  then show ?case by (simp add: run_begin_def run_inv_def)
qed (rule run_inv_step)

subsection \<open>Progress\<close>

fun task_weight :: "task_state \<Rightarrow> nat" where
  "task_weight NotStarted = 3"
| "task_weight (Active aborted) = (if aborted then 1 else 2)"
| "task_weight (Ended _) = 0"

fun phase_weight :: "run_phase \<Rightarrow> nat" where
  "phase_weight CreatingRegistry = 6"
| "phase_weight CreatingDirectory = 5"
| "phase_weight StartingService = 4"
| "phase_weight StartingRegistration = 3"
| "phase_weight (StoppingService _) = 2"
| "phase_weight Waiting = 2"
| "phase_weight (Reaping _ _) = 1"
| "phase_weight (Returned _) = 0"

definition tasks_weight :: "(component \<Rightarrow> task_state) \<Rightarrow> nat" where
  "tasks_weight tasks = task_weight (tasks RegistrationTask) + task_weight (tasks ServiceTask)
     + task_weight (tasks PublisherTask)"

lemma tasks_weight_upd:
  "tasks_weight (tasks(c := t)) + task_weight (tasks c) = tasks_weight tasks + task_weight t"
  by (cases c) (simp_all add: tasks_weight_def)

lemma abort_weight: "task_weight (abort_task t) \<le> task_weight t"
  by (cases t) simp_all

lemma abort_others_weight: "tasks_weight (abort_others c tasks) \<le> tasks_weight tasks"
  using abort_weight unfolding tasks_weight_def abort_others_def by (simp add: add_mono)

lemma run_step_weight:
  "run_step ev w w' \<Longrightarrow> run_inv w \<Longrightarrow>
     phase_weight (lc_phase w') + tasks_weight (lc_tasks w')
       < phase_weight (lc_phase w) + tasks_weight (lc_tasks w)"
proof (induction rule: run_step.induct)
  case (service_starts w)
  then show ?case by (simp add: run_inv_def tasks_weight_def)
next
  case (registration_starts w)
  then show ?case by (simp add: run_inv_def tasks_weight_def)
next
  case (registration_fails w err)
  then show ?case
    using tasks_weight_upd [of "lc_tasks w" ServiceTask "abort_task (lc_tasks w ServiceTask)"]
      abort_weight [of "lc_tasks w ServiceTask"] by (simp del: fun_upd_apply)
next
  case (select w c result)
  then show ?case using abort_others_weight [of c "lc_tasks w"] by simp
next
  case (cancelled w c err)
  then show ?case using tasks_weight_upd [of "lc_tasks w" c "Ended (JoinError err)"] by (simp del: fun_upd_apply)
next
  case (task_exits w c aborted result)
  then show ?case using tasks_weight_upd [of "lc_tasks w" c "Ended result"]
    by (simp del: fun_upd_apply split: if_splits)
qed simp_all

lemma run_step_wf: "wf {(w', w). run_inv w \<and> (\<exists>ev. run_step ev w w')}"
  by (rule wf_subset [OF wf_measure [of "\<lambda>w. phase_weight (lc_phase w) + tasks_weight (lc_tasks w)"]])
    (auto dest: run_step_weight)

text \<open>Only a task that is still running and not aborted can make \<open>run\<close> wait.\<close>

lemma run_progress:
  assumes "run_inv w"
  shows "(\<exists>err. lc_phase w = Returned err) \<or> (\<exists>w'. run_step Runtime w w')
    \<or> lc_phase w = Waiting \<and> (\<forall>c. lc_tasks w c = Active False)"
proof (cases "\<exists>c. lc_tasks w c = Active True")
  case True
  then show ?thesis by (blast intro: run_step.cancelled)
next
  case no_abort: False
  show ?thesis
  proof (cases "lc_phase w")
    case CreatingRegistry
    then show ?thesis by (blast intro: run_step.registry_created)
  next
    case CreatingDirectory
    then show ?thesis by (blast intro: run_step.directory_created)
  next
    case StartingService
    then show ?thesis by (blast intro: run_step.service_starts)
  next
    case StartingRegistration
    then show ?thesis by (blast intro: run_step.registration_starts)
  next
    case (StoppingService err)
    with assms no_abort have "is_ended (lc_tasks w ServiceTask)" by (auto simp: run_inv_def)
    with StoppingService show ?thesis by (blast intro: run_step.service_stopped)
  next
    case Waiting
    show ?thesis
    proof (cases "\<exists>c r. lc_tasks w c = Ended r")
      case True
      with Waiting show ?thesis by (blast intro: run_step.select)
    next
      case False
      with assms Waiting show ?thesis by (auto simp: run_inv_def is_ended_iff)
    qed
  next
    case (Reaping c err)
    with assms no_abort have "is_ended (lc_tasks w d)" for d by (auto simp: run_inv_def)
    with Reaping show ?thesis by (blast intro: run_step.reaped)
  qed simp
qed

subsection \<open>Once a task has ended\<close>

text \<open>
  \<open>run\<close> returns whatever happens next: it has returned, or it has a step of its own and does so
  after every step, its own or of a task. (There is no infinite sequence of steps, so an own step
  that stays possible is taken.)
\<close>

inductive returns_surely :: "lifecycle \<Rightarrow> bool" where
  returned: "lc_phase w = Returned err \<Longrightarrow> returns_surely w"
| steps: "run_step Runtime w w' \<Longrightarrow> (\<And>ev u. run_step ev w u \<Longrightarrow> returns_surely u) \<Longrightarrow> returns_surely w"

text \<open>What makes \<open>run\<close> return: it is stopping, or a task has ended by itself.\<close>

definition must_return :: "lifecycle \<Rightarrow> bool" where
  "must_return w \<longleftrightarrow> lc_exited w \<noteq> [] \<or> (\<exists>err. lc_phase w = StoppingService err \<or> lc_phase w = Returned err)"

lemma must_return_step: "run_step ev w w' \<Longrightarrow> must_return w \<Longrightarrow> must_return w'"
  by (cases rule: run_step.cases) (auto simp: must_return_def)

definition exited_ended :: "lifecycle \<Rightarrow> bool" where
  "exited_ended w \<longleftrightarrow> (\<forall>c. c \<in> fst ` set (lc_exited w) \<longrightarrow> is_ended (lc_tasks w c))"

lemma is_ended_abort: "is_ended t \<Longrightarrow> is_ended (abort_task t)"
  by (cases t) simp_all

lemma exited_ended_step:
  "run_step ev w w' \<Longrightarrow> run_inv w \<Longrightarrow> exited_ended w \<Longrightarrow> exited_ended w'"
proof (induction rule: run_step.induct)
  case (select w c result)
  then show ?case by (auto simp: exited_ended_def abort_others_def is_ended_abort)
next
  case (registration_fails w err)
  then show ?case by (simp add: exited_ended_def is_ended_abort)
qed (auto simp: exited_ended_def run_inv_def)

lemma run_reaches_exited: "run_reaches w \<Longrightarrow> exited_ended w"
proof (induction rule: run_reaches.induct)
  case start
  then show ?case by (simp add: run_begin_def exited_ended_def)
next
  case (more w ev w')
  then show ?case using exited_ended_step run_reaches_inv by blast
qed

lemma must_return_progress:
  assumes "run_inv w" "exited_ended w" "must_return w"
  shows "(\<exists>err. lc_phase w = Returned err) \<or> (\<exists>w'. run_step Runtime w w')"
proof -
  have "is_ended (lc_tasks w (fst (hd (lc_exited w))))" if "lc_phase w = Waiting"
    using assms(2,3) that by (simp add: must_return_def exited_ended_def)
  then have "\<not> (lc_phase w = Waiting \<and> (\<forall>c. lc_tasks w c = Active False))" by fastforce
  with run_progress [OF assms(1)] show ?thesis by blast
qed

lemma must_return_returns:
  assumes "run_inv w" "exited_ended w" "must_return w"
  shows "returns_surely w"
  using run_step_wf assms
proof (induction w rule: wf_induct_rule)
  case (less w)
  have "returns_surely u" if "run_step ev w u" for ev u
    using less that run_inv_step exited_ended_step must_return_step by blast
  with must_return_progress [OF less.prems] show ?case by (blast intro: returns_surely.intros)
qed

end
