(* ===== verification/Device_Status.thy ===== *)
theory Device_Status
  imports Claim_Objects
begin

text \<open>
  \<open>dra/src/device_status.rs\<close>: publishing the driver's entries of \<open>ResourceClaim.status.devices\<close>
  with a conditional merge patch. \<open>json_text\<close> is \<open>serde_json::to_vec\<close>; the API server answers
  from the history of the requests, so that other writers may act between any two of them.
\<close>

definition FIELD_MANAGER :: string where "FIELD_MANAGER = ''k8s-device-plugin-rs''"
definition MAX_PATCH_ATTEMPTS :: nat where "MAX_PATCH_ATTEMPTS = 3"
definition MAX_DATA_BYTES :: nat where "MAX_DATA_BYTES = 10 * 1024"

subsection \<open>Keys\<close>

datatype status_key =
  StatusKey (sk_pool_name: string) (sk_device_name: string) (sk_share_id: "string option")

definition show_status_key :: "status_key \<Rightarrow> string" where
  "show_status_key k =
     sk_pool_name k @ ''/'' @ sk_device_name k @ ''/''
       @ (case sk_share_id k of None \<Rightarrow> ''-'' | Some share_id \<Rightarrow> share_id)"

text \<open>The derived \<open>Ord\<close>, in the order of the fields.\<close>

definition status_tuple :: "status_key \<Rightarrow> string \<times> string \<times> string option" where
  "status_tuple k = (sk_pool_name k, sk_device_name k, sk_share_id k)"

lemma status_tuple_inj: "status_tuple a = status_tuple b \<longleftrightarrow> a = b"
  by (cases a; cases b) (auto simp: status_tuple_def)

instantiation status_key :: linorder
begin

definition less_eq_status_key :: "status_key \<Rightarrow> status_key \<Rightarrow> bool" where
  "less_eq_status_key a b \<longleftrightarrow> status_tuple a \<le> status_tuple b"

definition less_status_key :: "status_key \<Rightarrow> status_key \<Rightarrow> bool" where
  "less_status_key a b \<longleftrightarrow> status_tuple a < status_tuple b"

instance
proof
  fix a b c :: status_key
  show "a < b \<longleftrightarrow> a \<le> b \<and> \<not> b \<le> a"
    by (simp add: less_eq_status_key_def less_status_key_def less_le_not_le)
  show "a \<le> a" by (simp add: less_eq_status_key_def)
  show "a \<le> b \<Longrightarrow> b \<le> c \<Longrightarrow> a \<le> c" unfolding less_eq_status_key_def by (rule order_trans)
  show "a \<le> b \<Longrightarrow> b \<le> a \<Longrightarrow> a = b"
    unfolding less_eq_status_key_def by (metis antisym status_tuple_inj)
  show "a \<le> b \<or> b \<le> a" unfolding less_eq_status_key_def by (rule linear)
qed

end

subsection \<open>A status report\<close>

record claim_device_status =
  ds_pool_name :: string
  ds_device_name :: string
  ds_share_id :: "string option"
  ds_conditions :: "condition list option"
  ds_data :: "json option"
  ds_network_data :: "string option"

definition claim_device_status_new :: "string \<Rightarrow> string \<Rightarrow> claim_device_status" where
  "claim_device_status_new pool_name device_name =
     \<lparr>ds_pool_name = pool_name, ds_device_name = device_name, ds_share_id = None,
      ds_conditions = None, ds_data = None, ds_network_data = None\<rparr>"

definition status_key_of :: "claim_device_status \<Rightarrow> status_key" where
  "status_key_of s = StatusKey (ds_pool_name s) (ds_device_name s) (ds_share_id s)"

datatype status_error =
    MissingResourceVersion string string
  | ClaimIdentityMismatch string string string string
  | DuplicateDeviceStatus status_key
  | TooManyConditions status_key
  | DataTooLarge status_key nat
  | SerializeData string
  | DriverNotAllocated string string string
  | DeviceNotAllocated string string string status_key
  | KubernetesError kube_error

fun show_status_error :: "(kube_error \<Rightarrow> string) \<Rightarrow> status_error \<Rightarrow> string" where
  "show_status_error se (MissingResourceVersion ns n) =
     ''ResourceClaim '' @ ns @ ''/'' @ n @ '' has no resourceVersion for a conditional update''"
| "show_status_error se (ClaimIdentityMismatch ns n expected found) =
     ''ResourceClaim '' @ ns @ ''/'' @ n @ '' uid mismatch: expected '' @ expected @ '', found '' @ found"
| "show_status_error se (DuplicateDeviceStatus k) =
     ''device status '' @ show_status_key k @ '' was reported more than once''"
| "show_status_error se (TooManyConditions k) =
     ''device status '' @ show_status_key k @ '' has more than eight conditions''"
| "show_status_error se (DataTooLarge k bytes) =
     ''device status '' @ show_status_key k @ '' has '' @ show_nat bytes
       @ '' bytes of raw data; Kubernetes permits at most '' @ show_nat MAX_DATA_BYTES"
| "show_status_error se (SerializeData e) = ''failed to serialize device status data: '' @ e"
| "show_status_error se (DriverNotAllocated ns n driver) =
     ''ResourceClaim '' @ ns @ ''/'' @ n @ '' has no allocation for driver '' @ driver"
| "show_status_error se (DeviceNotAllocated ns n driver k) =
     ''device status '' @ show_status_key k @ '' is not allocated to driver '' @ driver
       @ '' in ResourceClaim '' @ ns @ ''/'' @ n"
| "show_status_error se (KubernetesError e) =
     ''Kubernetes API error while publishing ResourceClaim device status: '' @ se e"

datatype publish_outcome = Updated | Unchanged

definition raw_data :: "(json \<Rightarrow> string + string) \<Rightarrow> status_key \<Rightarrow> json \<Rightarrow> status_error + json" where
  "raw_data json_text key data =
     res_bind (res_map_err SerializeData (json_text data)) (\<lambda>raw.
       if length raw > MAX_DATA_BYTES then Inl (DataTooLarge key (length raw)) else Inr data)"

definition status_into_kubernetes ::
    "(json \<Rightarrow> string + string) \<Rightarrow> string \<Rightarrow> claim_device_status \<Rightarrow> status_error + device_status" where
  "status_into_kubernetes json_text driver_name s =
     (let key = status_key_of s
      in if (case ds_conditions s of None \<Rightarrow> False | Some conditions \<Rightarrow> 8 < length conditions)
         then Inl (TooManyConditions key)
         else res_bind
           (case ds_data s of None \<Rightarrow> Inr None | Some data \<Rightarrow> res_map Some (raw_data json_text key data))
           (\<lambda>data. Inr \<lparr>as_driver = driver_name, as_pool = ds_pool_name s, as_device = ds_device_name s,
                as_share_id = ds_share_id s, as_conditions = ds_conditions s, as_data = data,
                as_network_data = ds_network_data s\<rparr>))"

subsection \<open>The publisher\<close>

record status_publisher =
  spb_driver_name :: string
  spb_field_manager :: string

definition status_publisher_new :: "string \<Rightarrow> validation_error + status_publisher" where
  "status_publisher_new driver_name =
     res_bind (validate_driver_name driver_name) (\<lambda>_.
       Inr \<lparr>spb_driver_name = driver_name, spb_field_manager = FIELD_MANAGER\<rparr>)"

definition with_field_manager :: "status_publisher \<Rightarrow> string \<Rightarrow> status_publisher" where
  "with_field_manager p field_manager = p\<lparr>spb_field_manager := field_manager\<rparr>"

type_synonym statuses = "(status_key, device_status) btree"

definition insert_status ::
    "(json \<Rightarrow> string + string) \<Rightarrow> status_publisher \<Rightarrow> statuses \<Rightarrow> claim_device_status
      \<Rightarrow> status_error + statuses" where
  "insert_status json_text p desired status =
     (let key = status_key_of status
      in res_bind (status_into_kubernetes json_text (spb_driver_name p) status) (\<lambda>kubernetes_status.
         if bt_lookup desired key \<noteq> None then Inl (DuplicateDeviceStatus key)
         else Inr (bt_insert key kubernetes_status desired)))"

fun desired_statuses ::
    "(json \<Rightarrow> string + string) \<Rightarrow> status_publisher \<Rightarrow> statuses \<Rightarrow> claim_device_status list
      \<Rightarrow> status_error + statuses" where
  "desired_statuses json_text p desired [] = Inr desired"
| "desired_statuses json_text p desired (status # statuses) =
     res_bind (insert_status json_text p desired status)
       (\<lambda>desired. desired_statuses json_text p desired statuses)"

definition key_of_status :: "device_status \<Rightarrow> status_key" where
  "key_of_status s = StatusKey (as_pool s) (as_device s) (as_share_id s)"

definition allocated_keys :: "status_publisher \<Rightarrow> resource_claim \<Rightarrow> status_key list" where
  "allocated_keys p c =
     map (\<lambda>device. StatusKey (ar_pool device) (ar_device device) (ar_share_id device))
       (driver_results (spb_driver_name p) c)"

definition validate_allocations ::
    "status_publisher \<Rightarrow> claim_ref \<Rightarrow> resource_claim \<Rightarrow> statuses \<Rightarrow> status_error + unit" where
  "validate_allocations p claim_ref c desired =
     (let allocated = allocated_keys p c
      in if allocated = []
         then Inl (DriverNotAllocated (cr_namespace claim_ref) (cr_name claim_ref) (spb_driver_name p))
         else for_each (\<lambda>key.
           if key \<notin> set allocated
           then Inl (DeviceNotAllocated (cr_namespace claim_ref) (cr_name claim_ref) (spb_driver_name p) key)
           else Inr ()) (map fst desired))"

definition merge_field :: "'a option \<Rightarrow> 'a option \<Rightarrow> 'a option" where
  "merge_field update current = (if update = None then current else update)"

definition merge_status :: "device_status \<Rightarrow> device_status \<Rightarrow> device_status" where
  "merge_status update status =
     update\<lparr>as_conditions := merge_field (as_conditions update) (as_conditions status),
            as_data := merge_field (as_data update) (as_data status),
            as_network_data := merge_field (as_network_data update) (as_network_data status)\<rparr>"

definition merge_one :: "status_publisher \<Rightarrow> device_status \<Rightarrow> statuses \<Rightarrow> statuses" where
  "merge_one p status merged =
     (if as_driver status \<noteq> spb_driver_name p then merged
      else case bt_lookup merged (key_of_status status) of
             None \<Rightarrow> merged
           | Some update \<Rightarrow> bt_insert (key_of_status status) (merge_status update status) merged)"

definition merge_existing_fields :: "status_publisher \<Rightarrow> resource_claim \<Rightarrow> statuses \<Rightarrow> statuses" where
  "merge_existing_fields p c desired = fold (merge_one p) (claim_statuses c) desired"

definition current_statuses :: "status_publisher \<Rightarrow> resource_claim \<Rightarrow> statuses" where
  "current_statuses p c =
     bt_collect (map (\<lambda>status. (key_of_status status, status))
       (filter (\<lambda>status. as_driver status = spb_driver_name p) (claim_statuses c)))"

definition same_status :: "device_status \<Rightarrow> device_status \<Rightarrow> bool" where
  "same_status current_status desired_status \<longleftrightarrow>
     as_driver current_status = as_driver desired_status
     \<and> as_pool current_status = as_pool desired_status
     \<and> as_device current_status = as_device desired_status
     \<and> as_share_id current_status = as_share_id desired_status
     \<and> as_data current_status = as_data desired_status
     \<and> as_network_data current_status = as_network_data desired_status
     \<and> or_empty (as_conditions current_status) = or_empty (as_conditions desired_status)"

definition statuses_are_current :: "status_publisher \<Rightarrow> resource_claim \<Rightarrow> statuses \<Rightarrow> bool" where
  "statuses_are_current p c desired =
     list_all (\<lambda>(key, desired_status).
       case bt_lookup (current_statuses p c) key of
         None \<Rightarrow> False
       | Some current_status \<Rightarrow> same_status current_status desired_status) desired"

definition same_entry :: "device_status \<Rightarrow> device_status \<Rightarrow> bool" where
  "same_entry current desired \<longleftrightarrow>
     as_driver current = as_driver desired \<and> as_pool current = as_pool desired
     \<and> as_device current = as_device desired \<and> as_share_id current = as_share_id desired"

fun upsert_status :: "device_status \<Rightarrow> device_status list \<Rightarrow> device_status list" where
  "upsert_status desired [] = [desired]"
| "upsert_status desired (current # devices) =
     (if same_entry current desired then desired # devices
      else current # upsert_status desired devices)"

definition patched_devices :: "resource_claim \<Rightarrow> statuses \<Rightarrow> device_status list" where
  "patched_devices c desired = fold upsert_status (map snd desired) (claim_statuses c)"

subsection \<open>Publication\<close>

record status_patch =
  sp_namespace :: string
  sp_claim :: string
  sp_field_manager :: string
  sp_uid :: string
  sp_resource_version :: string
  sp_devices :: "device_status list"

datatype status_request = GetClaim string string | PatchStatus status_patch

record status_api =
  sa_get :: "status_request list \<Rightarrow> string \<Rightarrow> string \<Rightarrow> kube_error + resource_claim"
  sa_patch :: "status_request list \<Rightarrow> status_patch \<Rightarrow> kube_error + unit"

text \<open>One round of the loop up to the patch: it is over or it sends a patch.\<close>

datatype status_round = RoundOver "status_error + publish_outcome" | SendPatch status_patch

definition status_round ::
    "status_publisher \<Rightarrow> claim_ref \<Rightarrow> bool \<Rightarrow> statuses \<Rightarrow> kube_error + resource_claim \<Rightarrow> status_round" where
  "status_round p claim preserve_unspecified_fields desired response =
     (case response of
        Inl error \<Rightarrow> RoundOver (Inl (KubernetesError error))
      | Inr c \<Rightarrow>
          (let found_uid = claim_uid c
           in if found_uid \<noteq> cr_uid claim
              then RoundOver (Inl (ClaimIdentityMismatch (cr_namespace claim) (cr_name claim)
                     (cr_uid claim) found_uid))
              else case validate_allocations p claim c desired of
                Inl error \<Rightarrow> RoundOver (Inl error)
              | Inr _ \<Rightarrow>
                  (let desired = (if preserve_unspecified_fields
                                  then merge_existing_fields p c desired else desired)
                   in if statuses_are_current p c desired then RoundOver (Inr Unchanged)
                      else case or_empty (cl_resource_version c) of
                        [] \<Rightarrow> RoundOver (Inl (MissingResourceVersion (cr_namespace claim) (cr_name claim)))
                      | resource_version \<Rightarrow>
                          SendPatch \<lparr>sp_namespace = cr_namespace claim, sp_claim = cr_name claim,
                            sp_field_manager = spb_field_manager p, sp_uid = cr_uid claim,
                            sp_resource_version = resource_version,
                            sp_devices = patched_devices c desired\<rparr>)))"

function publish_loop ::
    "status_api \<Rightarrow> status_publisher \<Rightarrow> claim_ref \<Rightarrow> bool \<Rightarrow> statuses \<Rightarrow> nat \<Rightarrow> status_request list
      \<Rightarrow> (status_error + publish_outcome) \<times> status_request list" where
  "publish_loop A p claim preserve desired attempt h =
     (let attempt = attempt + 1;
          response = sa_get A h (cr_namespace claim) (cr_name claim);
          h = h @ [GetClaim (cr_namespace claim) (cr_name claim)]
      in case status_round p claim preserve desired response of
           RoundOver result \<Rightarrow> (result, h)
         | SendPatch patch \<Rightarrow>
             (let answer = sa_patch A h patch; h = h @ [PatchStatus patch]
              in case answer of
                   Inr _ \<Rightarrow> (Inr Updated, h)
                 | Inl error \<Rightarrow>
                     if (case error of ApiError code _ _ \<Rightarrow> code = 409 | _ \<Rightarrow> False)
                        \<and> attempt < MAX_PATCH_ATTEMPTS
                     then publish_loop A p claim preserve desired attempt h
                     else (Inl (KubernetesError error), h)))"
  by pat_completeness auto
termination
  by (relation "measure (\<lambda>(A, p, claim, preserve, desired, attempt, h). MAX_PATCH_ATTEMPTS - attempt)")
    auto

declare publish_loop.simps [simp del]

definition has_fields :: "device_status \<Rightarrow> bool" where
  "has_fields status \<longleftrightarrow>
     as_conditions status \<noteq> None \<or> as_data status \<noteq> None \<or> as_network_data status \<noteq> None"

definition publish_inner ::
    "(json \<Rightarrow> string + string) \<Rightarrow> status_api \<Rightarrow> status_publisher \<Rightarrow> claim_ref
      \<Rightarrow> claim_device_status list \<Rightarrow> bool \<Rightarrow> status_request list
      \<Rightarrow> (status_error + publish_outcome) \<times> status_request list" where
  "publish_inner json_text A p claim statuses preserve h =
     (case desired_statuses json_text p [] statuses of
        Inl error \<Rightarrow> (Inl error, h)
      | Inr desired \<Rightarrow>
          (let desired = (if preserve then filter (\<lambda>(_, status). has_fields status) desired else desired)
           in if desired = [] then (Inr Unchanged, h)
              else publish_loop A p claim preserve desired 0 h))"

definition publish_statuses ::
    "(json \<Rightarrow> string + string) \<Rightarrow> status_api \<Rightarrow> status_publisher \<Rightarrow> claim_ref
      \<Rightarrow> claim_device_status list \<Rightarrow> status_request list
      \<Rightarrow> (status_error + publish_outcome) \<times> status_request list" where
  "publish_statuses json_text A p claim statuses h =
     publish_inner json_text A p claim statuses False h"

definition publish_fields ::
    "(json \<Rightarrow> string + string) \<Rightarrow> status_api \<Rightarrow> status_publisher \<Rightarrow> claim_ref
      \<Rightarrow> claim_device_status list \<Rightarrow> status_request list
      \<Rightarrow> (status_error + publish_outcome) \<times> status_request list" where
  "publish_fields json_text A p claim statuses h =
     publish_inner json_text A p claim statuses True h"

end
