(* ===== verification/Resource_Health.thy ===== *)
theory Resource_Health
  imports Rust_String
begin

text \<open>
  \<open>dra/src/resource_health.rs\<close> and the health types of \<open>core/src/dra.rs\<close>: the stream of one
  \<open>NodeWatchResources\<close> call as a step relation of the reporter, the kubelet and the forwarding task.
  The channel of reports is a queue of at most 16; the response channel hands its items to the
  kubelet in order, so it is the list of what was sent. A reporter that returns has dropped its
  sender, as the trait asks of it.
\<close>

subsection \<open>Reports\<close>

datatype resource_health_status = HealthUnknown | HealthHealthy | HealthUnhealthy

record dra_device_health =
  dh_pool_name :: string
  dh_device_name :: string
  dh_health :: resource_health_status
  dh_last_updated_time :: int
  dh_health_check_timeout_seconds :: int
  dh_message :: string

record health_report = hr_devices :: "dra_device_health list"

datatype resource_health_error = MonitorFailed string

fun show_resource_health_error :: "resource_health_error \<Rightarrow> string" where
  "show_resource_health_error (MonitorFailed message) = ''resource health monitor failed: '' @ message"

datatype wire_health_status = WireUnknown | WireHealthy | WireUnhealthy

record wire_device_health =
  wd_device :: "(string \<times> string) option"
  wd_health :: wire_health_status
  wd_last_updated_time :: int
  wd_health_check_timeout_seconds :: int
  wd_message :: string

definition device_to_wire :: "dra_device_health \<Rightarrow> wire_device_health" where
  "device_to_wire d =
     \<lparr>wd_device = Some (dh_pool_name d, dh_device_name d),
      wd_health = (case dh_health d of HealthUnknown \<Rightarrow> WireUnknown | HealthHealthy \<Rightarrow> WireHealthy
        | HealthUnhealthy \<Rightarrow> WireUnhealthy),
      wd_last_updated_time = dh_last_updated_time d,
      wd_health_check_timeout_seconds = dh_health_check_timeout_seconds d,
      wd_message = dh_message d\<rparr>"

definition report_to_wire :: "health_report \<Rightarrow> wire_device_health list" where
  "report_to_wire report = map device_to_wire (hr_devices report)"

subsection \<open>The stream\<close>

definition REPORT_BUFFER_CAPACITY :: nat where "REPORT_BUFFER_CAPACITY = 16"

text \<open>How the reporter's task ends; \<open>Panicked\<close> has the text of the join error.\<close>

datatype watch_result = Stopped | Failed resource_health_error | Panicked string

text \<open>\<open>send_watch_completion\<close>: the message of the \<open>Unavailable\<close> status that ends the stream.\<close>

fun completion_message :: "watch_result \<Rightarrow> string" where
  "completion_message Stopped = ''resource health reporter stopped''"
| "completion_message (Failed err) = show_resource_health_error err"
| "completion_message (Panicked err) = ''resource health reporter panicked: '' @ err"

datatype stream_item = Unavailable string | Update "wire_device_health list"

text \<open>
  Where the forwarding task is: in its loop, waiting for the reporter after the sender was dropped,
  sending what is left after the reporter returned, or gone.
\<close>

datatype forward_phase = Serving | Ending | Draining | Over

record health_watch =
  hw_queue :: "health_report list"
  hw_sender :: bool
  hw_result :: "watch_result option"
  hw_aborted :: bool
  hw_connected :: bool
  hw_phase :: forward_phase
  hw_out :: "stream_item list"
  hw_reported :: "health_report list" \<comment> \<open>all reports that entered the channel\<close>

definition watch_begin :: health_watch where
  "watch_begin = \<lparr>hw_queue = [], hw_sender = True, hw_result = None, hw_aborted = False,
     hw_connected = True, hw_phase = Serving, hw_out = [], hw_reported = []\<rparr>"

text \<open>\<open>watch.abort()\<close> and the end of the task.\<close>

definition abort_watch :: "health_watch \<Rightarrow> health_watch" where
  "abort_watch w = w\<lparr>hw_phase := Over, hw_aborted := (hw_result w = None), hw_sender := False\<rparr>"

definition forward_report :: "health_watch \<Rightarrow> health_watch" where
  "forward_report w = w\<lparr>hw_queue := tl (hw_queue w),
     hw_out := hw_out w @ [Update (report_to_wire (hd (hw_queue w)))]\<rparr>"

text \<open>Sending to a kubelet that is gone fails, which the code ignores.\<close>

definition send_completion :: "watch_result \<Rightarrow> health_watch \<Rightarrow> health_watch" where
  "send_completion result w = w\<lparr>hw_phase := Over,
     hw_out := hw_out w @ (if hw_connected w then [Unavailable (completion_message result)] else [])\<rparr>"

inductive health_step :: "health_watch \<Rightarrow> health_watch \<Rightarrow> bool" where
  report: "hw_sender w \<Longrightarrow> hw_result w = None \<Longrightarrow> \<not> hw_aborted w \<Longrightarrow>
     length (hw_queue w) < REPORT_BUFFER_CAPACITY \<Longrightarrow>
     health_step w (w\<lparr>hw_queue := hw_queue w @ [r], hw_reported := hw_reported w @ [r]\<rparr>)"
| drop_sender: "hw_result w = None \<Longrightarrow> \<not> hw_aborted w \<Longrightarrow> health_step w (w\<lparr>hw_sender := False\<rparr>)"
| reporter_ends: "hw_result w = None \<Longrightarrow> \<not> hw_aborted w \<Longrightarrow>
     health_step w (w\<lparr>hw_result := Some result, hw_sender := False\<rparr>)"
| disconnect: "health_step w (w\<lparr>hw_connected := False\<rparr>)"
| see_closed: "hw_phase w \<in> {Serving, Ending} \<Longrightarrow> \<not> hw_connected w \<Longrightarrow> health_step w (abort_watch w)"
| forward: "hw_phase w = Serving \<Longrightarrow> hw_queue w \<noteq> [] \<Longrightarrow> hw_connected w \<Longrightarrow>
     health_step w (forward_report w)"
| forward_fails: "hw_phase w = Serving \<Longrightarrow> hw_queue w \<noteq> [] \<Longrightarrow> \<not> hw_connected w \<Longrightarrow>
     health_step w (abort_watch (w\<lparr>hw_queue := tl (hw_queue w)\<rparr>))"
| channel_ends: "hw_phase w = Serving \<Longrightarrow> hw_queue w = [] \<Longrightarrow> \<not> hw_sender w \<Longrightarrow>
     health_step w (w\<lparr>hw_phase := Ending\<rparr>)"
| see_result: "hw_phase w = Serving \<Longrightarrow> hw_result w \<noteq> None \<Longrightarrow> health_step w (w\<lparr>hw_phase := Draining\<rparr>)"
| drain: "hw_phase w = Draining \<Longrightarrow> hw_queue w \<noteq> [] \<Longrightarrow> hw_connected w \<Longrightarrow>
     health_step w (forward_report w)"
| drain_fails: "hw_phase w = Draining \<Longrightarrow> hw_queue w \<noteq> [] \<Longrightarrow> \<not> hw_connected w \<Longrightarrow>
     health_step w (w\<lparr>hw_queue := tl (hw_queue w), hw_phase := Over\<rparr>)"
| drained: "hw_phase w = Draining \<Longrightarrow> hw_queue w = [] \<Longrightarrow> hw_result w = Some result \<Longrightarrow>
     health_step w (send_completion result w)"
| ended: "hw_phase w = Ending \<Longrightarrow> hw_result w = Some result \<Longrightarrow>
     health_step w (send_completion result w)"

inductive_cases health_stepE: "health_step w w'"

definition health_run :: "health_watch \<Rightarrow> bool" where
  "health_run w \<longleftrightarrow> health_step\<^sup>*\<^sup>* watch_begin w"

text \<open>\<open>watch_stream\<close>: a backend without a reporter has no stream.\<close>

definition watch_stream :: "bool \<Rightarrow> string + health_watch" where
  "watch_stream has_reporter =
     (if \<not> has_reporter then Inl ''resource health reporting is not supported by this backend''
      else Inr watch_begin)"

subsection \<open>The invariant\<close>

definition updates :: "health_report list \<Rightarrow> stream_item list" where
  "updates reports = map (\<lambda>r. Update (report_to_wire r)) reports"

text \<open>Of the reports, those sent, those that a send to a closed stream lost, and those still queued.\<close>

definition health_split ::
    "health_watch \<Rightarrow> health_report list \<Rightarrow> health_report list \<Rightarrow> stream_item list \<Rightarrow> bool" where
  "health_split w seen lost ending \<longleftrightarrow>
     hw_reported w = seen @ lost @ hw_queue w \<and> hw_out w = updates seen @ ending
     \<and> (lost \<noteq> [] \<longrightarrow> hw_phase w = Over \<and> \<not> hw_connected w)
     \<and> (ending = [] \<longrightarrow> hw_phase w \<noteq> Over \<or> \<not> hw_connected w)
     \<and> (ending \<noteq> [] \<longrightarrow> hw_phase w = Over \<and> hw_queue w = [] \<and> lost = []
          \<and> (\<exists>res. hw_result w = Some res \<and> ending = [Unavailable (completion_message res)]))"

definition accounted :: "health_watch \<Rightarrow> bool" where
  "accounted w \<longleftrightarrow> (\<exists>seen lost ending. health_split w seen lost ending)"

lemma accountedI: "health_split w seen lost ending \<Longrightarrow> accounted w"
  unfolding accounted_def by blast

definition health_inv :: "health_watch \<Rightarrow> bool" where
  "health_inv w \<longleftrightarrow>
     accounted w
     \<and> (hw_phase w = Ending \<longrightarrow> hw_queue w = [] \<and> \<not> hw_sender w)
     \<and> (hw_phase w = Draining \<longrightarrow> hw_result w \<noteq> None)
     \<and> (hw_result w \<noteq> None \<longrightarrow> \<not> hw_sender w)
     \<and> (hw_aborted w \<longrightarrow> hw_phase w = Over)
     \<and> (hw_phase w = Over \<longrightarrow> hw_aborted w \<or> hw_result w \<noteq> None)
     \<and> length (hw_queue w) \<le> REPORT_BUFFER_CAPACITY"

lemma health_inv_begin: "health_inv watch_begin"
  by (auto simp: health_inv_def health_split_def watch_begin_def updates_def intro!: accountedI [of _ "[]" "[]" "[]"])

lemma updates_snoc: "updates (rs @ [r]) = updates rs @ [Update (report_to_wire r)]"
  by (simp add: updates_def)

text \<open>While the task lives, nothing is lost and the stream has not ended.\<close>

lemma accounted_alive:
  assumes "accounted w" "hw_phase w \<noteq> Over"
  obtains seen where "hw_reported w = seen @ hw_queue w" "hw_out w = updates seen"
  using assms by (auto simp: accounted_def health_split_def)

lemma accounted_same:
  assumes "accounted w" "hw_phase w \<noteq> Over" "hw_phase w' \<noteq> Over"
    and "hw_reported w' = hw_reported w" "hw_queue w' = hw_queue w" "hw_out w' = hw_out w"
  shows "accounted w'"
  by (rule accounted_alive [OF assms(1,2)])
    (use assms(3-6) in \<open>auto simp: health_split_def intro: accountedI [of _ _ "[]" "[]"]\<close>)

lemma accounted_report:
  assumes "accounted w" "hw_phase w \<noteq> Over"
  shows "accounted (w\<lparr>hw_queue := hw_queue w @ [r], hw_reported := hw_reported w @ [r]\<rparr>)"
  by (rule accounted_alive [OF assms]) (use assms(2) in \<open>auto simp: health_split_def intro: accountedI [of _ _ "[]" "[]"]\<close>)

lemma accounted_forward:
  assumes "accounted w" "hw_phase w \<noteq> Over" "hw_queue w \<noteq> []"
  shows "accounted (forward_report w)"
proof -
  obtain seen where "hw_reported w = seen @ hw_queue w" "hw_out w = updates seen"
    by (rule accounted_alive [OF assms(1,2)])
  then have "health_split (forward_report w) (seen @ [hd (hw_queue w)]) [] []"
    using assms(2,3) by (cases "hw_queue w") (auto simp: health_split_def forward_report_def updates_snoc)
  then show ?thesis by (rule accountedI)
qed

text \<open>The kubelet is gone: the task ends, with what is queued or with one report less.\<close>

lemma accounted_stop:
  assumes "accounted w" "hw_phase w \<noteq> Over" "hw_phase w' = Over" "\<not> hw_connected w'"
    and "hw_reported w' = hw_reported w" "hw_out w' = hw_out w"
    and "hw_queue w' = hw_queue w \<or> hw_queue w \<noteq> [] \<and> hw_queue w' = tl (hw_queue w)"
  shows "accounted w'"
proof -
  obtain seen where "hw_reported w = seen @ hw_queue w" "hw_out w = updates seen"
    by (rule accounted_alive [OF assms(1,2)])
  then have "health_split w' seen (if hw_queue w' = hw_queue w then [] else [hd (hw_queue w)]) []"
    using assms(3-7) by (cases "hw_queue w") (auto simp: health_split_def)
  then show ?thesis by (rule accountedI)
qed

lemma accounted_completion:
  assumes "accounted w" "hw_phase w \<noteq> Over" "hw_queue w = []" "hw_result w = Some res"
  shows "accounted (send_completion res w)"
proof -
  obtain seen where "hw_reported w = seen @ hw_queue w" "hw_out w = updates seen"
    by (rule accounted_alive [OF assms(1,2)])
  then have "health_split (send_completion res w) seen []
      (if hw_connected w then [Unavailable (completion_message res)] else [])"
    using assms(3,4) by (auto simp: health_split_def send_completion_def)
  then show ?thesis by (rule accountedI)
qed

lemma accounted_step:
  assumes "health_step w w'" "health_inv w"
  shows "accounted w'"
proof (cases "hw_phase w = Over")
  case True
  with assms(2) have over: "hw_aborted w \<or> hw_result w \<noteq> None" by (simp add: health_inv_def)
  have "w' = w\<lparr>hw_connected := False\<rparr>"
    using assms(1) by cases (use True over in auto)
  with assms(2) show ?thesis by (auto simp: health_inv_def accounted_def health_split_def)
next
  case False
  have inv: "accounted w" "hw_phase w = Ending \<Longrightarrow> hw_queue w = []" using assms(2) by (simp_all add: health_inv_def)
  from assms(1) show ?thesis
    by cases (use False inv in \<open>auto simp: abort_watch_def intro: accounted_report accounted_forward accounted_completion
      accounted_same [OF inv(1) False] accounted_stop [OF inv(1) False]\<close>)
qed

lemma health_inv_step:
  assumes "health_step w w'" "health_inv w"
  shows "health_inv w'"
proof -
  note accounted = accounted_step [OF assms]
  from assms(1) show ?thesis
    by cases (use assms(2) accounted in \<open>auto simp: health_inv_def abort_watch_def forward_report_def send_completion_def\<close>)
qed

lemma health_run_inv: "health_run w \<Longrightarrow> health_inv w"
  unfolding health_run_def
  by (induction rule: rtranclp_induct) (auto intro: health_inv_begin health_inv_step)

subsection \<open>Properties\<close>

text \<open>
  C31: when the stream of a health watch is over and the kubelet is still connected, it has received
  every report of the backend, in order and once, and then the status that tells it to reconnect;
  when the kubelet has gone, it has received an initial part of them, and the reporter is no longer
  running.
\<close>
theorem health_stream_complete:
  assumes "health_run w" and "hw_phase w = Over"
  shows "if hw_connected w
    then \<exists>res. hw_result w = Some res
      \<and> hw_out w = updates (hw_reported w) @ [Unavailable (completion_message res)]
    else (hw_aborted w \<or> hw_result w \<noteq> None)
      \<and> (\<exists>n status. hw_out w = updates (take n (hw_reported w)) @ map Unavailable status)"
proof -
  have inv: "health_inv w" by (rule health_run_inv [OF assms(1)])
  then obtain seen lost ending where s: "health_split w seen lost ending"
    by (auto simp: health_inv_def accounted_def)
  show ?thesis
  proof (cases "hw_connected w")
    case True
    with s assms(2) show ?thesis by (auto simp: health_split_def)
  next
    case False
    have "seen = take (length seen) (hw_reported w)" using s by (simp add: health_split_def)
    moreover have "\<exists>status. ending = map Unavailable status"
    proof (cases "ending = []")
      case False
      then obtain res where "ending = map Unavailable [completion_message res]"
        using s by (auto simp: health_split_def)
      then show ?thesis ..
    qed simp
    ultimately have "\<exists>n status. hw_out w = updates (take n (hw_reported w)) @ map Unavailable status"
      using s unfolding health_split_def by metis
    with False inv assms(2) show ?thesis by (auto simp: health_inv_def)
  qed
qed

definition sample_report :: health_report where
  "sample_report = \<lparr>hr_devices = [\<lparr>dh_pool_name = ''pool'', dh_device_name = ''gpu-0'',
     dh_health = HealthUnhealthy, dh_last_updated_time = 7, dh_health_check_timeout_seconds = 0,
     dh_message = ''fan''\<rparr>]\<rparr>"

definition sample_watch :: "bool \<Rightarrow> forward_phase \<Rightarrow> health_report list \<Rightarrow> stream_item list \<Rightarrow> health_watch" where
  "sample_watch ended phase queue out = \<lparr>hw_queue = queue, hw_sender = \<not> ended,
     hw_result = (if ended then Some Stopped else None), hw_aborted = False, hw_connected = True,
     hw_phase = phase, hw_out = out, hw_reported = [sample_report]\<rparr>"

lemma sample_watch_run:
  "health_run (sample_watch True Over [] (updates [sample_report] @ [Unavailable (completion_message Stopped)]))"
proof -
  have "health_step watch_begin (sample_watch False Serving [sample_report] [])"
    using health_step.report [of watch_begin sample_report]
    by (simp add: watch_begin_def sample_watch_def REPORT_BUFFER_CAPACITY_def)
  moreover have "health_step (sample_watch False Serving [sample_report] []) (sample_watch True Serving [sample_report] [])"
    using health_step.reporter_ends [of "sample_watch False Serving [sample_report] []" Stopped]
    by (simp add: sample_watch_def)
  moreover have "health_step (sample_watch True Serving [sample_report] []) (sample_watch True Draining [sample_report] [])"
    using health_step.see_result [of "sample_watch True Serving [sample_report] []"] by (simp add: sample_watch_def)
  moreover have "health_step (sample_watch True Draining [sample_report] [])
      (sample_watch True Draining [] (updates [sample_report]))"
    using health_step.drain [of "sample_watch True Draining [sample_report] []"]
    by (simp add: sample_watch_def forward_report_def updates_def)
  moreover have "health_step (sample_watch True Draining [] (updates [sample_report]))
      (sample_watch True Over [] (updates [sample_report] @ [Unavailable (completion_message Stopped)]))"
    using health_step.drained [of "sample_watch True Draining [] (updates [sample_report])" Stopped]
    by (simp add: sample_watch_def send_completion_def)
  ultimately show ?thesis
    unfolding health_run_def by (meson rtranclp.rtrancl_into_rtrancl rtranclp.rtrancl_refl)
qed

definition sample_over :: health_watch where
  "sample_over = sample_watch True Over [] (updates [sample_report] @ [Unavailable (completion_message Stopped)])"

theorem health_stream_complete_witness:
  "if hw_connected sample_over
    then \<exists>res. hw_result sample_over = Some res
      \<and> hw_out sample_over = updates (hw_reported sample_over) @ [Unavailable (completion_message res)]
    else (hw_aborted sample_over \<or> hw_result sample_over \<noteq> None)
      \<and> (\<exists>n status. hw_out sample_over = updates (take n (hw_reported sample_over)) @ map Unavailable status)"
  by (rule health_stream_complete) (use sample_watch_run in \<open>simp_all add: sample_over_def sample_watch_def\<close>)

end
