(* ===== verification/Example_Drivers.thy ===== *)
theory Example_Drivers
  imports Dra_Plugin Device_Status Resource_Health
begin

text \<open>
  The two example drivers of the repository, as backends of the DRA runtime: the static validation
  driver of \<open>dra/examples/minimal_driver.rs\<close> and the accelerator pairs of
  \<open>dra/examples/accelerator_pair_driver.rs\<close>. The environment variables are a function to the values
  that are valid Unicode.
\<close>

subsection \<open>The static driver\<close>

definition DEFAULT_DRIVER_NAME :: string where "DEFAULT_DRIVER_NAME = ''dra.example.com''"
definition DEFAULT_POOL_NAME :: string where "DEFAULT_POOL_NAME = ''widget-pool''"
definition DEFAULT_DEVICE_NAMES :: string where "DEFAULT_DEVICE_NAMES = ''widget-0''"
definition CDI_KIND :: string where "CDI_KIND = ''dra.example.com/widget''"

definition cdi_device_id :: "string \<Rightarrow> string" where
  "cdi_device_id device_name = CDI_KIND @ ''='' @ device_name"

definition underscores :: "string \<Rightarrow> string" where
  "underscores s = map (\<lambda>c. if c = CHR ''-'' then CHR ''_'' else c) s"

text \<open>The specification that \<open>write_cdi_spec\<close> encodes.\<close>

definition static_cdi_spec :: "'b pool_device list \<Rightarrow> bool \<Rightarrow> cdi_spec" where
  "static_cdi_spec devices metadata =
     \<lparr>cdi_version = ''0.8.0'',
      cdi_devices = map (\<lambda>device.
        \<lparr>cd_container_edits =
           \<lparr>ce_env = (if metadata
              then [''DRA_E2E_DEVICE='' @ pd_name device,
                    ''DRA_METADATA_PHYSICAL_'' @ underscores (pd_name device) @ ''=present'']
              else [''DRA_E2E_DEVICE='' @ pd_name device]),
            ce_mounts = []\<rparr>,
         cd_name = pd_name device\<rparr>) devices,
      cdi_kind = CDI_KIND\<rparr>"

record 'b static_driver =
  sd_name :: string
  sd_pool :: string
  sd_devices :: "'b pool_device list"
  sd_status_publisher :: "status_publisher option"
  sd_taint :: "device_taint option"
  sd_binding :: "device_binding option"
  sd_pool_inventory :: "'b pool_inventory option"

definition static_driver_new :: "string \<Rightarrow> string \<Rightarrow> 'b pool_device list \<Rightarrow> 'b static_driver" where
  "static_driver_new name pool devices =
     \<lparr>sd_name = name, sd_pool = pool, sd_devices = devices, sd_status_publisher = None,
      sd_taint = None, sd_binding = None, sd_pool_inventory = None\<rparr>"

definition with_status_publisher :: "'b static_driver \<Rightarrow> status_publisher \<Rightarrow> 'b static_driver" where
  "with_status_publisher d p = d\<lparr>sd_status_publisher := Some p\<rparr>"

definition has_device :: "'b static_driver \<Rightarrow> string \<Rightarrow> string \<Rightarrow> bool" where
  "has_device d pool_name device_name \<longleftrightarrow>
     pool_name = sd_pool d \<and> list_ex (\<lambda>device. pd_name device = device_name) (sd_devices d)"

definition with_taint :: "'b static_driver \<Rightarrow> device_taint option \<Rightarrow> 'b static_driver" where
  "with_taint d taint = d\<lparr>sd_taint := taint\<rparr>"

definition with_binding :: "'b static_driver \<Rightarrow> device_binding option \<Rightarrow> 'b static_driver" where
  "with_binding d binding = d\<lparr>sd_binding := binding\<rparr>"

definition with_inventory :: "'b static_driver \<Rightarrow> 'b pool_inventory \<Rightarrow> 'b static_driver" where
  "with_inventory d inventory =
     d\<lparr>sd_devices := map id_device (pi_devices inventory), sd_pool_inventory := Some inventory\<rparr>"

subsection \<open>Its inventory\<close>

definition static_devices :: "'b static_driver \<Rightarrow> (string, 'b pool_device list) btree" where
  "static_devices d = bt_collect [(sd_pool d, sd_devices d)]"

definition apply_policies :: "'b static_driver \<Rightarrow> 'b inventory_device \<Rightarrow> 'b inventory_device" where
  "apply_policies d device =
     (let inventory = (case sd_taint d of
            Some taint \<Rightarrow> inventory_device_with_taint device taint | None \<Rightarrow> device)
      in case sd_binding d of
           Some binding \<Rightarrow> inventory_device_with_binding inventory binding | None \<Rightarrow> inventory)"

definition static_inventory :: "'b static_driver \<Rightarrow> (string, 'b inventory_device list) btree" where
  "static_inventory d =
     (let inventory = (case sd_pool_inventory d of
            None \<Rightarrow> map inventory_device_new (sd_devices d)
          | Some inventory \<Rightarrow> pi_devices inventory)
      in bt_collect [(sd_pool d, map (apply_policies d) inventory)])"

definition static_snapshot :: "'b static_driver \<Rightarrow> (string, 'b pool_inventory) btree" where
  "static_snapshot d =
     bt_collect (map (\<lambda>(name, devices).
       (name, case sd_pool_inventory d of
          None \<Rightarrow> pool_inventory_new devices
        | Some pool \<Rightarrow> (pool_inventory_new devices)\<lparr>pi_shared_counters := pi_shared_counters pool\<rparr>))
       (static_inventory d))"

text \<open>Two pairs with a shared counter each; \<open>None\<close> is a panic when a quantity does not parse.\<close>

definition fixture_quantity :: "'b bigdecimal_ops \<Rightarrow> string \<Rightarrow> 'b quantity option" where
  "fixture_quantity B s = (case quantity_from_str B s of Inr q \<Rightarrow> Some q | Inl _ \<Rightarrow> None)"

definition pair_device ::
    "string \<Rightarrow> 'b quantity \<Rightarrow> string \<times> string \<times> 'b quantity \<Rightarrow> 'b inventory_device" where
  "pair_device pair half = (\<lambda>(suffix, kind, consumption).
     inventory_device_with_consumes_counters
       (inventory_device_new
         (pool_device_capacity
           (pool_device_attribute
             (pool_device_attribute (pool_device_new (pair @ ''-'' @ suffix)) ''type'' (AttrString kind))
             ''pair'' (AttrString pair))
           ''fractional'' half))
       (counter_consumption_counter (counter_consumption_new (''pair-'' @ pair)) ''cards'' consumption))"

definition add_pair ::
    "'b bigdecimal_ops \<Rightarrow> 'b quantity \<Rightarrow> 'b quantity \<Rightarrow> string \<Rightarrow> 'b pool_inventory \<Rightarrow> 'b pool_inventory" where
  "add_pair B half whole pair inventory =
     inventory\<lparr>pi_shared_counters := pi_shared_counters inventory
         @ [counter_set_counter (counter_set_new (''pair-'' @ pair)) ''cards'' (quantity_from_int B 1)],
       pi_devices := pi_devices inventory @ map (pair_device pair half)
         [(''0'', ''card'', half), (''1'', ''card'', half), (''bridge'', ''pair'', whole)]\<rparr>"

definition partitionable_inventory :: "'b bigdecimal_ops \<Rightarrow> 'b pool_inventory option" where
  "partitionable_inventory B =
     (case (fixture_quantity B ''0.5'', fixture_quantity B ''1'') of
        (Some half, Some whole) \<Rightarrow>
          Some (fold (add_pair B half whole) [''a'', ''b''] \<lparr>pi_devices = [], pi_shared_counters = []\<rparr>)
      | _ \<Rightarrow> None)"

subsection \<open>Its preparation\<close>

definition option_list :: "'a option \<Rightarrow> 'a list" where
  "option_list m = (case m of None \<Rightarrow> [] | Some x \<Rightarrow> [x])"

definition static_prepare_device ::
    "'b static_driver \<Rightarrow> allocated_device \<Rightarrow> prepare_error + prepared_device" where
  "static_prepare_device d device =
     (if \<not> has_device d (ad_pool_name device) (ad_device_name device)
      then Inl (PrepareDeviceUnavailable (ad_pool_name device @ ''/'' @ ad_device_name device))
      else Inr \<lparr>pr_request_names = option_list (ad_request_name device),
                pr_pool_name = ad_pool_name device, pr_device_name = ad_device_name device,
                pr_cdi_device_ids = [cdi_device_id (ad_device_name device)]\<rparr>)"

definition prepared_report :: "prepared_device \<Rightarrow> claim_device_status" where
  "prepared_report device =
     (claim_device_status_new (pr_pool_name device) (pr_device_name device))
       \<lparr>ds_data := Some (JObject [(''phase'', JString ''prepared'')])\<rparr>"

text \<open>What the status publisher uses: the JSON encoder, the API server and the text of its errors.\<close>

record status_env =
  sx_json :: "json \<Rightarrow> string + string"
  sx_api :: status_api
  sx_show :: "kube_error \<Rightarrow> string"

definition static_prepare_claim ::
    "status_env \<Rightarrow> 'b static_driver \<Rightarrow> resolved_claim \<Rightarrow> status_request list
      \<Rightarrow> (prepare_error + prepared_device list) \<times> status_request list" where
  "static_prepare_claim E d resolved h =
     (case traverse (static_prepare_device d) (rc_devices resolved) of
        Inl err \<Rightarrow> (Inl err, h)
      | Inr prepared \<Rightarrow>
          (case sd_status_publisher d of
             None \<Rightarrow> (Inr prepared, h)
           | Some p \<Rightarrow>
               (case publish_fields (sx_json E) (sx_api E) p (rc_claim resolved)
                       (map prepared_report prepared) h of
                  (Inl err, h) \<Rightarrow>
                    (Inl (PrepareHookFailed (''failed to publish ResourceClaim device status: ''
                       @ show_status_error (sx_show E) err)), h)
                | (Inr _, h) \<Rightarrow> (Inr prepared, h))))"

fun static_prepare_from ::
    "status_env \<Rightarrow> 'b static_driver \<Rightarrow> (claim_ref, prepare_error + prepared_device list) btree
      \<Rightarrow> resolved_claim list \<Rightarrow> status_request list
      \<Rightarrow> (claim_ref, prepare_error + prepared_device list) btree \<times> status_request list" where
  "static_prepare_from E d results [] h = (results, h)"
| "static_prepare_from E d results (resolved # claims) h =
     (case static_prepare_claim E d resolved h of
        (result, h) \<Rightarrow>
          static_prepare_from E d (bt_insert (rc_claim resolved) result results) claims h)"

definition static_prepare ::
    "status_env \<Rightarrow> 'b static_driver \<Rightarrow> resolved_claim list \<Rightarrow> status_request list
      \<Rightarrow> (claim_ref, prepare_error + prepared_device list) btree \<times> status_request list" where
  "static_prepare E d claims h = static_prepare_from E d [] claims h"

definition device_attributes :: "'b static_driver \<Rightarrow> prepared_device \<Rightarrow> (string, attribute_value) btree" where
  "device_attributes d device =
     (case find (\<lambda>s. pd_name s = pr_device_name device) (sd_devices d) of
        None \<Rightarrow> []
      | Some s \<Rightarrow> pd_attributes s)"

definition static_prepare_with_metadata ::
    "status_env \<Rightarrow> 'b static_driver \<Rightarrow> resolved_claim list \<Rightarrow> status_request list
      \<Rightarrow> (claim_ref, prepare_error + prepared_with_metadata list) btree \<times> status_request list" where
  "static_prepare_with_metadata E d claims h =
     (case static_prepare E d claims h of
        (results, h) \<Rightarrow>
          (bt_collect (map (\<lambda>(claim, result). (claim, res_map (map (\<lambda>device.
             (prepared_with_metadata_new device)\<lparr>pm_attributes := device_attributes d device\<rparr>)) result))
             results), h))"

definition example_unprepare :: "claim_ref \<Rightarrow> prepare_error + unit" where
  "example_unprepare claim = Inr ()"

definition static_backend :: "status_env \<Rightarrow> 'b static_driver \<Rightarrow> status_request list \<Rightarrow> claim_backend" where
  "static_backend E d h =
     \<lparr>be_prepare = (\<lambda>claims. fst (static_prepare E d claims h)),
      be_prepare_with_metadata = (\<lambda>claims. fst (static_prepare_with_metadata E d claims h)),
      be_unprepare = example_unprepare\<rparr>"

subsection \<open>Its configuration\<close>

definition env_or_default :: "(string \<Rightarrow> string option) \<Rightarrow> string \<Rightarrow> string \<Rightarrow> string" where
  "env_or_default vars name fallback = (case vars name of Some value \<Rightarrow> value | None \<Rightarrow> fallback)"

definition parse_device_names :: "string \<Rightarrow> 'b pool_device list" where
  "parse_device_names names =
     map pool_device_new (filter (\<lambda>name. name \<noteq> []) (map trim (split_on (CHR '','') names)))"

definition parse_taint_effect :: "string \<Rightarrow> io_error + device_taint_effect" where
  "parse_taint_effect value =
     (if value = ''None'' then Inr EffectNone
      else if value = ''NoSchedule'' then Inr NoSchedule
      else if value = ''NoExecute'' then Inr NoExecute
      else Inl (IoError InvalidInput ''DRA_EXAMPLE_TAINT_EFFECT must be None, NoSchedule, or NoExecute''))"

text \<open>The \<open>match\<close>es on a variable that is \<open>0\<close> or \<open>1\<close>.\<close>

definition flag_var :: "(string \<Rightarrow> string option) \<Rightarrow> string \<Rightarrow> io_error + bool" where
  "flag_var vars name =
     (if env_or_default vars name ''0'' = ''0'' then Inr False
      else if env_or_default vars name ''0'' = ''1'' then Inr True
      else Inl (IoError InvalidInput (name @ '' must be 0 or 1'')))"

record 'b static_config =
  sc_driver_name :: string
  sc_node_name :: string
  sc_metadata :: bool
  sc_driver :: "'b static_driver"

text \<open>
  \<open>main\<close> up to the CDI specification; \<open>node_error\<close> is the text of a missing \<open>NODE_NAME\<close>, and \<open>None\<close> is
  the panic of the partitionable inventory.
\<close>

definition static_main_config ::
    "'b bigdecimal_ops \<Rightarrow> (string \<Rightarrow> string option) \<Rightarrow> string \<Rightarrow> (io_error + 'b static_config) option" where
  "static_main_config B vars node_error =
     (let driver_name = env_or_default vars ''DRIVER_NAME'' DEFAULT_DRIVER_NAME;
          pool_name = env_or_default vars ''POOL_NAME'' DEFAULT_POOL_NAME;
          config =
            res_bind (flag_var vars ''DRA_EXAMPLE_DEVICE_METADATA'') (\<lambda>metadata_enabled.
            let devices = parse_device_names (env_or_default vars ''DEVICE_NAMES'' DEFAULT_DEVICE_NAMES);
                devices = (if metadata_enabled
                  then map (\<lambda>device. pool_device_attribute device ''model'' (AttrString ''validation-widget'')) devices
                  else devices)
            in res_bind (case vars ''DRA_EXAMPLE_TAINT_EFFECT'' of
                 None \<Rightarrow> Inr None
               | Some value \<Rightarrow> res_map (\<lambda>effect.
                   Some (device_taint_new ''dra.example.com/maintenance'' effect)) (parse_taint_effect value)) (\<lambda>taint.
            res_bind (flag_var vars ''DRA_EXAMPLE_BINDING_CONDITIONS'') (\<lambda>bound.
            let binding = (if bound
                  then Some (device_binding_with_node_binding
                    (device_binding_with_failure_condition
                      (device_binding_with_condition device_binding_new ''dra.example.com/Attached'')
                      ''dra.example.com/AttachFailed''))
                  else None)
            in res_bind (ok_or (io_other (''NODE_NAME must be set: '' @ node_error)) (vars ''NODE_NAME'')) (\<lambda>node_name.
            let driver = with_binding (with_taint (static_driver_new driver_name pool_name devices) taint) binding
            in res_bind (flag_var vars ''DRA_EXAMPLE_SHARED_COUNTERS'') (\<lambda>shared.
               Inr (shared, \<lparr>sc_driver_name = driver_name, sc_node_name = node_name,
                 sc_metadata = metadata_enabled, sc_driver = driver\<rparr>))))))
      in case config of
           Inl error \<Rightarrow> Some (Inl error)
         | Inr (shared, c) \<Rightarrow>
             if shared
             then map_option (\<lambda>inventory. Inr (c\<lparr>sc_driver := with_inventory (sc_driver c) inventory\<rparr>))
                    (partitionable_inventory B)
             else Some (Inr c))"

text \<open>
  The rest of \<open>main\<close> after the client is there: the driver with its status publisher and the plugin
  to run. \<open>feature\<close> is the Cargo feature, and \<open>dbg\<close> is the \<open>Debug\<close> text of a string.
\<close>

definition static_main_plugin ::
    "bool \<Rightarrow> string \<Rightarrow> (string \<Rightarrow> string) \<Rightarrow> (string \<Rightarrow> string option) \<Rightarrow> 'b static_config
      \<Rightarrow> io_error + ('b static_driver \<times> dra_plugin)" where
  "static_main_plugin feature health_service dbg vars c =
     (let name = sc_driver_name c;
          invalid_name = (\<lambda>error. io_other (show_validation_error dbg error))
      in res_bind (res_map_err invalid_name (status_publisher_new name)) (\<lambda>publisher.
         let driver = with_status_publisher (sc_driver c) publisher
         in res_bind
              (if env_or_default vars ''DRA_EXAMPLE_RESOURCE_HEALTH'' ''0'' = ''0''
               then res_map_err invalid_name (from_driver name (sc_node_name c) (sd_name driver))
               else if env_or_default vars ''DRA_EXAMPLE_RESOURCE_HEALTH'' ''0'' = ''1''
               then if feature
                    then res_map_err invalid_name
                      (plugin_with_resource_health health_service name (sc_node_name c) (sd_name driver))
                    else Inl (IoError InvalidInput ''resource health requires the resource-health Cargo feature'')
               else Inl (IoError InvalidInput ''DRA_EXAMPLE_RESOURCE_HEALTH must be 0 or 1'')) (\<lambda>plugin.
            res_bind (if sc_metadata c
               then plugin_with_device_metadata dbg plugin metadata_options_v1beta1 else Inr plugin) (\<lambda>plugin.
               Inr (driver, plugin)))))"

text \<open>One report of the health monitor; \<open>clock\<close> is the Unix time in seconds, or why there is none.\<close>

definition static_health_report ::
    "'b static_driver \<Rightarrow> string + nat \<Rightarrow> (nat \<Rightarrow> string) \<Rightarrow> resource_health_error + health_report" where
  "static_health_report d clock out_of_range =
     res_bind (res_map_err MonitorFailed clock) (\<lambda>secs.
     res_bind (if secs < 2 ^ 63 then Inr (int secs) else Inl (MonitorFailed (out_of_range secs))) (\<lambda>time.
       Inr \<lparr>hr_devices = map (\<lambda>device.
         \<lparr>dh_pool_name = sd_pool d, dh_device_name = pd_name device, dh_health = HealthHealthy,
          dh_last_updated_time = time, dh_health_check_timeout_seconds = 30,
          dh_message = ''static validation device is healthy''\<rparr>) (sd_devices d)\<rparr>))"

subsection \<open>Accelerator pairs\<close>

definition PAIR_CDI_KIND :: string where "PAIR_CDI_KIND = ''accelerator.example.com/pair''"
definition ATTRIBUTE_KIND :: string where "ATTRIBUTE_KIND = ''accelerator.example.com/kind''"
definition ATTRIBUTE_INTERCONNECT :: string where
  "ATTRIBUTE_INTERCONNECT = ''accelerator.example.com/interconnect''"
definition ATTRIBUTE_MEMBER_0 :: string where "ATTRIBUTE_MEMBER_0 = ''accelerator.example.com/member0''"
definition ATTRIBUTE_MEMBER_1 :: string where "ATTRIBUTE_MEMBER_1 = ''accelerator.example.com/member1''"

record accelerator_pair =
  ap_name :: string
  ap_members :: "string \<times> string"
  ap_interconnect :: string

definition pair_cdi_device_id :: "accelerator_pair \<Rightarrow> string" where
  "pair_cdi_device_id pair = PAIR_CDI_KIND @ ''='' @ ap_name pair"

definition pair_pool_device :: "accelerator_pair \<Rightarrow> 'b pool_device" where
  "pair_pool_device pair =
     pool_device_attribute
      (pool_device_attribute
       (pool_device_attribute
        (pool_device_attribute (pool_device_new (ap_name pair)) ATTRIBUTE_KIND (AttrString ''connected-pair''))
        ATTRIBUTE_INTERCONNECT (AttrString (ap_interconnect pair)))
       ATTRIBUTE_MEMBER_0 (AttrString (fst (ap_members pair))))
      ATTRIBUTE_MEMBER_1 (AttrString (snd (ap_members pair)))"

definition pair_cdi_device :: "accelerator_pair \<Rightarrow> cdi_device" where
  "pair_cdi_device pair =
     \<lparr>cd_container_edits =
        \<lparr>ce_env = [''ACCELERATOR_PAIR='' @ ap_name pair,
           ''ACCELERATOR_PAIR_MEMBERS='' @ fst (ap_members pair) @ '','' @ snd (ap_members pair),
           ''ACCELERATOR_INTERCONNECT='' @ ap_interconnect pair],
         ce_mounts = []\<rparr>,
      cd_name = ap_name pair\<rparr>"

definition example_pairs :: "accelerator_pair list" where
  "example_pairs =
     [\<lparr>ap_name = ''pair-0-1'', ap_members = (''accelerator-0'', ''accelerator-1''), ap_interconnect = ''nvlink''\<rparr>,
      \<lparr>ap_name = ''pair-2-3'', ap_members = (''accelerator-2'', ''accelerator-3''), ap_interconnect = ''nvlink''\<rparr>]"

definition pair_cdi_spec :: "accelerator_pair list \<Rightarrow> cdi_spec" where
  "pair_cdi_spec pairs =
     \<lparr>cdi_version = ''0.8.0'', cdi_devices = map pair_cdi_device pairs, cdi_kind = PAIR_CDI_KIND\<rparr>"

record pair_driver =
  prd_name :: string
  prd_pool :: string
  prd_pairs :: "(string, accelerator_pair) btree"

definition pair_driver_new :: "string \<Rightarrow> string \<Rightarrow> accelerator_pair list \<Rightarrow> pair_driver" where
  "pair_driver_new name pool pairs =
     \<lparr>prd_name = name, prd_pool = pool, prd_pairs = bt_collect (map (\<lambda>pair. (ap_name pair, pair)) pairs)\<rparr>"

definition pair_prepare_device :: "pair_driver \<Rightarrow> allocated_device \<Rightarrow> prepare_error + prepared_device" where
  "pair_prepare_device d device =
     (if ad_pool_name device \<noteq> prd_pool d
      then Inl (PrepareDeviceUnavailable (ad_pool_name device @ ''/'' @ ad_device_name device))
      else case bt_lookup (prd_pairs d) (ad_device_name device) of
             None \<Rightarrow> Inl (PrepareDeviceUnavailable (ad_pool_name device @ ''/'' @ ad_device_name device
               @ '' is not an advertised connected pair''))
           | Some pair \<Rightarrow>
               Inr \<lparr>pr_request_names = option_list (ad_request_name device),
                    pr_pool_name = ad_pool_name device, pr_device_name = ap_name pair,
                    pr_cdi_device_ids = [pair_cdi_device_id pair]\<rparr>)"

definition pair_devices :: "pair_driver \<Rightarrow> (string, 'b pool_device list) btree" where
  "pair_devices d = bt_collect [(prd_pool d, map pair_pool_device (map snd (prd_pairs d)))]"

definition pair_prepare ::
    "pair_driver \<Rightarrow> resolved_claim list \<Rightarrow> (claim_ref, prepare_error + prepared_device list) btree" where
  "pair_prepare d claims =
     bt_collect (map (\<lambda>resolved.
       (rc_claim resolved, traverse (pair_prepare_device d) (rc_devices resolved))) claims)"

text \<open>The driver uses the default preparation with metadata.\<close>

definition pair_backend :: "pair_driver \<Rightarrow> claim_backend" where
  "pair_backend d =
     \<lparr>be_prepare = pair_prepare d,
      be_prepare_with_metadata = (\<lambda>claims. default_prepare_with_metadata (pair_prepare d claims)),
      be_unprepare = example_unprepare\<rparr>"

end
