(* ===== verification/Claim_Preparer.thy ===== *)
theory Claim_Preparer
  imports Dra_Service_Properties Example_Drivers
begin

text \<open>
  The contract of the trait \<open>ClaimPreparer\<close> in \<open>core/src/dra.rs\<close> as locales: exactly one result for
  each claim of a batch, and for a backend whose claims do not depend on each other, the result of the
  claim itself. The service of \<open>Dra_Service\<close> is the client; the example drivers and the default
  preparation with metadata are the providers.
\<close>

subsection \<open>The contract\<close>

locale claim_preparer =
  fixes prepare :: "resolved_claim list \<Rightarrow> (claim_ref, prepare_error + 'd list) btree"
  assumes prepare_ok: "bt_ok (prepare claims)"
    and prepare_keys: "fst ` set (prepare claims) = rc_claim ` set claims"
begin

lemma prepare_answers:
  assumes "resolved \<in> set claims"
  obtains result where "bt_lookup (prepare claims) (rc_claim resolved) = Some result"
proof -
  have "rc_claim resolved \<in> fst ` set (prepare claims)" using assms by (simp add: prepare_keys)
  then have "map_of (prepare claims) (rc_claim resolved) \<noteq> None" by (simp add: map_of_eq_None_iff)
  then show ?thesis using that by (auto simp: bt_lookup_def)
qed

lemma prepare_only_claims:
  "claim \<notin> rc_claim ` set claims \<Longrightarrow> bt_lookup (prepare claims) claim = None"
  using prepare_keys [of claims] by (simp add: bt_lookup_def map_of_eq_None_iff)

end

locale independent_preparer = claim_preparer prepare
  for prepare :: "resolved_claim list \<Rightarrow> (claim_ref, prepare_error + 'd list) btree" +
  fixes prepare_one :: "resolved_claim \<Rightarrow> prepare_error + 'd list"
  assumes prepare_each: "distinct (map rc_claim claims) \<Longrightarrow> resolved \<in> set claims \<Longrightarrow>
    bt_lookup (prepare claims) (rc_claim resolved) = Some (prepare_one resolved)"
begin

lemma prepare_no_influence:
  assumes "distinct (map rc_claim claims)" "distinct (map rc_claim others)"
    and "resolved \<in> set claims" "resolved \<in> set others"
  shows "bt_lookup (prepare claims) (rc_claim resolved) = bt_lookup (prepare others) (rc_claim resolved)"
  using assms by (simp add: prepare_each)

end

text \<open>A backend that does not override \<open>prepare_with_metadata\<close>.\<close>

locale default_preparer = claim_preparer prepare
  for prepare :: "resolved_claim list \<Rightarrow> (claim_ref, prepare_error + prepared_device list) btree"

lemma collected_keys: "fst ` set (bt_collect xs) = fst ` set xs"
  using collect_keys [of xs] by simp

lemma keys_iff_lookup: "k \<in> fst ` set m \<longleftrightarrow> bt_lookup m k \<noteq> None"
  by (simp add: bt_lookup_def map_of_eq_None_iff)

sublocale default_preparer \<subseteq> with_metadata: claim_preparer "\<lambda>claims. default_prepare_with_metadata (prepare claims)"
proof
  fix claims
  show "bt_ok (default_prepare_with_metadata (prepare claims))" by (simp add: default_prepare_with_metadata_def)
  have "k \<in> fst ` set (default_prepare_with_metadata (prepare claims)) \<longleftrightarrow> k \<in> fst ` set (prepare claims)" for k
    by (simp add: keys_iff_lookup default_prepare_with_metadata_lookup [OF prepare_ok])
  then show "fst ` set (default_prepare_with_metadata (prepare claims)) = rc_claim ` set claims"
    by (auto simp: prepare_keys)
qed

text \<open>Both methods of a backend keep the contract.\<close>

locale backend_contract =
  plain: claim_preparer "be_prepare B" + metadata: claim_preparer "be_prepare_with_metadata B"
  for B :: claim_backend

locale independent_backend =
  backend_contract B + plain: independent_preparer "be_prepare B" prepare_one
  for B :: claim_backend and prepare_one :: "resolved_claim \<Rightarrow> prepare_error + prepared_device list"

text \<open>What the service answers for a claim when its backend keeps the contract.\<close>

definition resolved_batch :: "call_env \<Rightarrow> claim_resolver \<Rightarrow> claim_ref list \<Rightarrow> resolved_claim list" where
  "resolved_batch A v claims =
     concat (map (\<lambda>(i, c). case resolve (ce_show_err A) v c (ce_answers A i) of
       Inr r \<Rightarrow> [r] | Inl _ \<Rightarrow> []) (enumerate 0 claims))"

lemma resolve_claim: "resolve se v c answer = Inr r \<Longrightarrow> rc_claim r = c"
  by (auto simp: resolve_def resolve_context_def resolve_object_def res_simps Let_def
      split: prod.splits sum.splits if_splits)

lemma resolved_batch_mem:
  "(i, c) \<in> set (enumerate 0 claims) \<Longrightarrow> resolve (ce_show_err A) v c (ce_answers A i) = Inr r \<Longrightarrow>
     r \<in> set (resolved_batch A v claims)"
  by (force simp: resolved_batch_def)

lemma resolved_batch_claims:
  "map rc_claim (resolved_batch A v claims)
     = map snd (filter (\<lambda>(i, c). \<not> isl (resolve (ce_show_err A) v c (ce_answers A i))) (enumerate 0 claims))"
proof -
  have "map rc_claim (concat (map (\<lambda>(i, c). case resolve (ce_show_err A) v c (ce_answers A i) of
       Inr r \<Rightarrow> [r] | Inl _ \<Rightarrow> []) xs))
     = map snd (filter (\<lambda>(i, c). \<not> isl (resolve (ce_show_err A) v c (ce_answers A i))) xs)" for xs
    by (induction xs) (auto dest: resolve_claim split: sum.splits)
  then show ?thesis by (simp add: resolved_batch_def)
qed

lemma resolved_batch_distinct: "distinct claims \<Longrightarrow> distinct (map rc_claim (resolved_batch A v claims))"
  unfolding resolved_batch_claims
  by (intro distinct_map_filter) simp

context backend_contract
begin

lemma outcome_from_backend:
  assumes "(i, c) \<in> set (enumerate 0 claims)" "resolve (ce_show_err A) v c (ce_answers A i) = Inr r"
  shows "bt_lookup (be_prepare B (resolved_batch A v claims)) c = Some (claim_outcome A v B claims i c)"
proof -
  obtain result where "bt_lookup (be_prepare B (resolved_batch A v claims)) (rc_claim r) = Some result"
    using plain.prepare_answers [OF resolved_batch_mem [OF assms]] by blast
  with assms(2) resolve_claim [OF assms(2)] show ?thesis by (simp add: claim_outcome_def resolved_batch_def)
qed

end

context independent_backend
begin

lemma outcome_independent:
  assumes "(i, c) \<in> set (enumerate 0 claims)" "distinct claims"
  shows "claim_outcome A v B claims i c = res_bind (resolve (ce_show_err A) v c (ce_answers A i)) prepare_one"
proof (cases "resolve (ce_show_err A) v c (ce_answers A i)")
  case (Inr r)
  have "bt_lookup (be_prepare B (resolved_batch A v claims)) (rc_claim r) = Some (prepare_one r)"
    by (rule plain.prepare_each [OF resolved_batch_distinct [OF assms(2)] resolved_batch_mem [OF assms(1) Inr]])
  with Inr outcome_from_backend [OF assms(1) Inr] resolve_claim [OF Inr] show ?thesis by simp
qed (simp add: claim_outcome_def)

lemma answers_independent:
  assumes "0 < cv_max_concurrent_resolves v" "distinct claims"
  shows "prepare_plain A v B claims = Some (responses (ce_dbg A) (map (\<lambda>(i, c).
    (c, res_bind (resolve (ce_show_err A) v c (ce_answers A i)) prepare_one)) (enumerate 0 claims)))"
proof -
  have "map (\<lambda>(i, c). (c, claim_outcome A v B claims i c)) (enumerate 0 claims)
      = map (\<lambda>(i, c). (c, res_bind (resolve (ce_show_err A) v c (ce_answers A i)) prepare_one)) (enumerate 0 claims)"
    by (rule map_cong [OF refl]) (auto simp: outcome_independent assms(2))
  then show ?thesis unfolding prepare_plain_answers [OF assms] by (simp only:)
qed

end

subsection \<open>The providers\<close>

lemma pair_prepare_each:
  assumes "distinct (map rc_claim claims)" "resolved \<in> set claims"
  shows "bt_lookup (pair_prepare d claims) (rc_claim resolved)
    = Some (traverse (pair_prepare_device d) (rc_devices resolved))"
proof -
  let ?xs = "map (\<lambda>r. (rc_claim r, traverse (pair_prepare_device d) (rc_devices r))) claims"
  have "distinct (map fst ?xs)" using assms(1) by (simp add: comp_def)
  then have "bt_lookup (pair_prepare d claims) (rc_claim resolved) = map_of ?xs (rc_claim resolved)"
    by (simp add: pair_prepare_def bt_collect_eq bt.lookup_collect_distinct)
  also have "\<dots> = Some (traverse (pair_prepare_device d) (rc_devices resolved))"
    using \<open>distinct (map fst ?xs)\<close> assms(2) by (auto simp: map_of_eq_Some_iff)
  finally show ?thesis .
qed

interpretation pairs: default_preparer "pair_prepare d" for d
proof
  show "bt_ok (pair_prepare d claims)" for claims by (simp add: pair_prepare_def)
  show "fst ` set (pair_prepare d claims) = rc_claim ` set claims" for claims
    by (simp add: pair_prepare_def collected_keys image_image)
qed

interpretation pair_independent: independent_preparer "pair_prepare d"
    "\<lambda>resolved. traverse (pair_prepare_device d) (rc_devices resolved)" for d
  by unfold_locales (rule pair_prepare_each)

interpretation pair_contract: independent_backend "pair_backend d"
    "\<lambda>resolved. traverse (pair_prepare_device d) (rc_devices resolved)" for d
  by unfold_locales
    (simp_all add: pair_backend_def pairs.prepare_ok pairs.prepare_keys pair_prepare_each
      pairs.with_metadata.prepare_ok pairs.with_metadata.prepare_keys)

text \<open>The static driver's claims share the history of its status updates.\<close>

lemma static_prepare_from_keys:
  "fst ` set (fst (static_prepare_from E d results claims h)) = fst ` set results \<union> rc_claim ` set claims"
proof (induction E d results claims h rule: static_prepare_from.induct)
  case (2 E d results resolved claims h)
  obtain result h' where r: "static_prepare_claim E d resolved h = (result, h')" by fastforce
  have "fst ` set (bt_insert (rc_claim resolved) result results) = insert (rc_claim resolved) (fst ` set results)"
    by (auto simp: set_eq_iff keys_iff_lookup bt_lookup_insert)
  with 2 r show ?case by simp
qed simp

lemma static_prepare_from_ok:
  "bt_ok results \<Longrightarrow> bt_ok (fst (static_prepare_from E d results claims h))"
  by (induction E d results claims h rule: static_prepare_from.induct) (auto simp: bt_ok_insert split: prod.splits)

interpretation static: claim_preparer "\<lambda>claims. fst (static_prepare E d claims h)" for E d h
  by unfold_locales (simp_all add: static_prepare_def static_prepare_from_keys static_prepare_from_ok)

interpretation static_contract: backend_contract "static_backend E d h" for E d h
proof
  fix claims
  let ?results = "fst (static_prepare E d claims h)"
  have m: "be_prepare_with_metadata (static_backend E d h) claims
      = bt_collect (map (\<lambda>(claim, result). (claim, res_map (map (\<lambda>device.
          (prepared_with_metadata_new device)\<lparr>pm_attributes := device_attributes d device\<rparr>)) result)) ?results)"
    by (cases "static_prepare E d claims h") (simp add: static_backend_def static_prepare_with_metadata_def)
  show "bt_ok (be_prepare (static_backend E d h) claims)"
    using static.prepare_ok by (simp add: static_backend_def)
  show "fst ` set (be_prepare (static_backend E d h) claims) = rc_claim ` set claims"
    using static.prepare_keys by (simp add: static_backend_def)
  show "bt_ok (be_prepare_with_metadata (static_backend E d h) claims)" by (simp add: m)
  show "fst ` set (be_prepare_with_metadata (static_backend E d h) claims) = rc_claim ` set claims"
    using static.prepare_keys [of E d claims h] by (simp add: m collected_keys image_image case_prod_unfold)
qed

subsection \<open>The property\<close>

text \<open>
  C27: without metadata, when the claims of a call have distinct UIDs, each claim is answered by its
  own error when it does not resolve, whatever the other claims and the backend do, and otherwise by
  what the backend returned for it from the one batch of the claims that resolved, or by the fallback
  error when it returned nothing. So with a backend that prepares every claim of a batch on its own
  (\<open>prepare_one\<close>), the answer of a claim depends on that claim and the reads of its object alone.
\<close>
theorem claim_answers_independent:
  assumes "resolver_ok (sv_resolver sv)" and "sv_metadata sv = None"
    and "distinct (map wc_uid request)" and "i < length request"
    and "claim = claim_from_wire (request ! i)"
    and "outcome = resolve (ce_show_err A) (sv_resolver sv) claim (ce_answers A i)"
  shows "\<exists>resp. node_prepare_resources A sv B request s = (Some resp, s)
    \<and> (case outcome of
         Inl err \<Rightarrow> bt_lookup resp (cr_uid claim) = Some (node_prepare_response (ce_dbg A) (Inl err))
       | Inr r \<Rightarrow>
           bt_lookup resp (cr_uid claim) = Some (node_prepare_response (ce_dbg A)
             (case bt_lookup (be_prepare B (resolved_batch A (sv_resolver sv) (map claim_from_wire request))) claim of
                Some result \<Rightarrow> result | None \<Rightarrow> no_result))
           \<and> (\<forall>prepare_one. (\<forall>batch. distinct (map rc_claim batch) \<and> r \<in> set batch \<longrightarrow>
                  bt_lookup (be_prepare B batch) claim = Some (prepare_one r)) \<longrightarrow>
                bt_lookup resp (cr_uid claim) = Some (node_prepare_response (ce_dbg A) (prepare_one r))))"
proof -
  let ?claims = "map claim_from_wire request"
  let ?batch = "resolved_batch A (sv_resolver sv) ?claims"
  obtain resp where resp: "node_prepare_resources A sv B request s = (Some resp, s)"
    "bt_lookup resp (cr_uid claim) = Some (node_prepare_response (ce_dbg A)
        (claim_outcome A (sv_resolver sv) B ?claims i claim))"
    using claim_answer [OF assms(1-4), of A B s] assms(5) by auto
  have batch: "r \<in> set ?batch \<and> distinct (map rc_claim ?batch)" if "outcome = Inr r" for r
  proof
    have "(i, claim) \<in> set (enumerate 0 ?claims)" using assms(4,5) by (simp add: in_set_enumerate_eq)
    then show "r \<in> set ?batch" using resolved_batch_mem that assms(6) by metis
    have "map cr_uid ?claims = map wc_uid request" by simp
    then have "distinct ?claims" using assms(3) by (metis distinct_map)
    then show "distinct (map rc_claim ?batch)" by (rule resolved_batch_distinct)
  qed
  have "claim_outcome A (sv_resolver sv) B ?claims i claim
      = (case outcome of Inl err \<Rightarrow> Inl err
         | Inr _ \<Rightarrow> (case bt_lookup (be_prepare B ?batch) claim of Some result \<Rightarrow> result | None \<Rightarrow> no_result))"
    unfolding claim_outcome_def resolved_batch_def assms(6) ..
  with resp batch show ?thesis by (intro exI [of _ resp]) (auto split: sum.splits)
qed

theorem claim_answers_independent_witness:
  "\<forall>d. \<exists>resp. node_prepare_resources sample_env sample_service (pair_backend d) sample_request empty_disk
        = (Some resp, empty_disk)
    \<and> bt_lookup resp (wc_uid (sample_request ! 1)) = Some (node_prepare_response (ce_dbg sample_env)
        (res_bind (resolve (ce_show_err sample_env) (sv_resolver sample_service)
            (claim_from_wire (sample_request ! 1)) (ce_answers sample_env 1))
          (\<lambda>r. traverse (pair_prepare_device d) (rc_devices r))))"
proof
  fix d
  let ?c = "claim_from_wire (sample_request ! 1)"
  let ?out = "resolve (ce_show_err sample_env) (sv_resolver sample_service) ?c (ce_answers sample_env 1)"
  have each: "bt_lookup (be_prepare (pair_backend d) batch) ?c = Some (traverse (pair_prepare_device d) (rc_devices r))"
    if "distinct (map rc_claim batch)" "r \<in> set batch" "?out = Inr r" for batch r
    using pair_prepare_each [OF that(1,2)] resolve_claim [OF that(3)] by (simp add: pair_backend_def)
  have "sv_metadata sample_service = None" "distinct (map wc_uid sample_request)" "1 < length sample_request"
    by (simp_all add: sample_service_def dra_service_new_def sample_request_def)
  note answers = claim_answers_independent [OF sample_resolver_ok this refl refl, of sample_env "pair_backend d" empty_disk]
  show "\<exists>resp. node_prepare_resources sample_env sample_service (pair_backend d) sample_request empty_disk
        = (Some resp, empty_disk)
    \<and> bt_lookup resp (wc_uid (sample_request ! 1)) = Some (node_prepare_response (ce_dbg sample_env)
        (res_bind ?out (\<lambda>r. traverse (pair_prepare_device d) (rc_devices r))))"
  proof (cases ?out)
    case (Inl err)
    with answers show ?thesis by (auto simp del: One_nat_def)
  next
    case (Inr r)
    let ?one = "\<lambda>r. traverse (pair_prepare_device d) (rc_devices r)"
    obtain resp where resp: "node_prepare_resources sample_env sample_service (pair_backend d) sample_request empty_disk
        = (Some resp, empty_disk)"
      and every: "\<forall>prepare_one. (\<forall>batch. distinct (map rc_claim batch) \<and> r \<in> set batch \<longrightarrow>
                  bt_lookup (be_prepare (pair_backend d) batch) ?c = Some (prepare_one r)) \<longrightarrow>
                bt_lookup resp (cr_uid ?c) = Some (node_prepare_response (ce_dbg sample_env) (prepare_one r))"
      using answers unfolding Inr sum.case by blast
    note one = spec [OF every, of ?one]
    have "cr_uid ?c = wc_uid (sample_request ! 1)" by simp
    with one each [OF _ _ Inr] Inr resp show ?thesis by (intro exI [of _ resp]) (simp del: One_nat_def)
  qed
qed

end
