(* ===== verification/Device_Status_Properties.thy ===== *)
theory Device_Status_Properties
  imports Device_Status "HOL-Library.Sublist"
begin

text \<open>
  What the status publisher guarantees: which reports are accepted, what a patch leaves alone and
  what it writes, on which object it is conditional, how often it is retried, and that a report
  that was written is not written again.
\<close>

subsection \<open>Entries\<close>

definition entry_key :: "device_status \<Rightarrow> string \<times> status_key" where
  "entry_key s = (as_driver s, key_of_status s)"

lemma entry_key_fun: "(\<lambda>t. (as_driver t, key_of_status t)) = entry_key"
  by (rule ext) (simp add: entry_key_def)

lemma same_entry_iff: "same_entry a b \<longleftrightarrow> entry_key a = entry_key b"
  by (auto simp: same_entry_def entry_key_def key_of_status_def)

definition entries :: "device_status list \<Rightarrow> string \<times> status_key \<rightharpoonup> device_status" where
  "entries xs = map_of (map (\<lambda>s. (entry_key s, s)) xs)"

lemma entries_simps [simp]:
  "entries [] e = None"
  "entries (s # xs) e = (if e = entry_key s then Some s else entries xs e)"
  by (auto simp: entries_def)

lemma entries_key: "entries xs e = Some s \<Longrightarrow> entry_key s = e \<and> s \<in> set xs"
  by (induction xs) (auto split: if_splits)

lemma entries_None: "entries xs e = None \<longleftrightarrow> e \<notin> entry_key ` set xs"
  by (induction xs) auto

lemma entries_upsert: "entries (upsert_status d xs) e = (if e = entry_key d then Some d else entries xs e)"
  by (induction d xs rule: upsert_status.induct) (auto simp: same_entry_iff)

lemma filter_upsert: "(\<And>s. entry_key s = entry_key d \<Longrightarrow> \<not> P s) \<Longrightarrow> filter P (upsert_status d xs) = filter P xs"
  by (induction d xs rule: upsert_status.induct) (auto simp: same_entry_iff)

lemma filter_fold_upsert:
  "(\<And>d s. d \<in> set ds \<Longrightarrow> entry_key s = entry_key d \<Longrightarrow> \<not> P s) \<Longrightarrow>
     filter P (fold upsert_status ds xs) = filter P xs"
proof (induction ds arbitrary: xs)
  case (Cons d ds)
  have "filter P (fold upsert_status ds (upsert_status d xs)) = filter P (upsert_status d xs)"
    by (rule Cons.IH) (use Cons.prems in auto)
  also have "\<dots> = filter P xs"
    by (rule filter_upsert) (use Cons.prems in auto)
  finally show ?case by simp
qed simp

lemma keys_upsert: "set (map entry_key (upsert_status d xs)) = insert (entry_key d) (set (map entry_key xs))"
  by (induction d xs rule: upsert_status.induct) (auto simp: same_entry_iff)

lemma distinct_upsert:
  "distinct (map entry_key xs) \<Longrightarrow> distinct (map entry_key (upsert_status d xs))"
proof (induction d xs rule: upsert_status.induct)
  case (2 d c xs)
  then show ?case using keys_upsert [of d xs] by (auto simp: same_entry_iff)
qed simp

lemma distinct_fold_upsert:
  "distinct (map entry_key xs) \<Longrightarrow> distinct (map entry_key (fold upsert_status ds xs))"
  by (induction ds arbitrary: xs) (auto simp: distinct_upsert)

lemma entries_fold_upsert:
  "distinct (map entry_key ds) \<Longrightarrow>
     entries (fold upsert_status ds xs) e = (case entries ds e of None \<Rightarrow> entries xs e | Some d \<Rightarrow> Some d)"
proof (induction ds arbitrary: xs)
  case (Cons d ds)
  then have "entries ds (entry_key d) = None" by (simp add: entries_None)
  with Cons show ?case by (simp add: entries_upsert split: option.splits)
qed simp

subsection \<open>Reports\<close>

definition report_ok :: "(json \<Rightarrow> string + string) \<Rightarrow> claim_device_status \<Rightarrow> bool" where
  "report_ok jt s \<longleftrightarrow>
     (case ds_conditions s of None \<Rightarrow> True | Some cs \<Rightarrow> length cs \<le> 8)
     \<and> (case ds_data s of None \<Rightarrow> True
        | Some data \<Rightarrow> (case jt data of Inl _ \<Rightarrow> False | Inr raw \<Rightarrow> length raw \<le> 10240))"

definition report_entry :: "string \<Rightarrow> claim_device_status \<Rightarrow> device_status" where
  "report_entry driver s =
     \<lparr>as_driver = driver, as_pool = ds_pool_name s, as_device = ds_device_name s,
      as_share_id = ds_share_id s, as_conditions = ds_conditions s, as_data = ds_data s,
      as_network_data = ds_network_data s\<rparr>"

lemma report_entry_key [simp]:
  "key_of_status (report_entry driver s) = status_key_of s" "as_driver (report_entry driver s) = driver"
  by (simp_all add: report_entry_def key_of_status_def status_key_of_def)

lemma raw_data_ok:
  "raw_data jt k data = Inr d \<longleftrightarrow> d = data \<and> (\<exists>raw. jt data = Inr raw \<and> length raw \<le> 10240)"
  by (cases "jt data") (auto simp: raw_data_def MAX_DATA_BYTES_def)

lemma status_into_kubernetes_ok:
  "status_into_kubernetes jt driver s = Inr e \<longleftrightarrow> report_ok jt s \<and> e = report_entry driver s"
  by (cases "ds_conditions s"; cases "ds_data s")
    (auto simp: status_into_kubernetes_def report_ok_def report_entry_def raw_data_ok Let_def
      res_simps split: sum.splits)

definition report_pair :: "string \<Rightarrow> claim_device_status \<Rightarrow> status_key \<times> device_status" where
  "report_pair driver s = (status_key_of s, report_entry driver s)"

lemma desired_statuses_fold:
  "desired_statuses jt p d ss = Inr d' \<longleftrightarrow>
     distinct (map status_key_of ss) \<and> (\<forall>s \<in> set ss. bt_lookup d (status_key_of s) = None)
     \<and> list_all (report_ok jt) ss
     \<and> d' = fold (\<lambda>(k, v). bt_insert k v) (map (report_pair (spb_driver_name p)) ss) d"
proof (induction ss arbitrary: d)
  case (Cons s ss)
  have step: "desired_statuses jt p d (s # ss) = Inr d' \<longleftrightarrow>
      report_ok jt s \<and> bt_lookup d (status_key_of s) = None
      \<and> desired_statuses jt p (bt_insert (status_key_of s) (report_entry (spb_driver_name p) s) d) ss = Inr d'"
    by (auto simp: res_simps insert_status_def Let_def status_into_kubernetes_ok split: if_splits)
  have keys: "(\<forall>t \<in> set ss. bt_lookup (bt_insert (status_key_of s) v d) (status_key_of t) = None) \<longleftrightarrow>
      status_key_of s \<notin> set (map status_key_of ss) \<and> (\<forall>t \<in> set ss. bt_lookup d (status_key_of t) = None)" for v
    by (auto simp: bt_lookup_insert image_iff)
  show ?case
    unfolding step Cons.IH keys by (auto simp: report_pair_def [of _ s])
qed auto

lemma desired_statuses_ok:
  "desired_statuses jt p [] ss = Inr d \<longleftrightarrow>
     distinct (map status_key_of ss) \<and> list_all (report_ok jt) ss
     \<and> d = bt_collect (map (report_pair (spb_driver_name p)) ss)"
  by (auto simp: desired_statuses_fold bt_collect_def)

text \<open>A map of statuses as the publisher keeps it.\<close>

definition desired_ok :: "status_publisher \<Rightarrow> statuses \<Rightarrow> bool" where
  "desired_ok p d \<longleftrightarrow> bt_ok d
     \<and> (\<forall>k s. bt_lookup d k = Some s \<longrightarrow> key_of_status s = k \<and> as_driver s = spb_driver_name p)"

lemma bt_lookup_reports:
  "distinct (map status_key_of ss) \<Longrightarrow>
     bt_lookup (bt_collect (map (report_pair driver) ss)) k
       = map_option (report_entry driver) (List.find (\<lambda>s. status_key_of s = k) ss)"
proof -
  assume d: "distinct (map status_key_of ss)"
  have "map fst (map (report_pair driver) ss) = map status_key_of ss" by (simp add: report_pair_def)
  with d have "bt_lookup (bt_collect (map (report_pair driver) ss)) k = map_of (map (report_pair driver) ss) k"
    by (simp add: bt_collect_eq bt.lookup_collect_distinct del: map_map)
  moreover have "map_of (map (report_pair driver) ss) k
      = map_option (report_entry driver) (List.find (\<lambda>s. status_key_of s = k) ss)"
    by (induction ss) (auto simp: report_pair_def)
  ultimately show ?thesis by simp
qed

lemma desired_statuses_desired_ok: "desired_statuses jt p [] ss = Inr d \<Longrightarrow> desired_ok p d"
  by (auto simp: desired_statuses_ok desired_ok_def bt_lookup_reports find_Some_iff)

lemma desired_ok_filter: "desired_ok p d \<Longrightarrow> desired_ok p (filter (\<lambda>(_, s). P s) d)"
  by (auto simp: desired_ok_def bt_ok_filter bt_lookup_filter)

lemma desired_ok_entries:
  assumes "desired_ok p d"
  shows "entries (map snd d) (driver, k)
    = (if driver = spb_driver_name p then bt_lookup d k else None)"
    and "distinct (map entry_key (map snd d))"
proof -
  have all: "entry_key s = (spb_driver_name p, k)" if "(k, s) \<in> set d" for k s
  proof -
    have "bt_lookup d k = Some s"
      using that assms by (simp add: bt_lookup_def desired_ok_def bt_ok_distinct)
    with assms show ?thesis by (simp add: desired_ok_def entry_key_def)
  qed
  have "map entry_key (map snd d) = map (\<lambda>k. (spb_driver_name p, k)) (map fst d)"
    using all by auto
  moreover have "distinct (map fst d)" using assms by (simp add: desired_ok_def bt_ok_distinct)
  ultimately show "distinct (map entry_key (map snd d))"
    by (simp add: distinct_map inj_on_def)
  show "entries (map snd d) (driver, k) = (if driver = spb_driver_name p then bt_lookup d k else None)"
    using all
  proof (induction d)
    case (Cons x d)
    obtain a b where x: "x = (a, b)" by fastforce
    with Cons.prems have eb: "entry_key b = (spb_driver_name p, a)" by simp
    have "entries (map snd d) (driver, k) = (if driver = spb_driver_name p then bt_lookup d k else None)"
      using Cons by simp
    with eb x show ?case by (auto simp: bt_lookup_def)
  qed (simp add: bt_lookup_def)
qed

subsection \<open>Merging\<close>

lemma merge_one_lookup:
  "bt_lookup (merge_one p s m) k =
     (if entry_key s = (spb_driver_name p, k) then map_option (\<lambda>u. merge_status u s) (bt_lookup m k)
      else bt_lookup m k)"
  by (auto simp: merge_one_def entry_key_def bt_lookup_insert split: option.splits)

lemma merge_one_ok: "desired_ok p m \<Longrightarrow> desired_ok p (merge_one p s m)"
  by (auto simp: desired_ok_def merge_one_def bt_ok_insert bt_lookup_insert merge_status_def
      key_of_status_def split: option.splits)

lemma merge_fold_ok: "desired_ok p m \<Longrightarrow> desired_ok p (fold (merge_one p) xs m)"
  by (induction xs arbitrary: m) (auto simp: merge_one_ok)

lemma merge_fold_lookup:
  "distinct (map entry_key xs) \<Longrightarrow>
     bt_lookup (fold (merge_one p) xs m) k =
       (case entries xs (spb_driver_name p, k) of
          None \<Rightarrow> bt_lookup m k
        | Some s \<Rightarrow> map_option (\<lambda>u. merge_status u s) (bt_lookup m k))"
proof (induction xs arbitrary: m)
  case (Cons s xs)
  then show ?case
    using entries_None [of xs "entry_key s"]
    by (auto simp: merge_one_lookup split: option.splits)
qed simp

text \<open>The statuses a round works with.\<close>

definition effective :: "status_publisher \<Rightarrow> resource_claim \<Rightarrow> bool \<Rightarrow> statuses \<Rightarrow> statuses" where
  "effective p c preserve desired = (if preserve then merge_existing_fields p c desired else desired)"

lemma effective_ok: "desired_ok p d \<Longrightarrow> desired_ok p (effective p c preserve d)"
  by (simp add: effective_def merge_existing_fields_def merge_fold_ok)

lemma effective_lookup:
  assumes "distinct (map entry_key (claim_statuses c))"
  shows "bt_lookup (effective p c preserve d) k =
    (case entries (claim_statuses c) (spb_driver_name p, k) of
       Some s \<Rightarrow> map_option (\<lambda>u. if preserve then merge_status u s else u) (bt_lookup d k)
     | None \<Rightarrow> bt_lookup d k)"
  using assms
  by (simp add: effective_def merge_existing_fields_def merge_fold_lookup option.map_ident split: option.splits)

subsection \<open>The statuses of the object\<close>

lemma current_statuses_lookup:
  assumes "distinct (map entry_key (claim_statuses c))"
  shows "bt_lookup (current_statuses p c) k = entries (claim_statuses c) (spb_driver_name p, k)"
proof -
  let ?xs = "filter (\<lambda>s. as_driver s = spb_driver_name p) (claim_statuses c)"
  have "inj_on entry_key (set ?xs)" using assms by (auto simp: distinct_map intro: inj_on_subset)
  then have "inj_on key_of_status (set ?xs)" by (auto simp: inj_on_def entry_key_def)
  moreover have "distinct ?xs" using assms by (simp add: distinct_map)
  ultimately have d: "distinct (map fst (map (\<lambda>s. (key_of_status s, s)) ?xs))"
    by (simp add: distinct_map comp_def)
  have "map_of (map (\<lambda>s. (key_of_status s, s)) (filter (\<lambda>s. as_driver s = spb_driver_name p) xs)) k
      = entries xs (spb_driver_name p, k)" for xs
    by (induction xs) (auto simp: entry_key_def)
  with d show ?thesis
    by (simp add: current_statuses_def bt_collect_eq bt.lookup_collect_distinct del: map_map)
qed

lemma same_status_refl [simp]: "same_status s s"
  by (simp add: same_status_def)

lemma case_option_ex: "(case m of None \<Rightarrow> False | Some x \<Rightarrow> P x) \<longleftrightarrow> (\<exists>x. m = Some x \<and> P x)"
  by (cases m) auto

lemma statuses_are_current_iff:
  assumes "distinct (map entry_key (claim_statuses c))" "desired_ok p d"
  shows "statuses_are_current p c d \<longleftrightarrow>
    (\<forall>k s. bt_lookup d k = Some s \<longrightarrow>
       (\<exists>t. entries (claim_statuses c) (spb_driver_name p, k) = Some t \<and> same_status t s))"
proof -
  have "bt_ok d" using assms(2) by (simp add: desired_ok_def)
  then show ?thesis
    by (simp add: statuses_are_current_def current_statuses_lookup [OF assms(1)] list_all_iff Ball_def
        split_paired_All bt_mem_iff case_option_ex)
qed

subsection \<open>A round\<close>

lemma validate_allocations_ok:
  "validate_allocations p r c d = Inr u \<longleftrightarrow>
     allocated_keys p c \<noteq> [] \<and> set (map fst d) \<subseteq> set (allocated_keys p c)"
  by (auto simp: validate_allocations_def Let_def res_simps split: if_splits)

lemma status_round_send:
  "status_round p claim preserve d response = SendPatch patch \<longleftrightarrow>
     (\<exists>c. response = Inr c \<and> claim_uid c = cr_uid claim
        \<and> allocated_keys p c \<noteq> [] \<and> set (map fst d) \<subseteq> set (allocated_keys p c)
        \<and> \<not> statuses_are_current p c (effective p c preserve d)
        \<and> or_empty (cl_resource_version c) \<noteq> []
        \<and> patch = \<lparr>sp_namespace = cr_namespace claim, sp_claim = cr_name claim,
             sp_field_manager = spb_field_manager p, sp_uid = cr_uid claim,
             sp_resource_version = or_empty (cl_resource_version c),
             sp_devices = patched_devices c (effective p c preserve d)\<rparr>)"
proof (cases response)
  case (Inr c)
  show ?thesis
  proof (cases "claim_uid c = cr_uid claim")
    case True
    show ?thesis
    proof (cases "validate_allocations p claim c d")
      case (Inl e)
      then have "\<not> (allocated_keys p c \<noteq> [] \<and> set (map fst d) \<subseteq> set (allocated_keys p c))"
        using validate_allocations_ok [of p claim c d "()"] by auto
      with Inl Inr True show ?thesis by (auto simp: status_round_def)
    next
      case ok: (Inr u)
      then have "allocated_keys p c \<noteq> [] \<and> set (map fst d) \<subseteq> set (allocated_keys p c)"
        by (simp add: validate_allocations_ok)
      with ok Inr True show ?thesis
        by (cases "or_empty (cl_resource_version c)")
          (auto simp: status_round_def Let_def effective_def [symmetric])
    qed
  qed (use Inr in \<open>auto simp: status_round_def\<close>)
qed (auto simp: status_round_def)

text \<open>The object after the server applied a patch.\<close>

definition with_statuses :: "resource_claim \<Rightarrow> device_status list \<Rightarrow> resource_claim" where
  "with_statuses c devices =
     c\<lparr>cl_status := map_option (\<lambda>s. s\<lparr>st_devices := Some devices\<rparr>) (cl_status c)\<rparr>"

lemma with_statuses_simps [simp]:
  "cl_status c \<noteq> None \<Longrightarrow> claim_statuses (with_statuses c ds) = ds"
  "claim_uid (with_statuses c ds) = claim_uid c"
  "driver_results n (with_statuses c ds) = driver_results n c"
  "cl_resource_version (with_statuses c ds) = cl_resource_version c"
  by (auto simp: with_statuses_def claim_statuses_def claim_uid_def driver_results_def
      claim_results_def claim_allocation_def and_then_def split: option.splits)

lemma current_after_patch:
  assumes d: "desired_ok p d" and dist: "distinct (map entry_key (claim_statuses c))"
    and st: "cl_status c \<noteq> None"
  shows "statuses_are_current p (with_statuses c (patched_devices c (effective p c preserve d)))
    (effective p (with_statuses c (patched_devices c (effective p c preserve d))) preserve d)"
proof -
  let ?e = "effective p c preserve d"
  let ?c = "with_statuses c (patched_devices c ?e)"
  have e: "desired_ok p ?e" by (rule effective_ok [OF d])
  have cs: "claim_statuses ?c = fold upsert_status (map snd ?e) (claim_statuses c)"
    using st by (simp add: patched_devices_def)
  have dist': "distinct (map entry_key (claim_statuses ?c))"
    unfolding cs by (rule distinct_fold_upsert [OF dist])
  have entry: "entries (claim_statuses ?c) (spb_driver_name p, k)
      = (case bt_lookup ?e k of None \<Rightarrow> entries (claim_statuses c) (spb_driver_name p, k) | Some u \<Rightarrow> Some u)" for k
    unfolding cs using desired_ok_entries [OF e] by (simp add: entries_fold_upsert)
  have same: "bt_lookup (effective p ?c preserve d) k = bt_lookup ?e k" for k
    unfolding effective_lookup [OF dist'] entry
    by (auto simp: effective_lookup [OF dist] merge_status_def merge_field_def split: option.splits)
  show ?thesis
    unfolding statuses_are_current_iff [OF dist' effective_ok [OF d]] same entry by auto
qed

subsection \<open>The loop\<close>

definition retried_conflict :: "kube_error + unit \<Rightarrow> bool" where
  "retried_conflict r \<longleftrightarrow> (case r of Inl (ApiError code _ _) \<Rightarrow> code = 409 | _ \<Rightarrow> False)"

text \<open>\<open>patch\<close> was sent in a history right after the read of the object it was computed from.\<close>

definition sent_from ::
    "status_api \<Rightarrow> status_publisher \<Rightarrow> claim_ref \<Rightarrow> bool \<Rightarrow> statuses \<Rightarrow> status_request list
      \<Rightarrow> status_patch \<Rightarrow> bool" where
  "sent_from A p claim preserve d h' patch \<longleftrightarrow>
     (\<exists>h0 c. prefix (h0 @ [GetClaim (cr_namespace claim) (cr_name claim), PatchStatus patch]) h'
        \<and> sa_get A h0 (cr_namespace claim) (cr_name claim) = Inr c
        \<and> status_round p claim preserve d (Inr c) = SendPatch patch)"

definition patches :: "status_request list \<Rightarrow> status_patch list" where
  "patches h = concat (map (\<lambda>r. case r of GetClaim _ _ \<Rightarrow> [] | PatchStatus p \<Rightarrow> [p]) h)"

lemma patches_simps [simp]:
  "patches [] = []" "patches (h @ h') = patches h @ patches h'"
  "patches (GetClaim a b # h) = patches h" "patches (PatchStatus p # h) = p # patches h"
  by (simp_all add: patches_def)

lemma set_patches: "p \<in> set (patches h) \<longleftrightarrow> PatchStatus p \<in> set h"
  by (induction h) (auto simp: patches_def split: status_request.splits)

lemma publish_loop_trace:
  assumes "publish_loop A p claim preserve d k h = (r, h')"
  shows "\<exists>t. h' = h @ t \<and> length t \<le> 2 * max 1 (MAX_PATCH_ATTEMPTS - k)
    \<and> length (patches t) \<le> max 1 (MAX_PATCH_ATTEMPTS - k)
    \<and> (\<forall>patch \<in> set (patches t). sent_from A p claim preserve d h' patch)
    \<and> (r = Inr Updated \<longrightarrow> (\<exists>h0 patch. h' = h0 @ [PatchStatus patch] \<and> sa_patch A h0 patch = Inr ()))"
  using assms
proof (induction "MAX_PATCH_ATTEMPTS - k" arbitrary: k h rule: less_induct)
  case less
  let ?get = "GetClaim (cr_namespace claim) (cr_name claim)"
  let ?response = "sa_get A h (cr_namespace claim) (cr_name claim)"
  show ?case
  proof (cases "status_round p claim preserve d ?response")
    case (RoundOver result)
    then have "publish_loop A p claim preserve d k h = (result, h @ [?get])"
      by (subst publish_loop.simps) (simp add: Let_def)
    moreover have "result \<noteq> Inr Updated"
      using RoundOver by (auto simp: status_round_def Let_def split: sum.splits if_splits list.splits)
    ultimately show ?thesis using less(2) by (auto intro: exI [of _ "[?get]"])
  next
    case (SendPatch patch)
    then obtain c where c: "?response = Inr c" by (auto simp: status_round_send)
    have sent: "sent_from A p claim preserve d (h @ [?get, PatchStatus patch] @ u) patch" for u
      using SendPatch c unfolding sent_from_def by (intro exI [of _ h] exI [of _ c]) simp
    let ?answer = "sa_patch A (h @ [?get]) patch"
    show ?thesis
    proof (cases "retried_conflict ?answer \<and> k + 1 < MAX_PATCH_ATTEMPTS")
      case True
      then have step: "publish_loop A p claim preserve d k h
          = publish_loop A p claim preserve d (k + 1) (h @ [?get, PatchStatus patch])"
        using SendPatch
        by (subst publish_loop.simps)
          (auto simp: Let_def retried_conflict_def split: sum.splits kube_error.splits)
      have k: "MAX_PATCH_ATTEMPTS - (k + 1) < MAX_PATCH_ATTEMPTS - k"
        "max 1 (MAX_PATCH_ATTEMPTS - k) = Suc (max 1 (MAX_PATCH_ATTEMPTS - (k + 1)))"
        using True by (auto simp: max_def)
      obtain t where "h' = (h @ [?get, PatchStatus patch]) @ t"
          "length t \<le> 2 * max 1 (MAX_PATCH_ATTEMPTS - (k + 1))"
          "length (patches t) \<le> max 1 (MAX_PATCH_ATTEMPTS - (k + 1))"
          "\<forall>patch \<in> set (patches t). sent_from A p claim preserve d h' patch"
          "r = Inr Updated \<longrightarrow> (\<exists>h0 patch. h' = h0 @ [PatchStatus patch] \<and> sa_patch A h0 patch = Inr ())"
        using less(1) [OF k(1)] less(2) unfolding step by blast
      then show ?thesis
        using sent [of t] unfolding k(2) by (intro exI [of _ "[?get, PatchStatus patch] @ t"]) auto
    next
      case False
      have "publish_loop A p claim preserve d k h
          = ((case ?answer of Inr _ \<Rightarrow> Inr Updated | Inl error \<Rightarrow> Inl (KubernetesError error)),
             h @ [?get, PatchStatus patch])"
        using SendPatch False
        by (subst publish_loop.simps)
          (auto simp: Let_def retried_conflict_def split: sum.splits kube_error.splits)
      with less(2) have run: "r = (case ?answer of Inr _ \<Rightarrow> Inr Updated | Inl error \<Rightarrow> Inl (KubernetesError error))"
        "h' = h @ [?get, PatchStatus patch]" by simp_all
      have "r = Inr Updated \<longrightarrow> h' = (h @ [?get]) @ [PatchStatus patch] \<and> ?answer = Inr ()"
        using run by (auto split: sum.splits)
      then show ?thesis
        using sent [of "[]"] run(2) by (intro exI [of _ "[?get, PatchStatus patch]"]) auto
    qed
  qed
qed

text \<open>What a publication sends.\<close>

lemma publish_inner_cases:
  assumes "publish_inner jt A p claim ss preserve [] = (r, h)"
  shows "h = [] \<and> r \<noteq> Inr Updated
    \<or> (\<exists>d d'. desired_statuses jt p [] ss = Inr d' \<and> d \<noteq> [] \<and> desired_ok p d
        \<and> d = (if preserve then filter (\<lambda>(_, s). has_fields s) d' else d')
        \<and> publish_loop A p claim preserve d 0 [] = (r, h))"
proof (cases "desired_statuses jt p [] ss")
  case (Inl e)
  with assms show ?thesis by (auto simp: publish_inner_def)
next
  case (Inr d')
  let ?d = "if preserve then filter (\<lambda>(_, s). has_fields s) d' else d'"
  have ok: "desired_ok p ?d"
    using desired_statuses_desired_ok [OF Inr] by (simp add: desired_ok_filter)
  show ?thesis
  proof (cases "?d = []")
    case True
    with assms Inr have "h = [] \<and> r \<noteq> Inr Updated" by (auto simp: publish_inner_def Let_def)
    then show ?thesis by blast
  next
    case False
    with assms Inr have "publish_loop A p claim preserve ?d 0 [] = (r, h)"
      by (simp add: publish_inner_def Let_def del: if_split split: if_split_asm)
    then show ?thesis using Inr ok False by blast
  qed
qed

lemma publish_inner_patch:
  assumes "publish_inner jt A p claim ss preserve [] = (r, h)" "PatchStatus patch \<in> set h"
  obtains d d' h0 c where "desired_statuses jt p [] ss = Inr d'" "desired_ok p d"
    "d = (if preserve then filter (\<lambda>(_, s). has_fields s) d' else d')"
    "prefix (h0 @ [GetClaim (cr_namespace claim) (cr_name claim), PatchStatus patch]) h"
    "sa_get A h0 (cr_namespace claim) (cr_name claim) = Inr c"
    "status_round p claim preserve d (Inr c) = SendPatch patch"
proof -
  obtain d d' where d: "desired_statuses jt p [] ss = Inr d'" "desired_ok p d"
      "d = (if preserve then filter (\<lambda>(_, s). has_fields s) d' else d')"
    and loop: "publish_loop A p claim preserve d 0 [] = (r, h)"
    using publish_inner_cases [OF assms(1)] assms(2) by auto
  obtain t where "h = [] @ t" "\<forall>patch \<in> set (patches t). sent_from A p claim preserve d h patch"
    using publish_loop_trace [OF loop] by blast
  then have "sent_from A p claim preserve d h patch" using assms(2) by (simp add: set_patches)
  with d that show ?thesis unfolding sent_from_def by blast
qed

lemma report_keys:
  assumes "desired_statuses jt p [] ss = Inr d'" "bt_lookup d' k = Some s"
  shows "k \<in> status_key_of ` set ss"
  using assms by (auto simp: desired_statuses_ok bt_lookup_reports find_Some_iff)

lemma effective_keys: "bt_lookup (effective p c preserve d) k \<noteq> None \<Longrightarrow> bt_lookup d k \<noteq> None"
proof -
  have "bt_lookup (fold (merge_one p) xs m) k \<noteq> None \<Longrightarrow> bt_lookup m k \<noteq> None" for xs m
    by (induction xs arbitrary: m) (fastforce simp: merge_one_lookup split: if_splits)+
  then show "bt_lookup (effective p c preserve d) k \<noteq> None \<Longrightarrow> bt_lookup d k \<noteq> None"
    by (simp add: effective_def merge_existing_fields_def split: if_splits)
qed

subsection \<open>An example\<close>

definition demo_publisher :: status_publisher where
  "demo_publisher = \<lparr>spb_driver_name = ''d.io'', spb_field_manager = FIELD_MANAGER\<rparr>"

definition demo_ref :: claim_ref where "demo_ref = ClaimRef ''default'' ''u1'' ''claim''"

definition demo_report :: claim_device_status where
  "demo_report = (claim_device_status_new ''pool'' ''w0'')\<lparr>ds_data := Some (JBool True)\<rparr>"

definition foreign_status :: device_status where
  "foreign_status = \<lparr>as_driver = ''other.io'', as_pool = ''pool'', as_device = ''w0'', as_share_id = None,
     as_conditions = Some [\<lparr>cn_type = ''Ready'', cn_status = ''True'', cn_observed_generation = None,
       cn_reason = ''Up'', cn_message = ''up'', cn_last_transition_time = 1\<rparr>], as_data = None, as_network_data = None\<rparr>"

definition own_status :: device_status where
  "own_status = foreign_status\<lparr>as_driver := ''d.io''\<rparr>"

definition demo_object :: resource_claim where
  "demo_object = with_statuses (sample_claim ''u1'' [sample_result ''d.io'' ''w0'']) [foreign_status, own_status]"

text \<open>The first patch meets a conflict.\<close>

definition demo_api :: status_api where
  "demo_api = \<lparr>sa_get = \<lambda>h ns n. Inr demo_object,
     sa_patch = \<lambda>h patch. if length h < 2 then Inl (ApiError 409 [] []) else Inr ()\<rparr>"

definition demo_json :: "json \<Rightarrow> string + string" where "demo_json j = Inr ''true''"

lemmas demo_defs = demo_publisher_def demo_ref_def demo_report_def foreign_status_def own_status_def
  demo_object_def demo_api_def demo_json_def sample_claim_def sample_result_def

definition demo_patch :: status_patch where
  "demo_patch = \<lparr>sp_namespace = ''default'', sp_claim = ''claim'', sp_field_manager = FIELD_MANAGER,
     sp_uid = ''u1'', sp_resource_version = ''1'',
     sp_devices = [foreign_status, own_status\<lparr>as_data := Some (JBool True)\<rparr>]\<rparr>"

definition demo_history :: "status_request list" where
  "demo_history = [GetClaim ''default'' ''claim'', PatchStatus demo_patch,
     GetClaim ''default'' ''claim'', PatchStatus demo_patch]"

lemma demo_run:
  "publish_inner demo_json demo_api demo_publisher demo_ref [demo_report] True [] = (Inr Updated, demo_history)"
  by code_simp

lemma demo_desired: "desired_statuses demo_json demo_publisher [] [demo_report]
    = Inr [(StatusKey ''pool'' ''w0'' None, report_entry ''d.io'' demo_report)]"
  by code_simp

subsection \<open>Properties\<close>

text \<open>
  C20: a report is accepted exactly when no device is reported twice, no device has more than eight
  conditions and the data of each serialises within 10 KiB; then it is, by key, the entries of this
  driver.
\<close>
theorem reports_accepted:
  "desired_statuses jt p [] ss = Inr d \<longleftrightarrow>
     distinct (map status_key_of ss)
     \<and> list_all (\<lambda>s. (case ds_conditions s of None \<Rightarrow> True | Some cs \<Rightarrow> length cs \<le> 8)
         \<and> (case ds_data s of None \<Rightarrow> True
            | Some data \<Rightarrow> (case jt data of Inl _ \<Rightarrow> False | Inr raw \<Rightarrow> length raw \<le> 10240))) ss
     \<and> d = bt_collect (map (\<lambda>s. (status_key_of s,
         \<lparr>as_driver = spb_driver_name p, as_pool = ds_pool_name s, as_device = ds_device_name s,
          as_share_id = ds_share_id s, as_conditions = ds_conditions s, as_data = ds_data s,
          as_network_data = ds_network_data s\<rparr>)) ss)"
  unfolding desired_statuses_ok report_ok_def report_pair_def report_entry_def by (rule refl)

text \<open>
  C17: every patch of a publication is sent right after a read of the claim and is conditional on the
  UID of the reference and on the resource version that was read; in the devices it writes, the
  entries of other drivers and the entries that were not reported are those that were read.
\<close>
theorem patch_preserves_others:
  assumes "PatchStatus patch \<in> set (snd (publish_inner jt A p claim ss preserve []))"
  shows "\<exists>h0 c. prefix (h0 @ [GetClaim (cr_namespace claim) (cr_name claim), PatchStatus patch])
        (snd (publish_inner jt A p claim ss preserve []))
    \<and> sa_get A h0 (cr_namespace claim) (cr_name claim) = Inr c
    \<and> claim_uid c = cr_uid claim \<and> sp_uid patch = cr_uid claim
    \<and> cl_resource_version c = Some (sp_resource_version patch) \<and> sp_resource_version patch \<noteq> []
    \<and> filter (\<lambda>s. as_driver s \<noteq> spb_driver_name p \<or> key_of_status s \<notin> status_key_of ` set ss) (sp_devices patch)
      = filter (\<lambda>s. as_driver s \<noteq> spb_driver_name p \<or> key_of_status s \<notin> status_key_of ` set ss) (claim_statuses c)"
proof -
  obtain r h where run: "publish_inner jt A p claim ss preserve [] = (r, h)" by fastforce
  with assms have "PatchStatus patch \<in> set h" by simp
  then obtain d d' h0 c where d: "desired_statuses jt p [] ss = Inr d'" "desired_ok p d"
      "d = (if preserve then filter (\<lambda>(_, s). has_fields s) d' else d')"
    and at: "prefix (h0 @ [GetClaim (cr_namespace claim) (cr_name claim), PatchStatus patch]) h"
      "sa_get A h0 (cr_namespace claim) (cr_name claim) = Inr c"
    and send: "status_round p claim preserve d (Inr c) = SendPatch patch"
    by (rule publish_inner_patch [OF run])
  have send': "claim_uid c = cr_uid claim" "or_empty (cl_resource_version c) \<noteq> []"
      "patch = \<lparr>sp_namespace = cr_namespace claim, sp_claim = cr_name claim,
             sp_field_manager = spb_field_manager p, sp_uid = cr_uid claim,
             sp_resource_version = or_empty (cl_resource_version c),
             sp_devices = patched_devices c (effective p c preserve d)\<rparr>"
    using send by (auto simp: status_round_send)
  have reported: "as_driver s = spb_driver_name p \<and> key_of_status s \<in> status_key_of ` set ss"
    if "u \<in> set (map snd (effective p c preserve d))" "entry_key s = entry_key u" for s u
  proof -
    from that(1) obtain k where k: "(k, u) \<in> set (effective p c preserve d)" by auto
    have e: "desired_ok p (effective p c preserve d)" by (rule effective_ok [OF d(2)])
    with k have u: "bt_lookup (effective p c preserve d) k = Some u" by (simp add: desired_ok_def bt_mem_iff)
    then obtain s' where "bt_lookup d k = Some s'" using effective_keys [of p c preserve d k] by auto
    moreover have "bt_ok d'" using desired_statuses_desired_ok [OF d(1)] by (simp add: desired_ok_def)
    ultimately have "bt_lookup d' k = Some s'"
      unfolding d(3) by (auto simp: bt_lookup_filter split: if_splits)
    then have "k \<in> status_key_of ` set ss" by (rule report_keys [OF d(1)])
    with u e that(2) show ?thesis by (auto simp: desired_ok_def entry_key_def)
  qed
  have "filter (\<lambda>s. as_driver s \<noteq> spb_driver_name p \<or> key_of_status s \<notin> status_key_of ` set ss)
      (patched_devices c (effective p c preserve d))
    = filter (\<lambda>s. as_driver s \<noteq> spb_driver_name p \<or> key_of_status s \<notin> status_key_of ` set ss) (claim_statuses c)"
    unfolding patched_devices_def by (rule filter_fold_upsert) (use reported in blast)
  moreover have "cl_resource_version c = Some (or_empty (cl_resource_version c))"
    using send'(2) by (cases "cl_resource_version c") auto
  ultimately show ?thesis
    using at send' by (intro exI [of _ h0] exI [of _ c]) (simp add: run)
qed

theorem patch_preserves_others_witness:
  "\<exists>h0 c. prefix (h0 @ [GetClaim ''default'' ''claim'', PatchStatus demo_patch]) demo_history
    \<and> sa_get demo_api h0 ''default'' ''claim'' = Inr c
    \<and> claim_uid c = ''u1'' \<and> sp_uid demo_patch = ''u1''
    \<and> cl_resource_version c = Some (sp_resource_version demo_patch) \<and> sp_resource_version demo_patch \<noteq> []
    \<and> filter (\<lambda>s. as_driver s \<noteq> ''d.io'' \<or> key_of_status s \<notin> status_key_of ` set [demo_report]) (sp_devices demo_patch)
      = filter (\<lambda>s. as_driver s \<noteq> ''d.io'' \<or> key_of_status s \<notin> status_key_of ` set [demo_report]) (claim_statuses c)"
proof -
  have "PatchStatus demo_patch \<in> set (snd (publish_inner demo_json demo_api demo_publisher demo_ref [demo_report] True []))"
    by (simp add: demo_run demo_history_def)
  from patch_preserves_others [OF this] show ?thesis
    by (simp add: demo_run) (simp add: demo_ref_def demo_publisher_def)
qed

text \<open>The entry of a report, over the entry that was read.\<close>

definition expected_entry ::
    "string \<Rightarrow> bool \<Rightarrow> device_status list \<Rightarrow> claim_device_status \<Rightarrow> device_status" where
  "expected_entry driver preserve statuses s =
     (let read = List.find (\<lambda>t. as_driver t = driver \<and> key_of_status t = status_key_of s) statuses
      in \<lparr>as_driver = driver, as_pool = ds_pool_name s, as_device = ds_device_name s,
          as_share_id = ds_share_id s,
          as_conditions = (if preserve \<and> ds_conditions s = None then and_then read as_conditions
                           else ds_conditions s),
          as_data = (if preserve \<and> ds_data s = None then and_then read as_data else ds_data s),
          as_network_data = (if preserve \<and> ds_network_data s = None then and_then read as_network_data
                             else ds_network_data s)\<rparr>)"

lemma entries_find:
  "entries xs (driver, k) = List.find (\<lambda>t. as_driver t = driver \<and> key_of_status t = k) xs"
  by (induction xs) (auto simp: entry_key_def)

lemma effective_report:
  assumes "distinct (map entry_key (claim_statuses c))" "bt_lookup d (status_key_of s) = Some (report_entry (spb_driver_name p) s)"
  shows "bt_lookup (effective p c preserve d) (status_key_of s)
    = Some (expected_entry (spb_driver_name p) preserve (claim_statuses c) s)"
  unfolding effective_lookup [OF assms(1)] entries_find assms(2)
  by (auto simp: expected_entry_def report_entry_def merge_status_def merge_field_def Let_def
      split: option.splits)

lemma report_lookup:
  assumes "desired_statuses jt p [] ss = Inr d" "s \<in> set ss"
  shows "bt_lookup d (status_key_of s) = Some (report_entry (spb_driver_name p) s)"
proof -
  have "distinct (map status_key_of ss)" using assms(1) by (simp add: desired_statuses_ok)
  then have "List.find (\<lambda>t. status_key_of t = status_key_of s) ss = Some s"
    using assms(2) by (induction ss) (auto simp: rev_image_eqI)
  with assms(1) show ?thesis by (auto simp: desired_statuses_ok bt_lookup_reports)
qed

text \<open>
  C18: the devices a patch writes hold an entry for every reported device, which is allocated to this
  driver: with \<open>publish\<close> as it was reported, with \<open>publish_fields\<close> with the fields that were not
  reported as they were read. The hypothesis on the objects is the API's: one entry for each key.
\<close>
theorem patch_writes_reports:
  assumes "PatchStatus patch \<in> set (snd (publish_inner jt A p claim ss preserve []))"
    and "s \<in> set ss"
    and "ds_conditions s \<noteq> None \<or> ds_data s \<noteq> None \<or> ds_network_data s \<noteq> None \<or> \<not> preserve"
    and "\<And>h c. sa_get A h (cr_namespace claim) (cr_name claim) = Inr c \<Longrightarrow>
      distinct (map (\<lambda>t. (as_driver t, key_of_status t)) (claim_statuses c))"
  shows "\<exists>h0 c. prefix (h0 @ [GetClaim (cr_namespace claim) (cr_name claim), PatchStatus patch])
        (snd (publish_inner jt A p claim ss preserve []))
    \<and> sa_get A h0 (cr_namespace claim) (cr_name claim) = Inr c
    \<and> status_key_of s \<in> set (allocated_keys p c)
    \<and> expected_entry (spb_driver_name p) preserve (claim_statuses c) s \<in> set (sp_devices patch)"
proof -
  obtain r h where run: "publish_inner jt A p claim ss preserve [] = (r, h)" by fastforce
  with assms(1) have "PatchStatus patch \<in> set h" by simp
  then obtain d d' h0 c where d: "desired_statuses jt p [] ss = Inr d'" "desired_ok p d"
      "d = (if preserve then filter (\<lambda>(_, s). has_fields s) d' else d')"
    and at: "prefix (h0 @ [GetClaim (cr_namespace claim) (cr_name claim), PatchStatus patch]) h"
      "sa_get A h0 (cr_namespace claim) (cr_name claim) = Inr c"
    and send: "status_round p claim preserve d (Inr c) = SendPatch patch"
    by (rule publish_inner_patch [OF run])
  have dist: "distinct (map entry_key (claim_statuses c))"
    using assms(4) [OF at(2)] unfolding entry_key_fun .
  have "bt_ok d'" using desired_statuses_desired_ok [OF d(1)] by (simp add: desired_ok_def)
  then have look: "bt_lookup d (status_key_of s) = Some (report_entry (spb_driver_name p) s)"
    using report_lookup [OF d(1) assms(2)] assms(3) unfolding d(3)
    by (auto simp: bt_lookup_filter has_fields_def report_entry_def)
  then have "status_key_of s \<in> set (map fst d)" using bt_lookup_in by force
  with send have alloc: "status_key_of s \<in> set (allocated_keys p c)" by (auto simp: status_round_send)
  let ?e = "expected_entry (spb_driver_name p) preserve (claim_statuses c) s"
  have "entries (map snd (effective p c preserve d)) (spb_driver_name p, status_key_of s) = Some ?e"
    using desired_ok_entries(1) [OF effective_ok [OF d(2)]] effective_report [OF dist look] by simp
  then have "entries (patched_devices c (effective p c preserve d)) (spb_driver_name p, status_key_of s) = Some ?e"
    unfolding patched_devices_def
    using entries_fold_upsert [OF desired_ok_entries(2) [OF effective_ok [OF d(2)]]] by simp
  then have "?e \<in> set (patched_devices c (effective p c preserve d))" using entries_key by blast
  then have "?e \<in> set (sp_devices patch)" using send by (auto simp: status_round_send)
  with at alloc show ?thesis by (intro exI [of _ h0] exI [of _ c]) (simp add: run)
qed

theorem patch_writes_reports_witness:
  "\<exists>h0 c. prefix (h0 @ [GetClaim ''default'' ''claim'', PatchStatus demo_patch]) demo_history
    \<and> sa_get demo_api h0 ''default'' ''claim'' = Inr c
    \<and> status_key_of demo_report \<in> set (allocated_keys demo_publisher c)
    \<and> expected_entry ''d.io'' True (claim_statuses c) demo_report \<in> set (sp_devices demo_patch)"
proof -
  have patch: "PatchStatus demo_patch \<in> set (snd (publish_inner demo_json demo_api demo_publisher demo_ref [demo_report] True []))"
    by (simp add: demo_run demo_history_def)
  have "\<exists>h0 c. prefix (h0 @ [GetClaim (cr_namespace demo_ref) (cr_name demo_ref), PatchStatus demo_patch])
        (snd (publish_inner demo_json demo_api demo_publisher demo_ref [demo_report] True []))
    \<and> sa_get demo_api h0 (cr_namespace demo_ref) (cr_name demo_ref) = Inr c
    \<and> status_key_of demo_report \<in> set (allocated_keys demo_publisher c)
    \<and> expected_entry (spb_driver_name demo_publisher) True (claim_statuses c) demo_report \<in> set (sp_devices demo_patch)"
    by (rule patch_writes_reports [OF patch])
      (auto simp: demo_defs claim_device_status_new_def with_statuses_def claim_statuses_def)
  then show ?thesis by (simp add: demo_run) (simp add: demo_ref_def demo_publisher_def)
qed

text \<open>
  C19: once the server has applied a patch, whatever resource version it then gives the object,
  publishing the same report again finds nothing to do.
\<close>
theorem republish_unchanged:
  assumes "status_round p claim preserve d (Inr c) = SendPatch patch"
    and "desired_statuses jt p [] ss = Inr d'"
    and "d = (if preserve then filter (\<lambda>(_, s). has_fields s) d' else d')"
    and "distinct (map (\<lambda>t. (as_driver t, key_of_status t)) (claim_statuses c))"
  shows "status_round p claim preserve d
      (Inr ((with_statuses c (sp_devices patch))\<lparr>cl_resource_version := version\<rparr>))
    = RoundOver (Inr Unchanged)"
proof -
  let ?c = "with_statuses c (sp_devices patch)"
  let ?v = "?c\<lparr>cl_resource_version := version\<rparr>"
  have d: "desired_ok p d"
    using desired_statuses_desired_ok [OF assms(2)] assms(3) by (simp add: desired_ok_filter)
  have dist: "distinct (map entry_key (claim_statuses c))" using assms(4) unfolding entry_key_fun .
  have send: "claim_uid c = cr_uid claim" "allocated_keys p c \<noteq> []"
      "set (map fst d) \<subseteq> set (allocated_keys p c)"
      "sp_devices patch = patched_devices c (effective p c preserve d)"
    using assms(1) by (auto simp: status_round_send)
  have st: "cl_status c \<noteq> None"
    using send(2) by (cases "cl_status c")
      (auto simp: allocated_keys_def driver_results_def claim_results_def claim_allocation_def)
  have same: "claim_uid ?v = claim_uid ?c" "allocated_keys p ?v = allocated_keys p c"
      "claim_statuses ?v = claim_statuses ?c"
    by (simp_all add: claim_uid_def allocated_keys_def driver_results_def claim_results_def
        claim_allocation_def claim_statuses_def with_statuses_def and_then_def split: option.splits)
  have "statuses_are_current p ?v (effective p ?v preserve d)
      = statuses_are_current p ?c (effective p ?c preserve d)"
    by (simp add: statuses_are_current_def current_statuses_def effective_def merge_existing_fields_def same)
  also have "\<dots>" unfolding send(4) by (rule current_after_patch [OF d dist st])
  finally have current: "statuses_are_current p ?v (effective p ?v preserve d)" .
  have "validate_allocations p claim ?v d = Inr ()"
    using send(2,3) by (simp add: validate_allocations_ok same)
  with current show ?thesis
    using send(1) by (simp add: status_round_def same Let_def effective_def)
qed

theorem republish_unchanged_witness:
  "status_round demo_publisher demo_ref True
      [(StatusKey ''pool'' ''w0'' None, report_entry ''d.io'' demo_report)]
      (Inr ((with_statuses demo_object (sp_devices demo_patch))\<lparr>cl_resource_version := Some ''2''\<rparr>))
    = RoundOver (Inr Unchanged)"
  by (rule republish_unchanged [where jt = demo_json and ss = "[demo_report]" and c = demo_object and patch = demo_patch,
        OF _ demo_desired])
    code_simp+

text \<open>
  A publication ends after at most three reads and three patches, and it reports an update only
  when its last request is a patch that the server accepted.
\<close>
theorem publish_bounded:
  assumes "publish_inner jt A p claim ss preserve [] = (r, h)"
  shows "length h \<le> 6 \<and> length (patches h) \<le> 3
    \<and> (r = Inr Updated \<longrightarrow> (\<exists>h0 patch. h = h0 @ [PatchStatus patch] \<and> sa_patch A h0 patch = Inr ()))"
  using publish_inner_cases [OF assms]
proof (elim disjE exE conjE)
  fix d assume "publish_loop A p claim preserve d 0 [] = (r, h)"
  from publish_loop_trace [OF this] show ?thesis by (auto simp: MAX_PATCH_ATTEMPTS_def)
qed simp

end
