(* ===== verification/Claim_Locks.thy ===== *)
theory Claim_Locks
  imports Rust_BTree Inventory
begin

text \<open>
  \<open>MetadataRuntime::lock_claims\<close> of \<open>dra/src/metadata.rs\<close>: the registry of weak references to one mutex
  per claim, and the tasks of concurrent calls that take their mutexes one after the other, as a
  step relation. A task is cancelled only while it waits; its guards are dropped one by one.
\<close>

subsection \<open>State\<close>

text \<open>A reference to a mutex, with the claim it was looked up for.\<close>

type_synonym handle = "string \<times> nat"

record lock_task =
  tk_todo :: "string list" \<comment> \<open>the identifiers left to lock\<close>
  tk_wait :: "handle option" \<comment> \<open>the mutex that the task waits for\<close>
  tk_guards :: "handle list"

record lock_state =
  ls_registry :: "(string, nat) btree" \<comment> \<open>\<open>locks\<close>, of weak references\<close>
  ls_next :: nat \<comment> \<open>the next mutex to be allocated\<close>
  ls_tasks :: "lock_task list"

definition handles :: "lock_task \<Rightarrow> handle list" where
  "handles t = tk_guards t @ (case tk_wait t of None \<Rightarrow> [] | Some h \<Rightarrow> [h])"

text \<open>\<open>strong_count() > 0\<close>\<close>

definition live :: "lock_state \<Rightarrow> nat \<Rightarrow> bool" where
  "live s m \<longleftrightarrow> list_ex (\<lambda>t. list_ex (\<lambda>h. snd h = m) (handles t)) (ls_tasks s)"

definition owned :: "lock_state \<Rightarrow> nat \<Rightarrow> bool" where
  "owned s m \<longleftrightarrow> list_ex (\<lambda>t. list_ex (\<lambda>h. snd h = m) (tk_guards t)) (ls_tasks s)"

subsection \<open>Operations\<close>

definition lock_ids :: "claim_ref list \<Rightarrow> string list" where
  "lock_ids claims = sorted_list_of_set (set (map cr_uid claims))"

definition lookup_mutex :: "string \<Rightarrow> lock_state \<Rightarrow> nat \<times> lock_state" where
  "lookup_mutex uid s =
     (let locks = filter (\<lambda>(_, m). live s m) (ls_registry s)
      in case bt_lookup locks uid of
           Some mutex \<Rightarrow> (mutex, s\<lparr>ls_registry := locks\<rparr>)
         | None \<Rightarrow>
             (ls_next s, s\<lparr>ls_registry := bt_insert uid (ls_next s) locks, ls_next := ls_next s + 1\<rparr>))"

definition set_task :: "nat \<Rightarrow> lock_task \<Rightarrow> lock_state \<Rightarrow> lock_state" where
  "set_task i t s = s\<lparr>ls_tasks := (ls_tasks s)[i := t]\<rparr>"

datatype lock_event = FindMutex nat | LockMutex nat | is_cancel: CancelWait nat | DropGuard nat

inductive lock_step :: "lock_state \<Rightarrow> lock_event \<Rightarrow> lock_state \<Rightarrow> bool" where
  find_mutex: "i < length (ls_tasks s) \<Longrightarrow> t = ls_tasks s ! i \<Longrightarrow> tk_wait t = None \<Longrightarrow> tk_todo t = uid # todo \<Longrightarrow>
     lookup_mutex uid s = (m, s') \<Longrightarrow>
     lock_step s (FindMutex i) (set_task i (t\<lparr>tk_todo := todo, tk_wait := Some (uid, m)\<rparr>) s')"
| lock_mutex: "i < length (ls_tasks s) \<Longrightarrow> t = ls_tasks s ! i \<Longrightarrow> tk_wait t = Some (uid, m) \<Longrightarrow> \<not> owned s m \<Longrightarrow>
     lock_step s (LockMutex i) (set_task i (t\<lparr>tk_wait := None, tk_guards := tk_guards t @ [(uid, m)]\<rparr>) s)"
| cancel_wait: "i < length (ls_tasks s) \<Longrightarrow> t = ls_tasks s ! i \<Longrightarrow> tk_wait t = Some h \<Longrightarrow>
     lock_step s (CancelWait i) (set_task i (t\<lparr>tk_todo := [], tk_wait := None\<rparr>) s)"
| drop_guard: "i < length (ls_tasks s) \<Longrightarrow> t = ls_tasks s ! i \<Longrightarrow> tk_wait t = None \<Longrightarrow> tk_todo t = [] \<Longrightarrow>
     tk_guards t = h # guards \<Longrightarrow> lock_step s (DropGuard i) (set_task i (t\<lparr>tk_guards := guards\<rparr>) s)"

inductive_cases lock_stepE: "lock_step s e s'"

text \<open>The calls, each about to lock the claims of its request.\<close>

definition lock_start :: "claim_ref list list \<Rightarrow> lock_state" where
  "lock_start calls =
     \<lparr>ls_registry = [], ls_next = 0,
      ls_tasks = map (\<lambda>claims. \<lparr>tk_todo = lock_ids claims, tk_wait = None, tk_guards = []\<rparr>) calls\<rparr>"

inductive lock_reachable :: "claim_ref list list \<Rightarrow> lock_state \<Rightarrow> bool" for calls where
  start: "lock_reachable calls (lock_start calls)"
| step: "lock_reachable calls s \<Longrightarrow> lock_step s e s' \<Longrightarrow> lock_reachable calls s'"

definition task_over :: "lock_task \<Rightarrow> bool" where
  "task_over t \<longleftrightarrow> tk_todo t = [] \<and> tk_wait t = None \<and> tk_guards t = []"

definition locks_over :: "lock_state \<Rightarrow> bool" where
  "locks_over s \<longleftrightarrow> list_all task_over (ls_tasks s)"

subsection \<open>The invariant\<close>

text \<open>Every task takes its mutexes in increasing order of the identifiers.\<close>

definition task_sorted :: "lock_task \<Rightarrow> bool" where
  "task_sorted t \<longleftrightarrow> sorted_wrt (<) (map fst (handles t) @ tk_todo t)"

text \<open>The registry has the mutex of every handle, under its claim, and no mutex twice.\<close>

definition registry_ok :: "lock_state \<Rightarrow> bool" where
  "registry_ok s \<longleftrightarrow>
     bt_ok (ls_registry s)
     \<and> (\<forall>t uid m. t \<in> set (ls_tasks s) \<longrightarrow> (uid, m) \<in> set (handles t) \<longrightarrow> bt_lookup (ls_registry s) uid = Some m)
     \<and> (\<forall>uid m. bt_lookup (ls_registry s) uid = Some m \<longrightarrow> m < ls_next s)
     \<and> (\<forall>uid uid' m. bt_lookup (ls_registry s) uid = Some m \<longrightarrow> bt_lookup (ls_registry s) uid' = Some m \<longrightarrow> uid = uid')"

definition exclusive :: "lock_state \<Rightarrow> bool" where
  "exclusive s \<longleftrightarrow> (\<forall>i j m. i < length (ls_tasks s) \<longrightarrow> j < length (ls_tasks s) \<longrightarrow>
     m \<in> snd ` set (tk_guards (ls_tasks s ! i)) \<longrightarrow> m \<in> snd ` set (tk_guards (ls_tasks s ! j)) \<longrightarrow> i = j)"

definition lock_inv :: "lock_state \<Rightarrow> bool" where
  "lock_inv s \<longleftrightarrow> list_all task_sorted (ls_tasks s) \<and> registry_ok s \<and> exclusive s"

lemma registry_handle:
  "registry_ok s \<Longrightarrow> t \<in> set (ls_tasks s) \<Longrightarrow> (uid, m) \<in> set (handles t) \<Longrightarrow> bt_lookup (ls_registry s) uid = Some m"
  unfolding registry_ok_def by blast

lemma live_iff: "live s m \<longleftrightarrow> (\<exists>t \<in> set (ls_tasks s). \<exists>uid. (uid, m) \<in> set (handles t))"
  by (force simp: live_def list_ex_iff)

lemma owned_iff: "owned s m \<longleftrightarrow> (\<exists>i < length (ls_tasks s). m \<in> snd ` set (tk_guards (ls_tasks s ! i)))"
  by (force simp: owned_def list_ex_iff in_set_conv_nth)

lemma lookup_mutex_tasks: "lookup_mutex uid s = (m, s') \<Longrightarrow> ls_tasks s' = ls_tasks s"
  by (auto simp: lookup_mutex_def Let_def split: option.splits)

text \<open>The registry after the lookup: the live entries and the one looked up.\<close>

lemma lookup_mutex_registry:
  assumes "registry_ok s" "lookup_mutex uid s = (m, s')"
  shows "registry_ok s'" "bt_lookup (ls_registry s') uid = Some m" "ls_next s \<le> ls_next s'"
proof -
  let ?live = "filter (\<lambda>(_, m). live s m) (ls_registry s)"
  have ok: "bt_ok (ls_registry s)" using assms(1) by (simp add: registry_ok_def)
  have look: "bt_lookup ?live k = Some n \<longleftrightarrow> bt_lookup (ls_registry s) k = Some n \<and> live s n" for k n
    by (rule bt_lookup_filter [OF ok])
  have kept: "bt_lookup ?live k = Some n" if "t \<in> set (ls_tasks s)" "(k, n) \<in> set (handles t)" for t k n
  proof -
    have "live s n" using that by (auto simp: live_iff)
    then show ?thesis using assms(1) that unfolding look registry_ok_def by blast
  qed
  have old: "bt_lookup ?live k = Some n \<Longrightarrow> n < ls_next s"
      "bt_lookup ?live k = Some n \<Longrightarrow> bt_lookup ?live k' = Some n \<Longrightarrow> k = k'" for k k' n
    using assms(1) unfolding look registry_ok_def by auto
  have lv: "bt_ok ?live" by (rule bt_ok_filter [OF ok])
  show "registry_ok s'" "bt_lookup (ls_registry s') uid = Some m" "ls_next s \<le> ls_next s'"
  proof (atomize (full), cases "bt_lookup ?live uid")
    case (Some n)
    with assms(2) have "m = n" "s' = s\<lparr>ls_registry := ?live\<rparr>" by (auto simp: lookup_mutex_def Let_def)
    with Some kept old lv show "registry_ok s' \<and> bt_lookup (ls_registry s') uid = Some m \<and> ls_next s \<le> ls_next s'"
      unfolding registry_ok_def by fastforce
  next
    case None
    with assms(2) have s': "m = ls_next s"
        "s' = s\<lparr>ls_registry := bt_insert uid (ls_next s) ?live, ls_next := ls_next s + 1\<rparr>"
      by (auto simp: lookup_mutex_def Let_def)
    have reg: "bt_lookup (ls_registry s') k = (if k = uid then Some m else bt_lookup ?live k)" for k
      by (simp add: s' bt_lookup_insert)
    have other: "ls_tasks s' = ls_tasks s" "ls_next s' = ls_next s + 1" by (simp_all add: s'(2))
    have "bt_lookup (ls_registry s') k = Some n" if "t \<in> set (ls_tasks s')" "(k, n) \<in> set (handles t)" for t k n
      using kept [of t k n] that None unfolding reg other(1) by auto
    moreover have "n < ls_next s'" if "bt_lookup (ls_registry s') k = Some n" for k n
      using that old(1) [of k n] s'(1) unfolding reg other(2) by (simp split: if_splits)
    moreover have "k = k'" if "bt_lookup (ls_registry s') k = Some n" "bt_lookup (ls_registry s') k' = Some n" for k k' n
      using that old(1) [of k n] old(1) [of k' n] old(2) [of k n k'] s'(1) unfolding reg by (simp split: if_splits)
    moreover have "bt_ok (ls_registry s')" by (simp add: s' bt_ok_insert lv)
    moreover have "ls_next s \<le> ls_next s'" by (simp add: s')
    ultimately show "registry_ok s' \<and> bt_lookup (ls_registry s') uid = Some m \<and> ls_next s \<le> ls_next s'"
      using reg [of uid] unfolding registry_ok_def by simp
  qed
qed

subsection \<open>Every step keeps it\<close>

lemma set_task_tasks [simp]: "ls_tasks (set_task i t s) = (ls_tasks s)[i := t]"
  "ls_registry (set_task i t s) = ls_registry s" "ls_next (set_task i t s) = ls_next s"
  by (simp_all add: set_task_def)

text \<open>A task may be replaced by one that is sorted, with handles in the registry and guards of its own.\<close>

lemma set_task_inv:
  assumes "lock_inv s" "i < length (ls_tasks s)" "task_sorted t"
    and "\<And>uid m. (uid, m) \<in> set (handles t) \<Longrightarrow> bt_lookup (ls_registry s) uid = Some m"
    and "\<And>m. m \<in> snd ` set (tk_guards t) \<Longrightarrow> m \<in> snd ` set (tk_guards (ls_tasks s ! i)) \<or> \<not> owned s m"
  shows "lock_inv (set_task i t s)"
proof -
  have tasks: "u = t \<or> u \<in> set (ls_tasks s)" if "u \<in> set ((ls_tasks s)[i := t])" for u
    using that set_update_subset_insert [of "ls_tasks s" i t] by auto
  have "list_all task_sorted ((ls_tasks s)[i := t])"
    using assms(1,3) tasks by (auto simp: lock_inv_def list_all_iff)
  moreover have "registry_ok (set_task i t s)"
  proof -
    have "bt_lookup (ls_registry s) uid = Some m"
      if "u \<in> set ((ls_tasks s)[i := t])" "(uid, m) \<in> set (handles u)" for u uid m
      using tasks [OF that(1)] that(2) assms(1,4) registry_handle [of s u uid m] by (auto simp: lock_inv_def)
    then show ?thesis
      using assms(1) unfolding lock_inv_def registry_ok_def set_task_tasks by blast
  qed
  moreover have "exclusive (set_task i t s)"
    unfolding exclusive_def
  proof (intro allI impI)
    fix j k m
    assume jk: "j < length (ls_tasks (set_task i t s))" "k < length (ls_tasks (set_task i t s))"
      "m \<in> snd ` set (tk_guards (ls_tasks (set_task i t s) ! j))"
      "m \<in> snd ` set (tk_guards (ls_tasks (set_task i t s) ! k))"
    have old: "j = k" if "j < length (ls_tasks s)" "k < length (ls_tasks s)"
        "m \<in> snd ` set (tk_guards (ls_tasks s ! j))" "m \<in> snd ` set (tk_guards (ls_tasks s ! k))" for j k
      using assms(1) that unfolding lock_inv_def exclusive_def by blast
    have mine: "m \<in> snd ` set (tk_guards (ls_tasks s ! i))"
      if "m \<in> snd ` set (tk_guards t)" "j < length (ls_tasks s)" "m \<in> snd ` set (tk_guards (ls_tasks s ! j))" for j
      using assms(5) [OF that(1)] that by (auto simp: owned_iff)
    show "j = k"
    proof -
      have at: "n < length (ls_tasks s)" "n = i \<Longrightarrow> m \<in> snd ` set (tk_guards t)"
          "n \<noteq> i \<Longrightarrow> m \<in> snd ` set (tk_guards (ls_tasks s ! n))" if "n = j \<or> n = k" for n
        using that jk by (auto simp: nth_list_update)
      have i: "n = i" if n: "n = j \<or> n = k" and mt: "m \<in> snd ` set (tk_guards t)" for n
      proof (rule ccontr)
        assume "n \<noteq> i"
        with at [OF n] have "m \<in> snd ` set (tk_guards (ls_tasks s ! n))" "n < length (ls_tasks s)" by blast+
        with mine [OF mt] old assms(2) \<open>n \<noteq> i\<close> show False by blast
      qed
      show "j = k"
      proof (cases "j = i \<or> k = i")
        case True
        then have "m \<in> snd ` set (tk_guards t)" using at(2) by blast
        then show ?thesis using i by blast
      next
        case False
        then have "j \<noteq> i" "k \<noteq> i" by simp_all
        then show ?thesis by (intro old at) simp_all
      qed
    qed
  qed
  ultimately show ?thesis by (simp add: lock_inv_def)
qed

lemma handles_simps [simp]:
  "handles (t\<lparr>tk_todo := xs\<rparr>) = handles t"
  "tk_wait t = None \<Longrightarrow> handles t = tk_guards t"
  "tk_wait t = Some h \<Longrightarrow> handles t = tk_guards t @ [h]"
  by (simp_all add: handles_def)

lemma lock_inv_task:
  assumes "lock_inv s" "i < length (ls_tasks s)"
  shows "task_sorted (ls_tasks s ! i)"
    and "(uid, m) \<in> set (handles (ls_tasks s ! i)) \<Longrightarrow> bt_lookup (ls_registry s) uid = Some m"
  using assms registry_handle [of s "ls_tasks s ! i" uid m] by (simp_all add: lock_inv_def list_all_iff)

lemma lookup_mutex_inv:
  "lock_inv s \<Longrightarrow> lookup_mutex uid s = (m, s') \<Longrightarrow> lock_inv s'"
  using lookup_mutex_registry(1) [of s uid m s'] lookup_mutex_tasks [of uid s m s']
  by (simp add: lock_inv_def exclusive_def)

lemma lock_inv_step: "lock_step s e s' \<Longrightarrow> lock_inv s \<Longrightarrow> lock_inv s'"
proof (induction rule: lock_step.induct)
  case (find_mutex i s t uid todo m s')
  let ?t = "t\<lparr>tk_todo := todo, tk_wait := Some (uid, m)\<rparr>"
  have inv: "lock_inv s'" and tasks: "ls_tasks s' = ls_tasks s"
    using lookup_mutex_inv lookup_mutex_tasks find_mutex by blast+
  have reg: "bt_lookup (ls_registry s') uid = Some m"
    using lookup_mutex_registry(2) find_mutex by (auto simp: lock_inv_def)
  have h: "handles ?t = tk_guards t @ [(uid, m)]" by (simp add: handles_def)
  have "task_sorted ?t"
    using lock_inv_task(1) [of s i] find_mutex by (simp add: task_sorted_def h)
  then show ?case
    using find_mutex tasks reg lock_inv_task(2) [OF inv, of i]
    by (intro set_task_inv [OF inv]) (auto simp: h)
next
  case (lock_mutex i s t uid m)
  let ?t = "t\<lparr>tk_wait := None, tk_guards := tk_guards t @ [(uid, m)]\<rparr>"
  have h: "handles ?t = handles t" using lock_mutex by simp
  have "task_sorted ?t" using lock_inv_task(1) [of s i] lock_mutex by (simp add: task_sorted_def h)
  then show ?case
    using lock_mutex lock_inv_task(2) [OF lock_mutex.prems, of i]
    by (intro set_task_inv) (auto simp: h)
next
  case (cancel_wait i s t h)
  let ?t = "t\<lparr>tk_todo := [], tk_wait := None\<rparr>"
  have h: "handles ?t = tk_guards t" by simp
  have "task_sorted ?t"
    using lock_inv_task(1) [of s i] cancel_wait by (simp add: task_sorted_def h sorted_wrt_append)
  then show ?case
    using cancel_wait lock_inv_task(2) [OF cancel_wait.prems, of i] by (intro set_task_inv) (auto simp: h)
next
  case (drop_guard i s t h guards)
  let ?t = "t\<lparr>tk_guards := guards\<rparr>"
  have "handles ?t = guards" using drop_guard by simp
  moreover have "task_sorted ?t"
    using lock_inv_task(1) [of s i] drop_guard calculation by (simp add: task_sorted_def)
  ultimately show ?case
    using drop_guard lock_inv_task(2) [OF drop_guard.prems, of i] by (intro set_task_inv) auto
qed

lemma lock_inv_start: "lock_inv (lock_start calls)"
  by (auto simp: lock_inv_def lock_start_def task_sorted_def registry_ok_def exclusive_def handles_def
      list_all_iff lock_ids_def)

lemma lock_inv_reachable: "lock_reachable calls s \<Longrightarrow> lock_inv s"
  by (induction rule: lock_reachable.induct) (auto intro: lock_inv_start lock_inv_step)

subsection \<open>Progress\<close>

definition task_cost :: "lock_task \<Rightarrow> nat" where
  "task_cost t = 3 * length (tk_todo t) + (if tk_wait t = None then 0 else 2) + length (tk_guards t)"

definition lock_cost :: "lock_state \<Rightarrow> nat" where
  "lock_cost s = sum_list (map task_cost (ls_tasks s))"

lemma lock_cost_set:
  assumes "i < length (ls_tasks s)" "task_cost t < task_cost (ls_tasks s ! i)" "ls_tasks s' = ls_tasks s"
  shows "lock_cost (set_task i t s') < lock_cost s"
proof -
  have "task_cost (ls_tasks s ! i) \<le> sum_list (map task_cost (ls_tasks s))"
    using assms(1) by (simp add: member_le_sum_list)
  with assms show ?thesis
    by (simp add: lock_cost_def map_update sum_list_update)
qed

lemma lock_step_cost: "lock_step s e s' \<Longrightarrow> lock_cost s' < lock_cost s"
  by (induction rule: lock_step.induct)
    (auto intro!: lock_cost_set dest: lookup_mutex_tasks simp: task_cost_def)

text \<open>The waiting task with the greatest identifier can go on: its mutex is held by no task that waits.\<close>

lemma lock_enabled:
  assumes "lock_inv s" "i < length (ls_tasks s)" "\<not> task_over (ls_tasks s ! i)"
  shows "(\<exists>e s'. lock_step s e s' \<and> \<not> is_cancel e)
    \<or> (\<exists>uid m j. tk_wait (ls_tasks s ! i) = Some (uid, m) \<and> j < length (ls_tasks s)
        \<and> (uid, m) \<in> set (tk_guards (ls_tasks s ! j)))"
proof (cases "tk_wait (ls_tasks s ! i)")
  case (Some h)
  obtain uid m where h: "h = (uid, m)" by (cases h)
  show ?thesis
  proof (cases "owned s m")
    case False
    from lock_step.lock_mutex [OF assms(2) refl Some [unfolded h] this] show ?thesis by (intro disjI1 exI conjI) (assumption, simp)
  next
    case True
    then obtain j uid' where j: "j < length (ls_tasks s)" "(uid', m) \<in> set (tk_guards (ls_tasks s ! j))"
      by (auto simp: owned_iff)
    have "bt_lookup (ls_registry s) uid' = Some m"
      by (rule lock_inv_task(2) [OF assms(1) j(1)]) (simp add: handles_def j)
    moreover have "bt_lookup (ls_registry s) uid = Some m"
      by (rule lock_inv_task(2) [OF assms(1,2)]) (simp add: Some h)
    ultimately have "uid' = uid" using assms(1) unfolding lock_inv_def registry_ok_def by blast
    with j Some h show ?thesis by blast
  qed
next
  case None
  show ?thesis
  proof (cases "tk_todo (ls_tasks s ! i)")
    case (Cons uid todo)
    obtain m s' where "lookup_mutex uid s = (m, s')" by fastforce
    from lock_step.find_mutex [OF assms(2) refl None Cons this] show ?thesis by (intro disjI1 exI conjI) (assumption, simp)
  next
    case Nil
    with None assms(3) obtain g gs where "tk_guards (ls_tasks s ! i) = g # gs"
      by (cases "tk_guards (ls_tasks s ! i)") (auto simp: task_over_def)
    from lock_step.drop_guard [OF assms(2) refl None Nil this] show ?thesis by (intro disjI1 exI conjI) (assumption, simp)
  qed
qed

lemma lock_progress:
  assumes "lock_inv s" "\<not> locks_over s"
  shows "\<exists>e s'. lock_step s e s' \<and> \<not> is_cancel e"
proof (rule ccontr)
  assume stuck: "\<not> ?thesis"
  let ?task = "\<lambda>i. ls_tasks s ! i"
  let ?waiting = "{uid. \<exists>i m. i < length (ls_tasks s) \<and> tk_wait (?task i) = Some (uid, m)}"
  have blocked: "\<exists>uid m j. tk_wait (?task i) = Some (uid, m) \<and> j < length (ls_tasks s)
      \<and> (uid, m) \<in> set (tk_guards (?task j))" if "i < length (ls_tasks s)" "\<not> task_over (?task i)" for i
    using lock_enabled [OF assms(1) that] stuck by blast
  obtain i where "i < length (ls_tasks s)" "\<not> task_over (?task i)"
    using assms(2) by (auto simp: locks_over_def list_all_iff in_set_conv_nth)
  with blocked have "?waiting \<noteq> {}" by blast
  moreover have "finite ?waiting"
  proof (rule finite_subset)
    show "?waiting \<subseteq> (\<lambda>i. fst (the (tk_wait (?task i)))) ` {..<length (ls_tasks s)}"
      by force
  qed simp
  ultimately have "Max ?waiting \<in> ?waiting" by (rule Max_in [rotated])
  then obtain i m where i: "i < length (ls_tasks s)" "tk_wait (?task i) = Some (Max ?waiting, m)" by blast
  then have "\<not> task_over (?task i)" by (simp add: task_over_def)
  with blocked [OF i(1)] i(2) obtain j where j: "j < length (ls_tasks s)"
      "(Max ?waiting, m) \<in> set (tk_guards (?task j))" by auto
  then have "\<not> task_over (?task j)" by (auto simp: task_over_def)
  with blocked [OF j(1)] obtain uid n where uid: "tk_wait (?task j) = Some (uid, n)" by blast
  then have "task_sorted (?task j)" "Max ?waiting \<in> fst ` set (tk_guards (?task j))"
    using lock_inv_task(1) [OF assms(1) j(1)] j(2) by force+
  with uid have "Max ?waiting < uid" by (auto simp: task_sorted_def sorted_wrt_append)
  moreover have "uid \<le> Max ?waiting"
    using \<open>finite ?waiting\<close> uid j(1) by (intro Max_ge) blast+
  ultimately show False by simp
qed

subsection \<open>Properties\<close>

text \<open>
  C29: no two calls hold the lock of the same claim, however their lookups, waits, cancellations and
  releases interleave: the registry gives one mutex to all of them as long as any of them has it.
\<close>
theorem claim_lock_exclusive:
  assumes "lock_reachable calls s" and "i < length (ls_tasks s)" and "j < length (ls_tasks s)"
    and "i \<noteq> j" and "uid \<in> fst ` set (tk_guards (ls_tasks s ! i))"
  shows "uid \<notin> fst ` set (tk_guards (ls_tasks s ! j))"
proof
  assume "uid \<in> fst ` set (tk_guards (ls_tasks s ! j))"
  then obtain m n where m: "(uid, m) \<in> set (tk_guards (ls_tasks s ! i))" and n: "(uid, n) \<in> set (tk_guards (ls_tasks s ! j))"
    using assms(5) by force
  have inv: "lock_inv s" by (rule lock_inv_reachable [OF assms(1)])
  have "bt_lookup (ls_registry s) uid = Some m" "bt_lookup (ls_registry s) uid = Some n"
    using lock_inv_task(2) [OF inv assms(2)] lock_inv_task(2) [OF inv assms(3)] m n by (auto simp: handles_def)
  with m n have "m \<in> snd ` set (tk_guards (ls_tasks s ! i))" "m \<in> snd ` set (tk_guards (ls_tasks s ! j))"
    by force+
  with assms(2-4) inv show False unfolding lock_inv_def exclusive_def by blast
qed

text \<open>Two calls with a claim in common, the first of which has locked it.\<close>

definition sample_calls :: "claim_ref list list" where
  "sample_calls = [[ClaimRef ''n'' ''b'' ''x'', ClaimRef ''n'' ''a'' ''y''], [ClaimRef ''n'' ''a'' ''y'']]"

definition sample_locked :: lock_state where
  "sample_locked = \<lparr>ls_registry = [(''a'', 0)], ls_next = 1, ls_tasks =
     [\<lparr>tk_todo = [''b''], tk_wait = None, tk_guards = [(''a'', 0)]\<rparr>,
      \<lparr>tk_todo = [''a''], tk_wait = None, tk_guards = []\<rparr>]\<rparr>"

lemma sample_locked_reachable: "lock_reachable sample_calls sample_locked"
proof -
  let ?s0 = "lock_start sample_calls"
  let ?t0 = "ls_tasks ?s0 ! 0"
  obtain m s1 where look: "lookup_mutex ''a'' ?s0 = (m, s1)" by fastforce
  have todo: "0 < length (ls_tasks ?s0)" "tk_wait ?t0 = None" "tk_todo ?t0 = [''a'', ''b'']"
    by code_simp+
  let ?s1 = "set_task 0 (?t0\<lparr>tk_todo := [''b''], tk_wait := Some (''a'', m)\<rparr>) s1"
  let ?t1 = "ls_tasks ?s1 ! 0"
  have one: "lock_reachable sample_calls ?s1"
    by (rule lock_reachable.step [OF lock_reachable.start lock_step.find_mutex [OF todo(1) refl todo(2,3) look]])
  have l: "m = 0 \<and> s1 = ?s0\<lparr>ls_registry := [(''a'', 0)], ls_next := 1\<rparr>"
    using look by (simp add: lookup_mutex_def lock_start_def)
  have "lock_step ?s1 (LockMutex 0) (set_task 0 (?t1\<lparr>tk_wait := None, tk_guards := tk_guards ?t1 @ [(''a'', m)]\<rparr>) ?s1)"
  proof (rule lock_step.lock_mutex [OF _ refl])
    show "0 < length (ls_tasks ?s1)" "tk_wait ?t1 = Some (''a'', m)" using todo(1) by (simp_all add: l)
    show "\<not> owned ?s1 m" by (simp add: l owned_def lock_start_def sample_calls_def)
  qed
  from lock_reachable.step [OF one this]
  have "lock_reachable sample_calls (set_task 0 (?t1\<lparr>tk_wait := None, tk_guards := tk_guards ?t1 @ [(''a'', m)]\<rparr>) ?s1)" .
  moreover have "lock_ids [ClaimRef ''n'' ''a'' ''y''] = [''a'']" by code_simp
  moreover have "set_task 0 (?t1\<lparr>tk_wait := None, tk_guards := tk_guards ?t1 @ [(''a'', m)]\<rparr>) ?s1 = sample_locked"
    using todo(1,3) calculation(2) by (simp add: l set_task_def sample_locked_def lock_start_def sample_calls_def)
  ultimately show ?thesis by simp
qed

theorem claim_lock_exclusive_witness:
  "''a'' \<notin> fst ` set (tk_guards (ls_tasks sample_locked ! 1))"
  by (rule claim_lock_exclusive [OF sample_locked_reachable, of 0]) (simp_all add: sample_locked_def)

lemma finish_without_cancel:
  "lock_inv s \<Longrightarrow> \<exists>t. (\<lambda>s s'. \<exists>e. lock_step s e s' \<and> \<not> is_cancel e)\<^sup>*\<^sup>* s t \<and> locks_over t"
proof (induction s rule: measure_induct_rule [of lock_cost])
  case (less s)
  show ?case
  proof (cases "locks_over s")
    case False
    then obtain e s' where step: "lock_step s e s'" "\<not> is_cancel e" using lock_progress less.prems by blast
    from less.IH [OF lock_step_cost [OF step(1)] lock_inv_step [OF step(1) less.prems]]
    obtain t where "(\<lambda>s s'. \<exists>e. lock_step s e s' \<and> \<not> is_cancel e)\<^sup>*\<^sup>* s' t" "locks_over t" by blast
    with step show ?thesis by (metis (mono_tags, lifting) converse_rtranclp_into_rtranclp)
  qed blast
qed

text \<open>
  C30: calls never deadlock on the locks of their claims: from every reachable state the tasks can run
  on without a cancellation until all calls are over, and no run of them is infinite.
\<close>
theorem claim_locks_progress:
  assumes "lock_reachable calls s"
  shows "(\<exists>t. (\<lambda>s s'. \<exists>e. lock_step s e s' \<and> \<not> is_cancel e)\<^sup>*\<^sup>* s t \<and> locks_over t)
    \<and> wf {(s', s). \<exists>e. lock_step s e s'}"
proof
  show "wf {(s', s). \<exists>e. lock_step s e s'}"
    by (rule wf_subset [OF wf_measure [of lock_cost]]) (auto dest: lock_step_cost)
qed (rule finish_without_cancel [OF lock_inv_reachable [OF assms]])

theorem claim_locks_progress_witness:
  "(\<exists>t. (\<lambda>s s'. \<exists>e. lock_step s e s' \<and> \<not> is_cancel e)\<^sup>*\<^sup>* sample_locked t \<and> locks_over t)
    \<and> wf {(s', s). \<exists>e. lock_step s e s'}"
  by (rule claim_locks_progress [OF sample_locked_reachable])

end
