(* ===== verification/Dra_Unprepare.thy ===== *)
theory Dra_Unprepare
  imports Dra_Service_Properties
begin

text \<open>
  \<open>NodeUnprepareResources\<close> of \<open>dra/src/service.rs\<close>: whatever the order in which the claims of a call
  are worked on, each has its own answer, and the cleanup of one claim leaves the journals of the
  others alone.
\<close>

subsection \<open>Cleanup of another claim\<close>

lemma stored_check_unknown: "keeps (stored q b) (check_unknown E d)"
  unfolding check_unknown_def by (intro keeps_intros)

lemma stored_cleanup_claim:
  assumes "\<not> staging (last q)" "last q \<noteq> ''metadata.json''" "claim @ [''journal.json''] \<noteq> q"
    and "\<And>cdi r. cdi @ [spec_filename (mr_driver rt) (cr_uid c) r] \<noteq> q"
  shows "keeps (stored q b) (cleanup_claim E J rt c data_root claim)"
  unfolding cleanup_claim_def cleanup_journal_def
  by (intro keeps_bind keeps_option_case keeps_simple keeps_for stored_reading stored_trusted_root
      stored_remove_stages stored_remove_entry stored_remove_spec stored_remove_document stored_check_unknown assms)
    (use assms(3) in auto)

lemma cleanup_keeps_other:
  assumes "honest E" "validate_driver_name (mr_driver rt) = Inr ()" "cr_uid c \<noteq> uid"
  shows "keeps (stored (journal_path E rt uid) b) (cleanup_blocking E J rt c)"
  unfolding keeps_def
proof (rule triple_cleanup_blocking [OF assms(1)])
  let ?q = "journal_path E rt uid"
  have names: "cdi @ [spec_filename (mr_driver rt) (cr_uid c) r] \<noteq> ?q" for cdi r
    using spec_filename_names(3) [OF assms(2), of "cr_uid c" r] by (auto simp: journal_path_def)
  have other: "(data_root @ [cr_uid c]) @ [''journal.json''] \<noteq> ?q" for data_root
    using assms(3) by (simp add: journal_path_def claim_directory_def)
  have "keeps (stored ?q b) (cleanup_claim E J rt c data_root (data_root @ [cr_uid c]))" for data_root
    by (rule stored_cleanup_claim [OF _ _ other names]) simp_all
  then show "triple (stored ?q b) (cleanup_claim E J rt c data_root (data_root @ [cr_uid c])) (\<lambda>_. stored ?q b)
      \<or> data_root @ [cr_uid c] \<noteq> claim_directory E rt (cr_uid c)" for data_root
    by (simp add: keeps_def)
qed (auto intro: stored_trusted_root stored_open_existing)

subsection \<open>A cleanup that succeeds\<close>

lemma cleanup_keeps [keeps_intros]:
  "keeps (absent q) (cleanup_blocking E J rt c)" "keeps tree_ok (cleanup_blocking E J rt c)"
  unfolding cleanup_blocking_def cleanup_claim_def cleanup_journal_def check_unknown_def
  by (intro keeps_intros)+

lemma triple_bind_last:
  "(\<And>x. triple (\<lambda>s. True) (f x) (\<lambda>r s. r = Inr () \<longrightarrow> Q s))
     \<Longrightarrow> triple (\<lambda>s. True) (sm_bind m f) (\<lambda>r s. r = Inr () \<longrightarrow> Q s)"
  by (rule triple_bind [where R = "\<lambda>r s. True"]) (simp_all add: triple_def)

lemma triple_cleanup_claim:
  assumes "honest E"
  shows "triple (\<lambda>s. True) (cleanup_claim E J rt c data_root claim)
    (\<lambda>r s. r = Inr () \<longrightarrow> absent (data_root @ [cr_uid c]) s)"
  unfolding cleanup_claim_def cleanup_journal_def
  by (rule triple_bind_last)
    (auto split: option.split intro!: triple_bind_last triple_remove_entry [OF assms])

text \<open>A directory that is opened when it is there, and whose absence is enough.\<close>

lemma triple_opened:
  assumes "keeps tree_ok m"
    and "triple (\<lambda>s. True) m (\<lambda>r s. case r of Inr (Some fd) \<Rightarrow> fd = p | Inr None \<Rightarrow> absent p s | Inl _ \<Rightarrow> True)"
    and "triple tree_ok (f p) (\<lambda>r s. r = Inr () \<longrightarrow> absent q s)"
    and "\<And>s. tree_ok s \<Longrightarrow> absent p s \<Longrightarrow> absent q s"
  shows "triple tree_ok (sm_bind m (\<lambda>fd. case fd of None \<Rightarrow> sm_return () | Some d \<Rightarrow> f d))
    (\<lambda>r s. r = Inr () \<longrightarrow> absent q s)"
proof (rule triple_bind [OF triple_keeps [OF assms(2,1), simplified]])
  fix fd
  show "triple (\<lambda>s. (case Inr fd of Inr (Some d) \<Rightarrow> d = p | Inr None \<Rightarrow> absent p s | Inl _ \<Rightarrow> True) \<and> tree_ok s)
      (case fd of None \<Rightarrow> sm_return () | Some d \<Rightarrow> f d) (\<lambda>r s. r = Inr () \<longrightarrow> absent q s)"
    using assms(3,4) by (cases fd) (auto simp: triple_def sm_return_def)
qed simp

lemma triple_cleanup_absent:
  assumes "honest E"
  shows "triple tree_ok (cleanup_blocking E J rt c)
    (\<lambda>r s. r = Inr () \<longrightarrow> absent (claim_directory E rt (cr_uid c)) s)"
proof -
  let ?local = "os_canonical E (mr_local rt)"
  let ?data = "?local @ [''dra-device-metadata'']"
  let ?dir = "?data @ [cr_uid c]"
  have claim: "triple tree_ok (sm_bind (open_existing E ?data (cr_uid c))
      (\<lambda>fd. case fd of None \<Rightarrow> sm_return () | Some d \<Rightarrow> cleanup_claim E J rt c ?data d))
      (\<lambda>r s. r = Inr () \<longrightarrow> absent ?dir s)"
    by (rule triple_opened [OF tree_removals(5) triple_open_absent [OF assms]])
      (auto intro: triple_weaken [OF triple_cleanup_claim [OF assms]])
  have data: "triple tree_ok (sm_bind (open_existing E ?local ''dra-device-metadata'')
      (\<lambda>fd. case fd of None \<Rightarrow> sm_return () | Some d \<Rightarrow> sm_bind (open_existing E d (cr_uid c))
        (\<lambda>fd. case fd of None \<Rightarrow> sm_return () | Some claim \<Rightarrow> cleanup_claim E J rt c d claim)))
      (\<lambda>r s. r = Inr () \<longrightarrow> absent ?dir s)"
    by (rule triple_opened [OF tree_removals(5) triple_open_absent [OF assms]]) (rule claim, rule tree_absent)
  have dir: "claim_directory E rt (cr_uid c) = ?dir" by (simp add: claim_directory_def)
  show ?thesis
    unfolding cleanup_blocking_def dir
  proof (intro triple_if triple_fail triple_opened [OF tree_removals(3) triple_root_absent [OF assms]])
    show "absent ?dir s" if "tree_ok s" "absent ?local s" for s
      using that by (intro tree_absent)
  qed (rule data | simp)+
qed

subsection \<open>The claims of a call\<close>

lemma unprepare_append:
  "unprepare_in_order A metadata B claims (xs @ ys) s =
     (case unprepare_in_order A metadata B claims xs s of (rs, s1) \<Rightarrow>
        case unprepare_in_order A metadata B claims ys s1 of (rs', s2) \<Rightarrow> (rs @ rs', s2))"
  by (induction xs arbitrary: s) (auto simp: Let_def split: prod.splits)

lemma unprepare_indices:
  "map (\<lambda>(i, c, r). (i, c)) (fst (unprepare_in_order A metadata B claims order s)) = map (\<lambda>i. (i, claims ! i)) order"
  by (induction order arbitrary: s) (simp_all add: Let_def case_prod_unfold)

lemma unprepare_keeps:
  "(\<And>i. i \<in> set order \<Longrightarrow> keeps I (unprepare_claim A metadata B (claims ! i)))
     \<Longrightarrow> I s \<Longrightarrow> I (snd (unprepare_in_order A metadata B claims order s))"
proof (induction order arbitrary: s)
  case (Cons i order)
  have "I (snd (unprepare_claim A metadata B (claims ! i) s))"
    using Cons.prems by (intro keepsD [of I]) auto
  with Cons.IH Cons.prems(1) show ?case by (simp add: Let_def case_prod_unfold)
qed simp

lemma keeps_unprepare_claim:
  "(\<And>rt. metadata = Some rt \<Longrightarrow> keeps I (cleanup_blocking (ce_os A) (ce_codec A) rt c))
     \<Longrightarrow> keeps I (unprepare_claim A metadata B c)"
  unfolding keeps_def triple_def unprepare_claim_def
  by (auto split: sum.splits option.splits prod.splits) (metis fst_conv snd_conv)+

lemma unprepared_once:
  assumes "mset order = mset [0..<length claims]" "i < length claims"
  obtains before after where "order = before @ i # after" "i \<notin> set before" "i \<notin> set after"
    "set before \<subseteq> {..<length claims}" "set after \<subseteq> {..<length claims}"
proof -
  have set: "set order = {..<length claims}" and distinct: "distinct order"
    using assms(1) by (metis lessThan_atLeast0 set_mset_mset set_upt, metis distinct_upt mset_eq_imp_distinct_iff)
  then obtain before after where order: "order = before @ i # after" using assms(2) by (metis lessThan_iff split_list)
  with distinct set show thesis by (intro that) auto
qed

text \<open>
  The answer to one claim and its files: \<open>s\<close> is the disk before the call, \<open>s'\<close> the disk after it. A
  refusal of the backend leaves the journal; an empty answer means that the directory of the claim
  is gone; and a journal that is gone lists nothing that is still there.
\<close>

definition claim_unprepared ::
    "call_env \<Rightarrow> metadata_runtime option \<Rightarrow> claim_backend \<Rightarrow> claim_ref \<Rightarrow> disk \<Rightarrow> string \<Rightarrow> disk \<Rightarrow> bool" where
  "claim_unprepared A metadata B c s answer s' \<longleftrightarrow>
     (case (be_unprepare B c, metadata) of
        (Inl error, None) \<Rightarrow> answer = show_prepare_error (ce_dbg A) error
      | (Inl error, Some rt) \<Rightarrow> answer = show_prepare_error (ce_dbg A) error
          \<and> (\<forall>b. stored (journal_path (ce_os A) rt (cr_uid c)) b s
               \<longrightarrow> stored (journal_path (ce_os A) rt (cr_uid c)) b s')
      | (Inr _, None) \<Rightarrow> answer = []
      | (Inr _, Some rt) \<Rightarrow>
          (answer = [] \<longrightarrow> absent (claim_directory (ce_os A) rt (cr_uid c)) s')
          \<and> (\<forall>b j. stored (journal_path (ce_os A) rt (cr_uid c)) b s \<longrightarrow> js_read_journal (ce_codec A) b = Inr j
               \<longrightarrow> stored (journal_path (ce_os A) rt (cr_uid c)) b s'
                 \<or> journal_gone_last (ce_os A) rt (cr_uid c) j s'))"

lemma absent_unprepare: "keeps (absent q) (unprepare_claim A metadata B c)"
  and tree_unprepare: "keeps tree_ok (unprepare_claim A metadata B c)"
  by (rule keeps_unprepare_claim, rule cleanup_keeps)+

lemma unprepare_one:
  assumes "honest (ce_os A)" "\<And>rt. metadata = Some rt \<Longrightarrow> validate_driver_name (mr_driver rt) = Inr ()"
    and "tree_ok s" "unprepare_claim A metadata B c s = (r, s')"
  shows "claim_unprepared A metadata B c s (unprepare_response (ce_dbg A) r) s'"
proof (cases "be_unprepare B c")
  case (Inl error)
  with assms(4) have "r = Inl error" "s' = s" by (simp_all add: unprepare_claim_def)
  then show ?thesis by (cases metadata) (simp_all add: claim_unprepared_def unprepare_response_def Inl)
next
  case (Inr u)
  show ?thesis
  proof (cases metadata)
    case None
    with Inr assms(4) have "r = Inr ()" by (simp add: unprepare_claim_def)
    then show ?thesis by (simp add: claim_unprepared_def unprepare_response_def Inr None)
  next
    case (Some rt)
    obtain m where m: "cleanup_blocking (ce_os A) (ce_codec A) rt c s = (m, s')"
        "unprepare_response (ce_dbg A) r = [] \<Longrightarrow> m = Inr ()"
      using assms(4) Inr Some
      by (auto simp: unprepare_claim_def unprepare_response_def split: prod.splits sum.splits)
    have "absent (claim_directory (ce_os A) rt (cr_uid c)) s'" if "unprepare_response (ce_dbg A) r = []"
      using tripleD [OF triple_cleanup_absent [OF assms(1)] assms(3) m(1)] m(2) [OF that] by simp
    moreover have "stored (journal_path (ce_os A) rt (cr_uid c)) b s'
        \<or> journal_gone_last (ce_os A) rt (cr_uid c) j s'"
      if "stored (journal_path (ce_os A) rt (cr_uid c)) b s" "js_read_journal (ce_codec A) b = Inr j" for b j
      using tripleD [OF triple_cleanup [OF assms(1) assms(2) [OF Some] that(2)] _ m(1)] assms(3) that(1) by simp
    ultimately show ?thesis using Inr Some by (simp add: claim_unprepared_def)
  qed
qed

text \<open>The other claims of the call change nothing of that.\<close>

lemma claim_unprepared_around:
  assumes "claim_unprepared A metadata B c s1 answer s2"
    and "\<And>rt b. metadata = Some rt \<Longrightarrow> stored (journal_path (ce_os A) rt (cr_uid c)) b s
      \<Longrightarrow> stored (journal_path (ce_os A) rt (cr_uid c)) b s1"
    and "\<And>rt b. metadata = Some rt \<Longrightarrow> stored (journal_path (ce_os A) rt (cr_uid c)) b s2
      \<Longrightarrow> stored (journal_path (ce_os A) rt (cr_uid c)) b s'"
    and "\<And>q. absent q s2 \<Longrightarrow> absent q s'"
  shows "claim_unprepared A metadata B c s answer s'"
proof (cases "be_unprepare B c")
  case (Inl error)
  with assms show ?thesis by (cases metadata) (auto simp: claim_unprepared_def)
next
  case (Inr u)
  show ?thesis
  proof (cases metadata)
    case None
    with assms(1) Inr show ?thesis by (simp add: claim_unprepared_def)
  next
    case (Some rt)
    have "journal_gone_last (ce_os A) rt (cr_uid c) j s'" if "journal_gone_last (ce_os A) rt (cr_uid c) j s2" for j
      using that assms(4) by (simp add: journal_gone_last_def)
    with assms Some Inr show ?thesis unfolding claim_unprepared_def by simp blast
  qed
qed

lemma unprepare_in_order_claim:
  assumes "honest (ce_os A)" "pred_option (\<lambda>rt. validate_driver_name (mr_driver rt) = Inr ()) metadata"
    and "distinct (map cr_uid claims)" "mset order = mset [0..<length claims]" "tree_ok s" "i < length claims"
  shows "\<exists>r. (i, claims ! i, r) \<in> set (fst (unprepare_in_order A metadata B claims order s))
    \<and> claim_unprepared A metadata B (claims ! i) s (unprepare_response (ce_dbg A) r)
        (snd (unprepare_in_order A metadata B claims order s))"
proof -
  let ?run = "unprepare_in_order A metadata B claims"
  obtain before after where order: "order = before @ i # after" "i \<notin> set before" "i \<notin> set after"
      "set before \<subseteq> {..<length claims}" "set after \<subseteq> {..<length claims}"
    by (rule unprepared_once [OF assms(4,6)])
  have driver: "validate_driver_name (mr_driver rt) = Inr ()" if "metadata = Some rt" for rt
    using assms(2) that by simp
  have others: "keeps (stored (journal_path (ce_os A) rt (cr_uid (claims ! i))) b) (unprepare_claim A metadata B (claims ! k))"
    if "metadata = Some rt" "k < length claims" "k \<noteq> i" for rt b k
  proof (rule keeps_unprepare_claim)
    have "cr_uid (claims ! k) \<noteq> cr_uid (claims ! i)"
      using assms(3,6) that(2,3) nth_eq_iff_index_eq [of "map cr_uid claims" k i] by simp
    then show "keeps (stored (journal_path (ce_os A) rt (cr_uid (claims ! i))) b)
        (cleanup_blocking (ce_os A) (ce_codec A) rt' (claims ! k))" if "metadata = Some rt'" for rt'
      using that \<open>metadata = Some rt\<close> by (simp add: cleanup_keeps_other [OF assms(1) driver])
  qed
  obtain rs1 s1 where s1: "?run before s = (rs1, s1)" by fastforce
  obtain r s2 where s2: "unprepare_claim A metadata B (claims ! i) s1 = (r, s2)" by fastforce
  obtain rs2 s3 where s3: "?run after s2 = (rs2, s3)" by fastforce
  have run: "?run order s = (rs1 @ (i, claims ! i, r) # rs2, s3)"
    by (simp add: order unprepare_append s1 s2 s3)
  have "tree_ok s1"
    using unprepare_keeps [of before tree_ok A metadata B claims s] tree_unprepare assms(5) s1 by simp
  then have "claim_unprepared A metadata B (claims ! i) s1 (unprepare_response (ce_dbg A) r) s2"
    using unprepare_one [OF assms(1) _ _ s2] driver by simp
  then have "claim_unprepared A metadata B (claims ! i) s (unprepare_response (ce_dbg A) r) s3"
  proof (rule claim_unprepared_around)
    show "absent q s3" if "absent q s2" for q
      using unprepare_keeps [of after "absent q" A metadata B claims s2] absent_unprepare that s3 by simp
  next
    fix rt b assume md: "metadata = Some rt"
    let ?I = "stored (journal_path (ce_os A) rt (cr_uid (claims ! i))) b"
    have "keeps ?I (unprepare_claim A metadata B (claims ! k))" if "k \<in> set before \<union> set after" for k
      using others [OF md, of k b] order that by blast
    then show "?I s \<Longrightarrow> ?I s1" and "?I s2 \<Longrightarrow> ?I s3"
      using unprepare_keeps [of before ?I A metadata B claims s] unprepare_keeps [of after ?I A metadata B claims s2]
        s1 s3 by simp_all
  qed
  then show ?thesis by (auto simp: run)
qed

text \<open>
  C28: whatever the order in which the claims of one \<open>NodeUnprepareResources\<close> call are worked on
  and whichever file operations fail, exactly the requested claims are answered, each with its own
  outcome: a claim the backend refuses is answered with that error and keeps its journal, an empty
  answer means that its metadata directory is gone, and otherwise its journal stays until all that
  it lists is gone.
\<close>
theorem unprepare_any_order:
  assumes "honest (ce_os A)" and "pred_option (\<lambda>rt. validate_driver_name (mr_driver rt) = Inr ()) (sv_metadata sv)"
    and "distinct (map wc_uid request)" and "mset order = mset [0..<length request]" and "tree_ok s"
    and "node_unprepare_resources A sv B order request s = (resp, s')"
  shows "fst ` set resp = wc_uid ` set request
    \<and> list_all (\<lambda>claim. \<exists>answer. bt_lookup resp (wc_uid claim) = Some answer
        \<and> claim_unprepared A (sv_metadata sv) B (claim_from_wire claim) s answer s') request"
proof -
  let ?claims = "map claim_from_wire request"
  let ?g = "\<lambda>(index, claim, result). (cr_uid claim, unprepare_response (ce_dbg A) result)"
  obtain results where run: "unprepare_in_order A (sv_metadata sv) B ?claims order s = (results, s')"
      "resp = bt_collect (map ?g (sort_key fst results))"
    using assms(6) by (auto simp: node_unprepare_resources_def Let_def split: prod.splits)
  have uids: "map cr_uid ?claims = map wc_uid request" by simp
  have "map (\<lambda>(i, c, r). (i, c)) results = map (\<lambda>i. (i, ?claims ! i)) order"
    using unprepare_indices [of A "sv_metadata sv" B ?claims order s] run(1) by simp
  from arg_cong [OF this, of "map (\<lambda>(i, c). cr_uid c)"]
  have "map (\<lambda>x. fst (?g x)) results = map (\<lambda>i. cr_uid (?claims ! i)) order"
    by (simp add: comp_def case_prod_unfold)
  moreover have "mset (map fst (map ?g (sort_key fst results))) = mset (map (\<lambda>x. fst (?g x)) results)"
    unfolding map_map comp_def mset_map mset_sort ..
  ultimately have "mset (map fst (map ?g (sort_key fst results))) = image_mset (\<lambda>i. cr_uid (?claims ! i)) (mset order)"
    by (simp only: mset_map)
  also have "\<dots> = mset (map (\<lambda>i. map cr_uid ?claims ! i) [0..<length request])"
    unfolding assms(4) mset_map [symmetric] by (intro arg_cong [where f = mset] map_cong) auto
  also have "\<dots> = mset (map wc_uid request)" unfolding uids by (metis length_map map_nth)
  finally have keys: "mset (map fst (map ?g (sort_key fst results))) = mset (map wc_uid request)" .
  then have distinct: "distinct (map fst (map ?g (sort_key fst results)))"
    using assms(3) mset_eq_imp_distinct_iff by blast
  have "set (map fst resp) = set (map wc_uid request)"
    using arg_cong [OF keys, of set_mset] unfolding run(2) collect_keys by (simp only: set_mset_mset)
  then have "fst ` set resp = wc_uid ` set request" by simp
  moreover have "\<exists>answer. bt_lookup resp (wc_uid (request ! i)) = Some answer
      \<and> claim_unprepared A (sv_metadata sv) B (claim_from_wire (request ! i)) s answer s'"
    if i: "i < length request" for i
  proof -
    obtain r where r: "(i, ?claims ! i, r) \<in> set results"
        "claim_unprepared A (sv_metadata sv) B (?claims ! i) s (unprepare_response (ce_dbg A) r) s'"
      using unprepare_in_order_claim [OF assms(1,2), of ?claims order s i B] assms(3,4,5) i run(1)
      by (auto simp: comp_def)
    then have "(wc_uid (request ! i), unprepare_response (ce_dbg A) r) \<in> set (map ?g (sort_key fst results))"
      using i by force
    then have "bt_lookup resp (wc_uid (request ! i)) = Some (unprepare_response (ce_dbg A) r)"
      using distinct by (simp only: run(2) bt_lookup_collect map_of_rev_distinct map_of_eq_Some_iff)
    with r(2) i show ?thesis by auto
  qed
  ultimately show ?thesis by (auto simp: list_all_length)
qed

theorem unprepare_any_order_witness:
  "fst ` set (fst (node_unprepare_resources sample_env (sample_service\<lparr>sv_metadata := Some sample_runtime\<rparr>)
       sample_backend [1, 0] sample_request published_disk)) = wc_uid ` set sample_request
    \<and> list_all (\<lambda>claim. \<exists>answer. bt_lookup (fst (node_unprepare_resources sample_env
         (sample_service\<lparr>sv_metadata := Some sample_runtime\<rparr>) sample_backend [1, 0] sample_request published_disk))
         (wc_uid claim) = Some answer
        \<and> claim_unprepared sample_env (sv_metadata (sample_service\<lparr>sv_metadata := Some sample_runtime\<rparr>))
            sample_backend (claim_from_wire claim) published_disk answer
            (snd (node_unprepare_resources sample_env (sample_service\<lparr>sv_metadata := Some sample_runtime\<rparr>)
              sample_backend [1, 0] sample_request published_disk))) sample_request"
proof (rule unprepare_any_order [OF _ _ _ _ published_tree prod.collapse [symmetric]])
  show "honest (ce_os sample_env)" by (simp add: sample_env_def sample_honest)
  show "pred_option (\<lambda>rt. validate_driver_name (mr_driver rt) = Inr ())
      (sv_metadata (sample_service\<lparr>sv_metadata := Some sample_runtime\<rparr>))"
    by (simp add: runtime_driver [OF sample_runtime_new])
  show "mset [1, 0] = mset [0..<length sample_request]" by (simp add: sample_request_def add_mset_commute)
qed (simp add: sample_request_def)

end
