(* ===== verification/Dra_Plugin_Properties.thy ===== *)
theory Dra_Plugin_Properties
  imports Dra_Plugin
begin

text \<open>
  Properties of a DRA plugin as a whole: every way of building one gives consistent identities and
  socket paths; the liveness probe, run on a node with given servers, accepts exactly the servers of
  its own driver and never prepares anything; \<open>run\<close> leaves no task behind and does return.
\<close>

text \<open>The servers of a node, and the transport of a probe there.\<close>

datatype node_server = RegistrationSocket plugin_info | PluginSocket dra_service

definition node_transport ::
    "call_env \<Rightarrow> claim_backend \<Rightarrow> disk \<Rightarrow> (string \<Rightarrow> node_server option) \<Rightarrow> probe_transport" where
  "node_transport A B s sockets =
     \<lparr>pt_connect = (\<lambda>path. case sockets path of None \<Rightarrow> Inl ''no server'' | Some _ \<Rightarrow> Inr ()),
      pt_get_info = (\<lambda>path. case sockets path of
          Some (RegistrationSocket info) \<Rightarrow> Inr (get_info info) | _ \<Rightarrow> Inl ''unimplemented''),
      pt_prepare = (\<lambda>path claims. case sockets path of
          Some (PluginSocket sv) \<Rightarrow>
            (case fst (node_prepare_resources A sv B claims s) of
               Some _ \<Rightarrow> Inr () | None \<Rightarrow> Inl ''cancelled'')
        | _ \<Rightarrow> Inl ''unimplemented'')\<rparr>"

lemma empty_prepare: "node_prepare_resources A sv B [] s = (Some [], s)"
  by (simp add: node_prepare_resources_def)

lemma probe_paths:
  assumes "probe_new d = Inr q"
  shows "lp_driver_name q = d" "lp_plugin_socket_path q = plugin_socket_path d"
    "lp_registration_socket_path q = KUBELET_PLUGINS_REGISTRY_PATH @ registration_socket_name d"
  using assms
  by (auto simp: probe_new_def probe_with_socket_paths_def res_simps Let_def plugin_socket_path_def
      registration_path_eq)

lemma probe_node:
  "fst (probe_check (node_transport A B s sockets) q) = Inr () \<longleftrightarrow>
     (\<exists>info. sockets (lp_registration_socket_path q) = Some (RegistrationSocket info)
        \<and> check_info q info = Inr ())
     \<and> (\<exists>sv. sockets (lp_plugin_socket_path q) = Some (PluginSocket sv))"
  by (auto simp: probe_defs node_transport_def get_info_def empty_prepare res_simps
      split: option.splits node_server.splits sum.splits)

lemma check_info_built:
  assumes "built health_service dbg backend_name p" "lp_driver_name q = d" "lp_plugin_socket_path q = plugin_socket_path d"
  shows "check_info q (rs_plugin_info (dp_registration p)) = Inr () \<longleftrightarrow> dp_driver_name p = d"
proof -
  have "plugin_wf health_service p" by (rule built_wf [OF assms(1)])
  then have "pi_type (rs_plugin_info (dp_registration p)) = ''DRAPlugin''"
      "pi_name (rs_plugin_info (dp_registration p)) = dp_driver_name p"
      "pi_endpoint (rs_plugin_info (dp_registration p)) = plugin_socket_path (dp_driver_name p)"
      "DRA_PLUGIN_SERVICE \<in> set (pi_supported_versions (rs_plugin_info (dp_registration p)))"
    unfolding plugin_wf_def Let_def by (elim conjE; simp)+
  with assms(2,3) show ?thesis by (auto simp: check_info_def list_ex_iff)
qed

lemma probe_calls_empty:
  "list_all (\<lambda>call. case call of PrepareResources _ claims \<Rightarrow> claims = [] | _ \<Rightarrow> True)
     (snd (probe_check T q))"
  by (auto simp: probe_defs split: sum.splits)

subsection \<open>Properties\<close>

text \<open>
  C32: a plugin can be made exactly for a valid driver name that is the name of its backend, on a node
  with a valid name; and every plugin that the constructors and \<open>with_device_metadata\<close> can build is
  consistent: its registration, resolver, publisher and metadata have the backend's name; the advertised
  endpoint is the path its service binds; both socket paths fit the kernel's limit of 107 bytes; and the
  health service is advertised exactly when the service has a health reporter.
\<close>
theorem plugin_consistent:
  assumes "built health_service dbg backend_name p"
  shows "plugin_wf health_service p \<and> dp_driver_name p = backend_name
    \<and> ((\<exists>p. from_driver driver_name node_name name = Inr p) \<longleftrightarrow>
         validate_driver_name driver_name = Inr () \<and> validate_node_name node_name = Inr () \<and> name = driver_name)"
  using built_wf [OF assms] built_name [OF assms] from_driver_accepts by blast

definition sample_plugin :: dra_plugin where
  "sample_plugin = \<lparr>dp_driver_name = ''a.io'',
     dp_registration = \<lparr>rs_socket_path =
         ''/var/lib/kubelet/plugins_registry/'' @ registration_socket_name ''a.io'',
       rs_plugin_info = \<lparr>pi_type = ''DRAPlugin'', pi_name = ''a.io'',
         pi_endpoint = ''/var/lib/kubelet/plugins/a.io/plugin.sock'', pi_supported_versions = [''v1.DRAPlugin'', ''h'']\<rparr>\<rparr>,
     dp_service = \<lparr>sv_resolver = \<lparr>cv_driver_name = ''a.io'',
         cv_max_concurrent_resolves = DEFAULT_MAX_CONCURRENT_RESOLVES,
         cv_max_attempts = DEFAULT_MAX_ATTEMPTS, cv_retry_delay = DEFAULT_RETRY_DELAY\<rparr>,
       sv_metadata = None, sv_health = True\<rparr>,
     dp_publisher = \<lparr>pub_driver_name = ''a.io'', pub_node_name = ''n'',
       pub_poll_interval = DEFAULT_POLL_INTERVAL, pub_retry_base_delay = DEFAULT_RETRY_BASE_DELAY,
       pub_retry_max_delay = DEFAULT_RETRY_MAX_DELAY\<rparr>\<rparr>"

lemma sample_names: "validate_driver_name ''a.io'' = Inr ()" "validate_node_name ''n'' = Inr ()"
  by code_simp+

lemma sample_plugin_built: "built ''h'' dbg ''a.io'' sample_plugin"
proof (rule built.health)
  show "plugin_with_resource_health ''h'' ''a.io'' ''n'' ''a.io'' = Inr sample_plugin"
    by (simp add: plugin_with_resource_health_def from_driver_def sample_names registration_server_new_def
        claim_resolver_new_def publisher_new_def dra_service_new_def with_resource_health_def
        registration_with_resource_health_def sample_plugin_def plugin_socket_path_eq KUBELET_PLUGINS_PATH_def
        registration_path_eq Let_def) (simp add: registration_consts)
qed

theorem plugin_consistent_witness:
  "plugin_wf ''h'' sample_plugin \<and> dp_driver_name sample_plugin = ''a.io''
    \<and> ((\<exists>p. from_driver ''a.io'' ''n'' ''b.io'' = Inr p) \<longleftrightarrow>
         validate_driver_name ''a.io'' = Inr () \<and> validate_node_name ''n'' = Inr () \<and> ''b.io'' = ''a.io'')"
  by (rule plugin_consistent [OF sample_plugin_built])

lemma check_info_ok:
  "check_info q info = Inr () \<longleftrightarrow>
     pi_type info = ''DRAPlugin'' \<and> pi_name info = lp_driver_name q
     \<and> DRA_PLUGIN_SERVICE \<in> set (pi_supported_versions info)
     \<and> path_components (pi_endpoint info) = path_components (lp_plugin_socket_path q)"
  by (auto simp: check_info_def list_ex_iff)

text \<open>
  C33: whatever listens on a node, the probe of a driver succeeds exactly when the driver's
  registration socket is served with plugin type DRAPlugin, the driver's name, the DRAPlugin service
  among the versions and, as endpoint, the driver's plugin socket, and that socket is served by a
  DRAPlugin service. When the registration socket is served by a plugin that was built, that is
  exactly the driver's own plugin. Whatever it finds, the probe only sends empty batches of claims, so
  nothing is prepared.
\<close>
theorem probe_accepts_own_driver:
  assumes "probe_new d = Inr q"
  shows "(fst (probe_check (node_transport A B s sockets) q) = Inr () \<longleftrightarrow>
        (\<exists>info. sockets (KUBELET_PLUGINS_REGISTRY_PATH @ registration_socket_name d)
              = Some (RegistrationSocket info)
           \<and> pi_type info = ''DRAPlugin'' \<and> pi_name info = d
           \<and> DRA_PLUGIN_SERVICE \<in> set (pi_supported_versions info)
           \<and> path_components (pi_endpoint info) = path_components (plugin_socket_path d))
        \<and> (\<exists>sv. sockets (plugin_socket_path d) = Some (PluginSocket sv)))
    \<and> (\<forall>health_service dbg backend_name p. built health_service dbg backend_name p \<longrightarrow>
        sockets (KUBELET_PLUGINS_REGISTRY_PATH @ registration_socket_name d)
          = Some (RegistrationSocket (rs_plugin_info (dp_registration p))) \<longrightarrow>
        (fst (probe_check (node_transport A B s sockets) q) = Inr () \<longleftrightarrow>
           backend_name = d \<and> (\<exists>sv. sockets (plugin_socket_path d) = Some (PluginSocket sv))))
    \<and> list_all (\<lambda>call. case call of PrepareResources _ claims \<Rightarrow>
          claims = [] \<and> node_prepare_resources A sv B claims s = (Some [], s) | _ \<Rightarrow> True)
        (snd (probe_check (node_transport A B s sockets) q))"
proof (intro conjI allI impI)
  note q = probe_paths [OF assms]
  show "fst (probe_check (node_transport A B s sockets) q) = Inr () \<longleftrightarrow>
        (\<exists>info. sockets (KUBELET_PLUGINS_REGISTRY_PATH @ registration_socket_name d)
              = Some (RegistrationSocket info)
           \<and> pi_type info = ''DRAPlugin'' \<and> pi_name info = d
           \<and> DRA_PLUGIN_SERVICE \<in> set (pi_supported_versions info)
           \<and> path_components (pi_endpoint info) = path_components (plugin_socket_path d))
        \<and> (\<exists>sv. sockets (plugin_socket_path d) = Some (PluginSocket sv))"
    unfolding probe_node check_info_ok q by blast
  show "fst (probe_check (node_transport A B s sockets) q) = Inr () \<longleftrightarrow>
        backend_name = d \<and> (\<exists>sv. sockets (plugin_socket_path d) = Some (PluginSocket sv))"
    if p: "built health_service dbg backend_name p"
      "sockets (KUBELET_PLUGINS_REGISTRY_PATH @ registration_socket_name d)
         = Some (RegistrationSocket (rs_plugin_info (dp_registration p)))" for health_service dbg backend_name p
    unfolding probe_node q(2,3) p(2) using check_info_built [OF p(1) q(1,2)] built_name [OF p(1)] by simp
  show "list_all (\<lambda>call. case call of PrepareResources _ claims \<Rightarrow>
          claims = [] \<and> node_prepare_resources A sv B claims s = (Some [], s) | _ \<Rightarrow> True)
        (snd (probe_check (node_transport A B s sockets) q))"
    using probe_calls_empty [of "node_transport A B s sockets" q]
    by (auto simp: list_all_iff empty_prepare split: probe_call.splits)
qed

definition sample_probe :: liveness_probe where
  "sample_probe = \<lparr>lp_driver_name = ''a.io'',
     lp_registration_socket_path = KUBELET_PLUGINS_REGISTRY_PATH @ registration_socket_name ''a.io'',
     lp_plugin_socket_path = plugin_socket_path ''a.io''\<rparr>"

definition sample_sockets :: "string \<Rightarrow> node_server option" where
  "sample_sockets path =
     (if path = KUBELET_PLUGINS_REGISTRY_PATH @ registration_socket_name ''a.io''
      then Some (RegistrationSocket (rs_plugin_info (dp_registration sample_plugin)))
      else Some (PluginSocket (dp_service sample_plugin)))"

theorem probe_accepts_own_driver_witness:
  "\<forall>A B s. fst (probe_check (node_transport A B s sample_sockets) sample_probe) = Inr ()
      \<longleftrightarrow> (\<exists>sv. sample_sockets (plugin_socket_path ''a.io'') = Some (PluginSocket sv))"
proof (intro allI)
  fix A B s
  have q: "probe_new ''a.io'' = Inr sample_probe"
    by (simp add: probe_new_def probe_with_socket_paths_def sample_names sample_probe_def Let_def
        plugin_socket_path_def registration_path_eq)
  have "sample_sockets (KUBELET_PLUGINS_REGISTRY_PATH @ registration_socket_name ''a.io'')
      = Some (RegistrationSocket (rs_plugin_info (dp_registration sample_plugin)))"
    by (simp add: sample_sockets_def)
  then show "fst (probe_check (node_transport A B s sample_sockets) sample_probe) = Inr ()
      \<longleftrightarrow> (\<exists>sv. sample_sockets (plugin_socket_path ''a.io'') = Some (PluginSocket sv))"
    using probe_accepts_own_driver [OF q, of A B s sample_sockets] sample_plugin_built by blast
qed

text \<open>
  C34: \<open>run\<close> has no infinite run, whatever the file system and the tasks do. It can wait for ever
  only in \<open>select!\<close>, while all three tasks run: in every other state it has a step of its own. Once
  a task has ended by itself, or the registration server could not be started, it surely returns.
  When it has returned, no task of the plugin is running, and its error is either a failure to start
  (then the registration server and the publisher never ran) or names a task that ended by itself,
  with how it ended.
\<close>
theorem run_leaves_no_task:
  assumes "run_reaches w"
  shows "wf {(w', w). run_reaches w \<and> (\<exists>ev. run_step ev w w')}
    \<and> (lc_exited w \<noteq> [] \<or> (\<exists>err. lc_phase w = StoppingService err) \<longrightarrow> returns_surely w)
    \<and> (case lc_phase w of
         Returned err \<Rightarrow> (\<forall>c. \<not> is_active (lc_tasks w c))
           \<and> (lc_tasks w RegistrationTask = NotStarted \<and> lc_tasks w PublisherTask = NotStarted
              \<or> list_ex (\<lambda>(c, r). err = exit_error c r) (lc_exited w))
       | _ \<Rightarrow> (\<exists>w'. run_step Runtime w w') \<or> lc_phase w = Waiting \<and> lc_tasks w = (\<lambda>_. Active False))"
proof (intro conjI)
  note run_ok = run_reaches_inv [OF assms]
  show "wf {(w', w). run_reaches w \<and> (\<exists>ev. run_step ev w w')}"
    by (rule wf_subset [OF run_step_wf]) (auto intro: run_reaches_inv)
  show "lc_exited w \<noteq> [] \<or> (\<exists>err. lc_phase w = StoppingService err) \<longrightarrow> returns_surely w"
    using must_return_returns [OF run_ok run_reaches_exited [OF assms]] by (auto simp: must_return_def)
  show "case lc_phase w of
         Returned err \<Rightarrow> (\<forall>c. \<not> is_active (lc_tasks w c))
           \<and> (lc_tasks w RegistrationTask = NotStarted \<and> lc_tasks w PublisherTask = NotStarted
              \<or> list_ex (\<lambda>(c, r). err = exit_error c r) (lc_exited w))
       | _ \<Rightarrow> (\<exists>w'. run_step Runtime w w') \<or> lc_phase w = Waiting \<and> lc_tasks w = (\<lambda>_. Active False)"
    using run_ok run_progress [OF run_ok]
    by (cases "lc_phase w") (auto simp: run_inv_def list_ex_iff fun_eq_iff)
qed

definition sample_run :: "run_phase \<Rightarrow> task_state \<Rightarrow> task_state \<Rightarrow> task_state \<Rightarrow> (component \<times> task_end) list \<Rightarrow> lifecycle" where
  "sample_run phase server service publisher exited = \<lparr>lc_phase = phase,
     lc_tasks = (\<lambda>_. NotStarted)(RegistrationTask := server, ServiceTask := service, PublisherTask := publisher),
     lc_exited = exited\<rparr>"

definition sample_exit :: io_error where
  "sample_exit = exit_error PublisherTask (Finished (Inr ()))"

definition sample_returned :: lifecycle where
  "sample_returned = sample_run (Returned sample_exit) (Ended (JoinError ''c'')) (Ended (JoinError ''c''))
     (Ended (Finished (Inr ()))) [(PublisherTask, Finished (Inr ()))]"

lemma sample_run_waiting: "run_reaches (sample_run Waiting (Active False) (Active False) (Active False) [])"
proof -
  let ?none = "\<lambda>p. sample_run p NotStarted NotStarted NotStarted []"
  have 0: "run_reaches (?none CreatingRegistry)"
    using run_reaches.start by (simp add: run_begin_def sample_run_def fun_upd_idem)
  have 1: "run_reaches (?none CreatingDirectory)"
    using run_reaches.more [OF 0 run_step.registry_created] by (simp add: sample_run_def)
  have 2: "run_reaches (?none StartingService)"
    using run_reaches.more [OF 1 run_step.directory_created] by (simp add: sample_run_def)
  have 3: "run_reaches (sample_run StartingRegistration NotStarted (Active False) NotStarted [])"
    using run_reaches.more [OF 2 run_step.service_starts] by (simp add: sample_run_def fun_upd_twist)
  show ?thesis
    using run_reaches.more [OF 3 run_step.registration_starts] by (simp add: sample_run_def fun_upd_twist)
qed

definition sample_ended :: lifecycle where
  "sample_ended = sample_run Waiting (Active False) (Active False) (Ended (Finished (Inr ())))
     [(PublisherTask, Finished (Inr ()))]"

lemma sample_run_ended: "run_reaches sample_ended"
  using run_reaches.more [OF sample_run_waiting run_step.task_exits [of _ PublisherTask False "Finished (Inr ())"]]
  by (simp add: sample_run_def sample_ended_def)

lemma sample_run_returned: "run_reaches sample_returned"
proof -
  let ?e = "Reaping PublisherTask sample_exit"
  let ?x = "[(PublisherTask, Finished (Inr ()))]"
  note 1 = sample_run_ended [unfolded sample_ended_def]
  have 2: "run_reaches (sample_run ?e (Active True) (Active True) (Ended (Finished (Inr ()))) ?x)"
    using run_reaches.more [OF 1 run_step.select [of _ PublisherTask "Finished (Inr ())"]]
    by (simp add: sample_run_def sample_exit_def abort_others_def fun_eq_iff all_components cong: if_cong)
      (erule back_subst [of run_reaches], simp add: fun_eq_iff all_components abort_others_def)
  have 3: "run_reaches (sample_run ?e (Ended (JoinError ''c'')) (Active True) (Ended (Finished (Inr ()))) ?x)"
    using run_reaches.more [OF 2 run_step.cancelled [of _ RegistrationTask "''c''"]]
    by (simp add: sample_run_def fun_upd_twist)
  have 4: "run_reaches (sample_run ?e (Ended (JoinError ''c'')) (Ended (JoinError ''c'')) (Ended (Finished (Inr ()))) ?x)"
    using run_reaches.more [OF 3 run_step.cancelled [of _ ServiceTask "''c''"]]
    by (simp add: sample_run_def fun_upd_twist)
  show ?thesis
    using run_reaches.more [OF 4 run_step.reaped [of _ PublisherTask sample_exit]]
    by (simp add: sample_run_def sample_returned_def)
qed

theorem run_leaves_no_task_witness:
  "wf {(w', w). run_reaches w \<and> (\<exists>ev. run_step ev w w')}
    \<and> returns_surely sample_ended \<and> (\<exists>w'. run_step Runtime sample_ended w')
    \<and> (\<forall>c. \<not> is_active (lc_tasks sample_returned c))
    \<and> list_ex (\<lambda>(c, r). sample_exit = exit_error c r) (lc_exited sample_returned)"
  using run_leaves_no_task [OF sample_run_ended] run_leaves_no_task [OF sample_run_returned]
  by (simp add: sample_ended_def sample_returned_def sample_run_def fun_eq_iff all_components)

end
