(* ===== verification/Example_Properties.thy ===== *)
theory Example_Properties
  imports Claim_Preparer Dra_Plugin_Properties
begin

text \<open>
  The example drivers run by the DRA service: what the kubelet is answered for a pair of
  accelerators, and that the static driver prepares exactly the devices it publishes.
\<close>

subsection \<open>Pairs\<close>

lemma pair_lookup:
  "bt_lookup (prd_pairs (pair_driver_new name pool pairs)) n = None \<longleftrightarrow> n \<notin> ap_name ` set pairs"
  "bt_lookup (prd_pairs (pair_driver_new name pool pairs)) n = Some pair \<Longrightarrow> ap_name pair = n"
proof -
  show "bt_lookup (prd_pairs (pair_driver_new name pool pairs)) n = None \<longleftrightarrow> n \<notin> ap_name ` set pairs"
    by (auto simp: pair_driver_new_def bt_lookup_collect map_of_eq_None_iff rev_map [symmetric] image_image)
  assume "bt_lookup (prd_pairs (pair_driver_new name pool pairs)) n = Some pair"
  then have "map_of (rev (map (\<lambda>pair. (ap_name pair, pair)) pairs)) n = Some pair"
    by (simp add: pair_driver_new_def bt_lookup_collect)
  from map_of_SomeD [OF this] show "ap_name pair = n" by auto
qed

definition pair_allocated :: "string \<Rightarrow> accelerator_pair list \<Rightarrow> allocated_device \<Rightarrow> bool" where
  "pair_allocated pool pairs a \<longleftrightarrow> ad_pool_name a = pool \<and> ad_device_name a \<in> ap_name ` set pairs"

lemma pair_prepare_device_ok:
  "(\<exists>p. pair_prepare_device (pair_driver_new name pool pairs) a = Inr p) \<longleftrightarrow> pair_allocated pool pairs a"
  using pair_lookup(1) [of name pool pairs "ad_device_name a"]
  by (auto simp: pair_prepare_device_def pair_allocated_def pair_driver_new_def split: option.splits)

lemma pair_prepare_device_cdi:
  "pair_prepare_device (pair_driver_new name pool pairs) a = Inr p \<Longrightarrow>
     pr_cdi_device_ids p = [''accelerator.example.com/pair='' @ pr_device_name p]"
  by (auto simp: pair_prepare_device_def pair_cdi_device_id_def PAIR_CDI_KIND_def split: option.splits if_splits)

lemma traverse_ok: "(\<exists>ys. traverse f xs = Inr ys) \<longleftrightarrow> list_all (\<lambda>x. \<exists>y. f x = Inr y) xs"
  by (induction xs) (auto simp: res_simps)

lemma pair_traverse_cdi:
  "traverse (pair_prepare_device (pair_driver_new name pool pairs)) ds = Inr ps \<Longrightarrow>
     list_all (\<lambda>p. pr_cdi_device_ids p = [''accelerator.example.com/pair='' @ pr_device_name p]) ps"
  by (induction ds arbitrary: ps) (auto simp: res_simps pair_prepare_device_cdi)

lemma responses_distinct:
  assumes "distinct (map cr_uid claims)" "i < length claims"
  shows "bt_lookup (responses dbg (map (\<lambda>(i, c). (c, f i c)) (enumerate 0 claims))) (cr_uid (claims ! i))
    = Some (node_prepare_response dbg (f i (claims ! i)))"
proof -
  let ?xs = "map (\<lambda>(claim, result). (cr_uid claim, node_prepare_response dbg result))
    (map (\<lambda>(i, c). (c, f i c)) (enumerate 0 claims))"
  have "map fst ?xs = map cr_uid claims"
    by (simp add: case_prod_unfold comp_def) (simp flip: map_map add: comp_def [of cr_uid snd, symmetric])
  then have d: "distinct (map fst ?xs)" using assms(1) by simp
  have "(i, claims ! i) \<in> set (enumerate 0 claims)" using assms(2) by (auto simp: in_set_enumerate_eq)
  then have "(cr_uid (claims ! i), node_prepare_response dbg (f i (claims ! i))) \<in> set ?xs" by force
  with d show ?thesis
    unfolding responses_def bt_collect_eq by (subst bt.lookup_collect_distinct) (simp_all add: map_of_eq_Some_iff)
qed

lemma response_error: "nr_error (node_prepare_response dbg result) = [] \<longleftrightarrow> \<not> isl result"
  by (cases result) (simp_all add: node_prepare_response_def)

subsection \<open>Properties\<close>

text \<open>
  With the accelerator-pair driver as backend and distinct claims in the call, the kubelet is told
  that a claim is prepared exactly when the claim resolves and every device allocated to it is an
  advertised pair of the driver's pool, so a single card is never prepared; each device of the answer
  has the CDI name of its pair.
\<close>
lemma pair_driver_prepares:
  assumes "resolver_ok (sv_resolver sv)" and "sv_metadata sv = None" and "distinct (map wc_uid request)"
    and "node_prepare_resources A sv (pair_backend (pair_driver_new name pool pairs)) request s = (Some resp, s')"
    and "i < length request"
  shows "\<exists>r. bt_lookup resp (wc_uid (request ! i)) = Some r
    \<and> (nr_error r = [] \<longleftrightarrow>
        (\<exists>resolved. resolve (ce_show_err A) (sv_resolver sv) (claim_from_wire (request ! i)) (ce_answers A i) = Inr resolved
          \<and> list_all (pair_allocated pool pairs) (rc_devices resolved)))
    \<and> list_all (\<lambda>w. wp_cdi_device_ids w = [''accelerator.example.com/pair='' @ wp_device_name w]) (nr_devices r)"
proof -
  let ?claims = "map claim_from_wire request" and ?d = "pair_driver_new name pool pairs"
  let ?one = "\<lambda>r. traverse (pair_prepare_device ?d) (rc_devices r)"
  let ?f = "\<lambda>i c. res_bind (resolve (ce_show_err A) (sv_resolver sv) c (ce_answers A i)) ?one"
  have uids: "distinct (map cr_uid ?claims)" using assms(3) by (simp add: comp_def)
  then have "distinct ?claims" by (simp only: distinct_map)
  moreover have "0 < cv_max_concurrent_resolves (sv_resolver sv)" using assms(1) by (simp add: resolver_ok_def)
  ultimately have plain: "prepare_plain A (sv_resolver sv) (pair_backend ?d) ?claims
      = Some (responses (ce_dbg A) (map (\<lambda>(i, c). (c, ?f i c)) (enumerate 0 ?claims)))"
    by (intro pair_contract.answers_independent)
  have "request \<noteq> []" using assms(5) by auto
  with plain assms(2,4) have "resp = responses (ce_dbg A) (map (\<lambda>(i, c). (c, ?f i c)) (enumerate 0 ?claims))"
    by (simp add: node_prepare_resources_def)
  moreover have "i < length ?claims" using assms(5) by simp
  ultimately have "bt_lookup resp (cr_uid (?claims ! i)) = Some (node_prepare_response (ce_dbg A) (?f i (?claims ! i)))"
    using responses_distinct [OF uids, of i "ce_dbg A" ?f] by simp
  then have look: "bt_lookup resp (wc_uid (request ! i))
      = Some (node_prepare_response (ce_dbg A) (?f i (claim_from_wire (request ! i))))"
    using assms(5) by simp
  show ?thesis
  proof (cases "resolve (ce_show_err A) (sv_resolver sv) (claim_from_wire (request ! i)) (ce_answers A i)")
    case (Inr resolved)
    have "(\<exists>ps. ?one resolved = Inr ps) \<longleftrightarrow> list_all (pair_allocated pool pairs) (rc_devices resolved)"
      unfolding traverse_ok pair_prepare_device_ok ..
    then have "\<not> isl (?one resolved) \<longleftrightarrow> list_all (pair_allocated pool pairs) (rc_devices resolved)"
      by (cases "?one resolved") auto
    moreover have "list_all (\<lambda>w. wp_cdi_device_ids w = [''accelerator.example.com/pair='' @ wp_device_name w])
        (nr_devices (node_prepare_response (ce_dbg A) (?one resolved)))"
      using pair_traverse_cdi [of name pool pairs "rc_devices resolved"]
      by (cases "?one resolved")
        (auto simp: node_prepare_response_def prepared_device_to_wire_def list_all_iff)
    ultimately show ?thesis using look Inr by (simp add: response_error)
  qed (use look in \<open>simp add: node_prepare_response_def\<close>)
qed

subsection \<open>The static driver\<close>

text \<open>The devices of a published snapshot.\<close>

definition published :: "(string, 'b pool_inventory) btree \<Rightarrow> string \<Rightarrow> string \<Rightarrow> bool" where
  "published snapshot pool name \<longleftrightarrow>
     (case bt_lookup snapshot pool of None \<Rightarrow> False
      | Some inventory \<Rightarrow> name \<in> (\<lambda>d. pd_name (id_device d)) ` set (pi_devices inventory))"

text \<open>\<open>with_inventory\<close> keeps the two lists of devices of the driver the same.\<close>

definition static_ok :: "'b static_driver \<Rightarrow> bool" where
  "static_ok d \<longleftrightarrow> pred_option (\<lambda>inventory. sd_devices d = map id_device (pi_devices inventory)) (sd_pool_inventory d)"

lemma policies_device [simp]: "id_device (apply_policies d device) = id_device device"
  by (simp add: apply_policies_def Let_def inventory_device_with_taint_def inventory_device_with_binding_def
      split: option.splits)

lemma static_snapshot_published:
  assumes "static_ok d"
  shows "published (static_snapshot d) pool name \<longleftrightarrow> has_device d pool name"
proof -
  have one: "bt_collect [(k, v)] = [(k, v)]" for k :: string and v :: 'c by (simp add: bt_collect_def)
  have "(\<lambda>x. pd_name (id_device x)) ` set (case sd_pool_inventory d of
      None \<Rightarrow> map inventory_device_new (sd_devices d) | Some inventory \<Rightarrow> pi_devices inventory)
      = pd_name ` set (sd_devices d)"
    using assms by (auto simp: static_ok_def inventory_device_new_def image_image split: option.splits)
  then show ?thesis
    by (auto simp: published_def static_snapshot_def static_inventory_def Let_def one bt_lookup_def
        pool_inventory_new_def has_device_def list_ex_iff image_image split: option.splits)
qed

lemma static_config_ok:
  "static_main_config B vars node_error = Some (Inr c) \<Longrightarrow>
     static_ok (sc_driver c) \<and> sd_name (sc_driver c) = sc_driver_name c"
  by (auto simp: static_main_config_def Let_def res_simps static_ok_def with_inventory_def with_binding_def
      with_taint_def static_driver_new_def split: sum.splits prod.splits if_splits option.splits)

lemma static_prepare_device_ok:
  "(\<exists>p. static_prepare_device d a = Inr p) \<longleftrightarrow> has_device d (ad_pool_name a) (ad_device_name a)"
  by (simp add: static_prepare_device_def)

lemma static_plugin_ok:
  assumes "static_main_plugin feature hs dbg vars c = Inr (d, plugin)"
  shows "built hs dbg (sd_name (sc_driver c)) plugin" "dp_driver_name plugin = sc_driver_name c"
    "\<exists>p. d = with_status_publisher (sc_driver c) p"
proof -
  have from_name: "dp_driver_name p = n" if "from_driver n node b = Inr p" for n node b p
    using from_driver_wf(2) [OF that] .
  then have health_name: "dp_driver_name p = n" if "plugin_with_resource_health hs n node b = Inr p" for n node b p
    using that by (auto simp: plugin_with_resource_health_def res_simps)
  have metadata_name: "dp_driver_name p' = dp_driver_name p" if "plugin_with_device_metadata dbg p options = Inr p'" for p p' options
    using that by (auto simp: plugin_with_device_metadata_def res_simps)
  let ?health = "env_or_default vars ''DRA_EXAMPLE_RESOURCE_HEALTH'' ''0''"
  let ?made = "if ?health = ''0''
    then from_driver (sc_driver_name c) (sc_node_name c) (sd_name (sc_driver c))
    else plugin_with_resource_health hs (sc_driver_name c) (sc_node_name c) (sd_name (sc_driver c))"
  obtain p0 publisher where made: "?made = Inr p0"
    and d: "d = with_status_publisher (sc_driver c) publisher"
    and p: "(if sc_metadata c then plugin_with_device_metadata dbg p0 metadata_options_v1beta1 else Inr p0) = Inr plugin"
    using assms
    by (cases "?health = ''0''"; cases "?health = ''1''"; cases feature)
      (auto simp: static_main_plugin_def Let_def res_simps with_status_publisher_def)
  have p0: "built hs dbg (sd_name (sc_driver c)) p0" "dp_driver_name p0 = sc_driver_name c"
    using made from_name health_name by (auto split: if_splits intro: built.plain built.health)
  with d p show "built hs dbg (sd_name (sc_driver c)) plugin" "dp_driver_name plugin = sc_driver_name c"
      "\<exists>p. d = with_status_publisher (sc_driver c) p"
    using metadata_name by (auto split: if_splits intro: built.metadata)
qed

text \<open>
  C36: a validation driver that its \<open>main\<close> has configured and a plugin has been built for is
  consistent: the plugin has the driver's name everywhere, a device is prepared exactly when the
  published snapshot has it in that pool, and every claim of a batch has one result.
\<close>
theorem static_driver_prepares_published:
  assumes "static_main_config B vars node_error = Some (Inr c)"
    and "static_main_plugin feature hs dbg vars c = Inr (d, plugin)"
  shows "plugin_wf hs plugin \<and> dp_driver_name plugin = sd_name d
    \<and> ((\<exists>p. static_prepare_device d a = Inr p)
        \<longleftrightarrow> published (static_snapshot d) (ad_pool_name a) (ad_device_name a))
    \<and> fst ` set (fst (static_prepare E d claims h)) = rc_claim ` set claims"
proof -
  note plugin = static_plugin_ok [OF assms(2)]
  obtain p where d: "d = with_status_publisher (sc_driver c) p" using plugin(3) by blast
  then have "static_ok d" "sd_name d = sc_driver_name c"
    using static_config_ok [OF assms(1)] by (simp_all add: static_ok_def with_status_publisher_def)
  then show ?thesis
    using built_wf [OF plugin(1)] plugin(2) static.prepare_keys [of E d claims h]
    by (simp add: static_snapshot_published static_prepare_device_ok)
qed

definition sample_vars :: "string \<Rightarrow> string option" where
  "sample_vars name =
     (if name = ''NODE_NAME'' then Some ''n'' else if name = ''DRA_EXAMPLE_BINDING_CONDITIONS'' then Some ''1'' else None)"

definition sample_static :: "'b static_driver" where
  "sample_static = (static_driver_new DEFAULT_DRIVER_NAME DEFAULT_POOL_NAME (parse_device_names DEFAULT_DEVICE_NAMES))
     \<lparr>sd_binding := Some \<lparr>db_conditions = [''dra.example.com/Attached''],
        db_failure_conditions = [''dra.example.com/AttachFailed''], db_binds_to_node = True\<rparr>\<rparr>"

definition sample_config :: "'b static_config" where
  "sample_config = \<lparr>sc_driver_name = DEFAULT_DRIVER_NAME, sc_node_name = ''n'', sc_metadata = False,
     sc_driver = sample_static\<rparr>"

lemma sample_main_config: "static_main_config B sample_vars '''' = Some (Inr sample_config)"
  by (simp add: static_main_config_def Let_def flag_var_def env_or_default_def sample_vars_def sample_config_def
      sample_static_def with_binding_def with_taint_def static_driver_new_def device_binding_new_def
      device_binding_with_node_binding_def device_binding_with_condition_def device_binding_with_failure_condition_def)

lemma sample_main_plugin:
  "\<exists>d plugin. static_main_plugin False ''h'' dbg sample_vars sample_config = Inr (d, plugin)"
proof -
  have v: "validate_driver_name DEFAULT_DRIVER_NAME = Inr ()" by code_simp
  obtain plugin where "from_driver DEFAULT_DRIVER_NAME ''n'' DEFAULT_DRIVER_NAME = Inr plugin"
    by (simp add: from_driver_def v sample_names registration_server_new_def claim_resolver_new_def
        publisher_new_def Let_def)
  moreover obtain publisher where "status_publisher_new DEFAULT_DRIVER_NAME = Inr publisher"
    by (simp add: status_publisher_new_def v)
  ultimately show ?thesis
    by (simp add: static_main_plugin_def Let_def sample_config_def sample_static_def env_or_default_def
        sample_vars_def with_status_publisher_def static_driver_new_def)
qed

theorem static_driver_prepares_published_witness:
  "\<exists>(d :: 'b static_driver) plugin. \<forall>a E claims h. plugin_wf ''h'' plugin \<and> dp_driver_name plugin = sd_name d
    \<and> ((\<exists>p. static_prepare_device d a = Inr p)
        \<longleftrightarrow> published (static_snapshot d) (ad_pool_name a) (ad_device_name a))
    \<and> fst ` set (fst (static_prepare E d claims h)) = rc_claim ` set claims"
proof -
  obtain d :: "'b static_driver" and plugin where run: "static_main_plugin False ''h'' dbg sample_vars sample_config = Inr (d, plugin)"
    using sample_main_plugin by blast
  show ?thesis
    by (intro exI [of _ d] exI [of _ plugin] allI)
      (rule static_driver_prepares_published [OF sample_main_config run])
qed

end
