(* ===== verification/Pool_Status.thy ===== *)
theory Pool_Status
  imports Claim_Objects
begin

text \<open>
  \<open>dra/src/pool_status.rs\<close>: one-shot requests to the pool-status controller. The API server answers
  discovery, creation and deletion; the \<open>k\<close>-th read of a request takes a time and has an answer.
  The request's spec and the controller's summary are types of the API schema, so they are type
  parameters. Time is in nanoseconds from the start of \<open>wait\<close>, whose timeout wins over a read or a
  sleep that ends after it.
\<close>

subsection \<open>Objects and errors\<close>

record 'p request_status =
  rq_conditions :: "condition list option"
  rq_summary :: 'p

record 'p request_object =
  ro_name :: "string option"
  ro_uid :: "string option"
  ro_status :: "'p request_status option"

record api_resource =
  rr_name :: string
  rr_namespaced :: bool

datatype pool_error =
    Unsupported
  | ApiFailure kube_error
  | WaitTimeout nat
  | RequestFailed (failed_reason: string) (failed_message: string)
  | Replaced string
  | MissingIdentity

text \<open>\<open>dbg_duration\<close> is the \<open>Debug\<close> text of a duration.\<close>

fun show_pool_error :: "(nat \<Rightarrow> string) \<Rightarrow> (kube_error \<Rightarrow> string) \<Rightarrow> pool_error \<Rightarrow> string" where
  "show_pool_error dbg_duration show_err Unsupported =
     ''ResourcePoolStatusRequest is not served; enable DRAResourcePoolStatus and resource.k8s.io/v1alpha3''"
| "show_pool_error dbg_duration show_err (ApiFailure err) = show_err err"
| "show_pool_error dbg_duration show_err (WaitTimeout timeout) =
     ''pool-status request did not complete within '' @ dbg_duration timeout"
| "show_pool_error dbg_duration show_err (RequestFailed reason message) =
     ''pool-status request failed: '' @ reason @ '': '' @ message"
| "show_pool_error dbg_duration show_err (Replaced name) =
     ''pool-status request '' @ name @ '' was replaced''"
| "show_pool_error dbg_duration show_err MissingIdentity =
     ''created pool-status request has no server-assigned name or UID''"

subsection \<open>Creating a request\<close>

definition POOL_STATUS_API_VERSION :: string where
  "POOL_STATUS_API_VERSION = ''resource.k8s.io/v1alpha3''"

record pool_query =
  pq_name :: string
  pq_uid :: string

datatype 's pool_call =
    Discover string
  | CreateRequest (generate_name: string) (request_spec: 's)

text \<open>\<open>option.filter\<close> of a name that is not empty.\<close>

definition nonempty_text :: "string option \<Rightarrow> string option" where
  "nonempty_text m = (case m of Some (c # cs) \<Rightarrow> Some (c # cs) | _ \<Rightarrow> None)"

definition query_of :: "'p request_object \<Rightarrow> pool_error + pool_query" where
  "query_of created =
     (case (nonempty_text (ro_name created), nonempty_text (ro_uid created)) of
        (Some name, Some uid) \<Rightarrow> Inr \<lparr>pq_name = name, pq_uid = uid\<rparr>
      | _ \<Rightarrow> Inl MissingIdentity)"

definition pool_status_create ::
    "kube_error + api_resource list \<Rightarrow> (string \<Rightarrow> 's \<Rightarrow> kube_error + 'p request_object) \<Rightarrow> 's
      \<Rightarrow> (pool_error + pool_query) \<times> 's pool_call list" where
  "pool_status_create discovery create spec =
     (let calls = [Discover POOL_STATUS_API_VERSION]
      in case discovery of
           Inl (ApiError code reason message) \<Rightarrow>
             (Inl (if code = 404 then Unsupported else ApiFailure (ApiError code reason message)), calls)
         | Inl err \<Rightarrow> (Inl (ApiFailure err), calls)
         | Inr resources \<Rightarrow>
             if \<not> list_ex (\<lambda>r. rr_name r = ''resourcepoolstatusrequests'' \<and> \<not> rr_namespaced r) resources
             then (Inl Unsupported, calls)
             else (res_bind (res_map_err ApiFailure (create ''dra-pool-status-'' spec)) query_of,
                   calls @ [CreateRequest ''dra-pool-status-'' spec]))"

subsection \<open>Waiting for the controller\<close>

definition SECOND :: nat where "SECOND = Rust_Io.seconds 1"

definition condition_true :: "string \<Rightarrow> condition \<Rightarrow> bool" where
  "condition_true type c \<longleftrightarrow> cn_type c = type \<and> cn_status c = ''True''"

text \<open>The body of the loop after a read: the result of \<open>wait\<close>, or \<open>None\<close> to sleep and read again.\<close>

definition check_request ::
    "pool_query \<Rightarrow> kube_error + 'p request_object \<Rightarrow> (pool_error + 'p request_status) option" where
  "check_request q answer =
     (case answer of
        Inl err \<Rightarrow> Some (Inl (ApiFailure err))
      | Inr current \<Rightarrow>
          if ro_uid current \<noteq> Some (pq_uid q) then Some (Inl (Replaced (pq_name q)))
          else case ro_status current of
            None \<Rightarrow> None
          | Some status \<Rightarrow>
              (let conditions = (case rq_conditions status of None \<Rightarrow> [] | Some cs \<Rightarrow> cs)
               in case find (condition_true ''Failed'') conditions of
                    Some failed \<Rightarrow> Some (Inl (RequestFailed (cn_reason failed) (cn_message failed)))
                  | None \<Rightarrow>
                      if list_ex (condition_true ''Complete'') conditions then Some (Inr status)
                      else None))"

text \<open>The result and the number of reads that were answered in time.\<close>

function wait_loop ::
    "(nat \<Rightarrow> nat \<times> (kube_error + 'p request_object)) \<Rightarrow> pool_query \<Rightarrow> nat \<Rightarrow> nat \<Rightarrow> nat
      \<Rightarrow> (pool_error + 'p request_status) \<times> nat" where
  "wait_loop reads q timeout k now =
     (case reads k of
        (duration, answer) \<Rightarrow>
          if now + duration > timeout then (Inl (WaitTimeout timeout), k)
          else case check_request q answer of
            Some result \<Rightarrow> (result, k + 1)
          | None \<Rightarrow>
              if now + duration + SECOND > timeout then (Inl (WaitTimeout timeout), k + 1)
              else wait_loop reads q timeout (k + 1) (now + duration + SECOND))"
  by pat_completeness auto
termination
  by (relation "measure (\<lambda>(reads, q, timeout, k, now). timeout + 1 - now)")
    (auto simp: SECOND_def Rust_Io.seconds_def)

declare wait_loop.simps [simp del]

definition pool_status_wait ::
    "(nat \<Rightarrow> nat \<times> (kube_error + 'p request_object)) \<Rightarrow> pool_query \<Rightarrow> nat
      \<Rightarrow> (pool_error + 'p request_status) \<times> nat" where
  "pool_status_wait reads q timeout = wait_loop reads q timeout 0 0"

subsection \<open>Deleting the request\<close>

text \<open>\<open>delete\<close> is the server's answer to a deletion by name with the UID as a precondition.\<close>

definition pool_status_delete :: "(string \<Rightarrow> string \<Rightarrow> kube_error + unit) \<Rightarrow> pool_query \<Rightarrow> pool_error + unit" where
  "pool_status_delete delete q =
     (case delete (pq_name q) (pq_uid q) of
        Inr _ \<Rightarrow> Inr ()
      | Inl (ApiError code reason message) \<Rightarrow>
          if code = 404 then Inr () else Inl (ApiFailure (ApiError code reason message))
      | Inl err \<Rightarrow> Inl (ApiFailure err))"

subsection \<open>Which read decides\<close>

definition has_true :: "string \<Rightarrow> 'p request_status \<Rightarrow> bool" where
  "has_true type st \<longleftrightarrow>
     (case rq_conditions st of None \<Rightarrow> False
      | Some cs \<Rightarrow> list_ex (\<lambda>c. cn_type c = type \<and> cn_status c = ''True'') cs)"

definition own_complete :: "string \<Rightarrow> 'p request_status \<Rightarrow> kube_error + 'p request_object \<Rightarrow> bool" where
  "own_complete uid st answer \<longleftrightarrow>
     (case answer of Inl _ \<Rightarrow> False
      | Inr obj \<Rightarrow> ro_uid obj = Some uid \<and> ro_status obj = Some st
          \<and> has_true ''Complete'' st \<and> \<not> has_true ''Failed'' st)"

definition own_pending :: "string \<Rightarrow> kube_error + 'p request_object \<Rightarrow> bool" where
  "own_pending uid answer \<longleftrightarrow>
     (case answer of Inl _ \<Rightarrow> False
      | Inr obj \<Rightarrow> ro_uid obj = Some uid
          \<and> (case ro_status obj of None \<Rightarrow> True
             | Some st \<Rightarrow> \<not> has_true ''Complete'' st \<and> \<not> has_true ''Failed'' st))"

lemma find_condition: "find (condition_true type) cs = None \<longleftrightarrow> \<not> list_ex (\<lambda>c. cn_type c = type \<and> cn_status c = ''True'') cs"
  by (auto simp: find_None_iff list_ex_iff condition_true_def)

lemma check_request_Inr: "check_request q answer = Some (Inr st) \<longleftrightarrow> own_complete (pq_uid q) st answer"
proof (cases answer)
  case (Inr obj)
  show ?thesis
  proof (cases "ro_status obj")
    case (Some status)
    then show ?thesis
      using Inr find_condition [of "''Failed''" "case rq_conditions status of None \<Rightarrow> [] | Some cs \<Rightarrow> cs"]
      by (cases "rq_conditions status")
        (auto simp: check_request_def own_complete_def has_true_def condition_true_def list_ex_iff split: option.splits)
  qed (simp add: Inr check_request_def own_complete_def)
qed (simp add: check_request_def own_complete_def)

lemma check_request_None: "check_request q answer = None \<longleftrightarrow> own_pending (pq_uid q) answer"
proof (cases answer)
  case (Inr obj)
  show ?thesis
  proof (cases "ro_status obj")
    case (Some status)
    then show ?thesis
      using Inr find_condition [of "''Failed''" "case rq_conditions status of None \<Rightarrow> [] | Some cs \<Rightarrow> cs"]
      by (cases "rq_conditions status")
        (auto simp: check_request_def own_pending_def has_true_def condition_true_def list_ex_iff split: option.splits)
  qed (simp add: Inr check_request_def own_pending_def)
qed (simp add: check_request_def own_pending_def)

text \<open>When the \<open>k\<close>-th read starts and is answered if all before it are pending.\<close>

fun read_starts :: "(nat \<Rightarrow> nat \<times> 'a) \<Rightarrow> nat \<Rightarrow> nat" where
  "read_starts reads 0 = 0"
| "read_starts reads (Suc k) = read_starts reads k + fst (reads k) + 1000000000"

definition read_answered :: "(nat \<Rightarrow> nat \<times> 'a) \<Rightarrow> nat \<Rightarrow> nat" where
  "read_answered reads k = read_starts reads k + fst (reads k)"

lemma read_starts_mono: "j \<le> k \<Longrightarrow> read_starts reads j \<le> read_starts reads k"
  by (induction k) (auto simp: le_Suc_eq)

lemma read_starts_lower: "k * 1000000000 \<le> read_starts reads k"
  by (induction k) auto

lemma pending_not_complete: "own_pending uid answer \<Longrightarrow> \<not> own_complete uid st answer"
  by (auto simp: own_pending_def own_complete_def split: sum.splits option.splits)

lemma wait_loop_success:
  "now = read_starts reads k \<Longrightarrow>
     fst (wait_loop reads q timeout k now) = Inr st \<longleftrightarrow>
       (\<exists>n\<ge>k. own_complete (pq_uid q) st (snd (reads n)) \<and> read_answered reads n \<le> timeout
          \<and> (\<forall>j\<in>{k..<n}. own_pending (pq_uid q) (snd (reads j))))"
proof (induction reads q timeout k now rule: wait_loop.induct)
  case (1 reads q timeout k now)
  obtain duration answer where r: "reads k = (duration, answer)" by fastforce
  have answered: "read_answered reads k = now + duration" using 1(2) r by (simp add: read_answered_def)
  show ?case
  proof (cases "check_request q answer")
    case (Some result)
    then have "\<not> own_pending (pq_uid q) (snd (reads k))" using check_request_None [of q answer] r by simp
    then have "k \<notin> {k..<n}" if "\<forall>j\<in>{k..<n}. own_pending (pq_uid q) (snd (reads j))" for n
      using that by blast
    then have "(\<exists>n\<ge>k. own_complete (pq_uid q) st (snd (reads n)) \<and> read_answered reads n \<le> timeout
          \<and> (\<forall>j\<in>{k..<n}. own_pending (pq_uid q) (snd (reads j))))
        \<longleftrightarrow> own_complete (pq_uid q) st answer \<and> now + duration \<le> timeout"
      using r answered by (metis atLeastLessThan_iff atLeastLessThan_empty empty_iff le_refl nat_less_le snd_conv)
    then show ?thesis using r Some check_request_Inr [of q answer st] by (simp add: wait_loop.simps)
  next
    case None
    then have pending: "own_pending (pq_uid q) (snd (reads k))" using check_request_None [of q answer] r by simp
    have later: "(\<exists>n\<ge>k. own_complete (pq_uid q) st (snd (reads n)) \<and> read_answered reads n \<le> timeout
          \<and> (\<forall>j\<in>{k..<n}. own_pending (pq_uid q) (snd (reads j))))
        \<longleftrightarrow> (\<exists>n\<ge>Suc k. own_complete (pq_uid q) st (snd (reads n)) \<and> read_answered reads n \<le> timeout
          \<and> (\<forall>j\<in>{Suc k..<n}. own_pending (pq_uid q) (snd (reads j))))" (is "?l \<longleftrightarrow> ?r")
    proof
      assume ?l
      then obtain n where n: "k \<le> n" "own_complete (pq_uid q) st (snd (reads n))"
          "read_answered reads n \<le> timeout" "\<forall>j\<in>{k..<n}. own_pending (pq_uid q) (snd (reads j))" by blast
      with pending_not_complete [OF pending] have "Suc k \<le> n" by (cases "n = k") auto
      with n show ?r by auto
    next
      assume ?r
      then obtain n where n: "Suc k \<le> n" "own_complete (pq_uid q) st (snd (reads n))"
          "read_answered reads n \<le> timeout" "\<forall>j\<in>{Suc k..<n}. own_pending (pq_uid q) (snd (reads j))" by blast
      have "own_pending (pq_uid q) (snd (reads j))" if "j \<in> {k..<n}" for j
        using that n(4) pending by (cases "j = k") auto
      with n show ?l by (intro exI [of _ n]) auto
    qed
    show ?thesis
    proof (cases "now + duration + SECOND \<le> timeout")
      case True
      then have "fst (wait_loop reads q timeout (k + 1) (now + duration + SECOND)) = Inr st \<longleftrightarrow>
          (\<exists>n\<ge>Suc k. own_complete (pq_uid q) st (snd (reads n)) \<and> read_answered reads n \<le> timeout
            \<and> (\<forall>j\<in>{Suc k..<n}. own_pending (pq_uid q) (snd (reads j))))"
        using 1(1) [OF r [symmetric] _ None] 1(2) r by (simp add: SECOND_def Rust_Io.seconds_def)
      with later show ?thesis using r None True by (simp add: wait_loop.simps)
    next
      case False
      have "timeout < read_answered reads n" if "Suc k \<le> n" for n
        using read_starts_mono [OF that, of reads] False 1(2) r
        by (simp add: read_answered_def SECOND_def Rust_Io.seconds_def)
      then have "\<not> (\<exists>n\<ge>Suc k. own_complete (pq_uid q) st (snd (reads n)) \<and> read_answered reads n \<le> timeout
            \<and> (\<forall>j\<in>{Suc k..<n}. own_pending (pq_uid q) (snd (reads j))))" by fastforce
      moreover have "fst (wait_loop reads q timeout k now) \<noteq> Inr st"
        using False r None by (subst wait_loop.simps) simp
      ultimately show ?thesis using later by blast
    qed
  qed
qed

lemma wait_loop_reads:
  "now = read_starts reads k \<Longrightarrow> now \<le> timeout \<Longrightarrow>
     snd (wait_loop reads q timeout k now) \<le> timeout div 1000000000 + 1"
proof (induction reads q timeout k now rule: wait_loop.induct)
  case (1 reads q timeout k now)
  obtain duration answer where r: "reads k = (duration, answer)" by fastforce
  have "k * 1000000000 \<le> timeout" using read_starts_lower [of k reads] 1(2,3) by simp
  then have k: "k \<le> timeout div 1000000000" by (simp add: less_eq_div_iff_mult_less_eq)
  show ?case
  proof (cases "check_request q answer = None \<and> now + duration + SECOND \<le> timeout")
    case True
    with 1(1) [OF r [symmetric]] 1(2) r
    have "snd (wait_loop reads q timeout (k + 1) (now + duration + SECOND)) \<le> timeout div 1000000000 + 1"
      by (simp add: SECOND_def Rust_Io.seconds_def)
    with True r show ?thesis by (simp add: wait_loop.simps [of reads q timeout k])
  next
    case False
    with k r show ?thesis by (subst wait_loop.simps) (auto split: option.splits)
  qed
qed

subsection \<open>Properties\<close>

text \<open>
  C35: \<open>wait\<close> returns a status exactly when a read that is answered within the timeout finds the
  request with its own UID, complete and not failed, with that status, and every read before it found
  the request with its own UID and undecided; it always returns, after at most one read for each
  second of the timeout and one more.
\<close>
theorem pool_wait_decides:
  "(fst (pool_status_wait reads q timeout) = Inr st \<longleftrightarrow>
     (\<exists>n. own_complete (pq_uid q) st (snd (reads n)) \<and> read_answered reads n \<le> timeout
        \<and> list_all (\<lambda>j. own_pending (pq_uid q) (snd (reads j))) [0..<n]))
   \<and> snd (pool_status_wait reads q timeout) \<le> timeout div 1000000000 + 1"
  using wait_loop_success [of 0 reads 0 q timeout st] wait_loop_reads [of 0 reads 0 timeout q]
  by (simp add: pool_status_wait_def list_all_iff)

end
