(* ===== verification/Example_Runs.thy ===== *)
theory Example_Runs
  imports Pool_Status Resource_Health Dra_Registration Example_Drivers
begin

text \<open>
  The smaller programs under \<open>dra/examples\<close>: one pool-status snapshot with its cleanup, the liveness
  probe of the driver image and the resource-health reporter.
\<close>

subsection \<open>One pool-status snapshot\<close>

text \<open>The fields of the spec that the program sets; the client configuration is not modelled.\<close>

record pool_spec =
  pls_driver :: string
  pls_pool_name :: "string option"
  pls_limit :: "int option"

definition pool_spec_of :: "(string \<Rightarrow> string option) \<Rightarrow> pool_spec" where
  "pool_spec_of vars =
     \<lparr>pls_driver = env_or_default vars ''DRIVER_NAME'' ''dra.example.com'',
      pls_pool_name = nonempty_text (vars ''POOL_NAME''), pls_limit = Some 100\<rparr>"

text \<open>\<open>show_err\<close> prints an error; \<open>encode\<close> is the JSON text of a status. The result with the deletions tried.\<close>

definition snapshot_result ::
    "(pool_error \<Rightarrow> string) \<Rightarrow> ('p request_status \<Rightarrow> string + string) \<Rightarrow> pool_error + 'p request_status
      \<Rightarrow> pool_error + unit \<Rightarrow> io_error + string" where
  "snapshot_result show_err encode result cleanup =
     res_bind (case (cleanup, result) of
         (Inl error, Inr _) \<Rightarrow> Inl (io_other (show_err error))
       | _ \<Rightarrow> Inr ()) (\<lambda>_.
     res_bind (res_map_err (\<lambda>error. io_other (show_err error)) result) (\<lambda>status.
     res_map_err io_other (encode status)))"

definition pool_snapshot ::
    "(pool_error \<Rightarrow> string) \<Rightarrow> ('p request_status \<Rightarrow> string + string) \<Rightarrow> (string \<Rightarrow> string option)
      \<Rightarrow> kube_error + api_resource list \<Rightarrow> (string \<Rightarrow> pool_spec \<Rightarrow> kube_error + 'p request_object)
      \<Rightarrow> (nat \<Rightarrow> nat \<times> (kube_error + 'p request_object)) \<Rightarrow> (string \<Rightarrow> string \<Rightarrow> kube_error + unit)
      \<Rightarrow> (io_error + string) \<times> (string \<times> string) list" where
  "pool_snapshot show_err encode vars discovery create reads delete =
     (case fst (pool_status_create discovery create (pool_spec_of vars)) of
        Inl error \<Rightarrow> (Inl (io_other (show_err error)), [])
      | Inr q \<Rightarrow>
          (let result = fst (pool_status_wait reads q (Rust_Io.seconds 60));
               cleanup = pool_status_delete delete q
           in (snapshot_result show_err encode result cleanup, [(pq_name q, pq_uid q)])))"

text \<open>
  A snapshot is printed only when the request completed and is gone again, and every request that
  was created is deleted, once, by its name and UID.
\<close>

lemma pool_snapshot_cleans:
  "pool_snapshot show_err encode vars discovery create reads delete = (r, deletions) \<Longrightarrow>
     (case fst (pool_status_create discovery create (pool_spec_of vars)) of
        Inl _ \<Rightarrow> deletions = [] \<and> \<not> (\<exists>printed. r = Inr printed)
      | Inr q \<Rightarrow> deletions = [(pq_name q, pq_uid q)]
          \<and> (\<forall>printed. r = Inr printed \<longleftrightarrow> pool_status_delete delete q = Inr ()
              \<and> (\<exists>status. fst (pool_status_wait reads q (Rust_Io.seconds 60)) = Inr status \<and> encode status = Inr printed)))"
  by (auto simp: pool_snapshot_def snapshot_result_def res_simps Let_def split: sum.splits)

subsection \<open>The liveness probe of the image\<close>

definition liveness_main ::
    "(string \<Rightarrow> string) \<Rightarrow> (string \<Rightarrow> string option) \<Rightarrow> probe_transport \<Rightarrow> io_error + unit" where
  "liveness_main dbg vars T =
     res_bind (res_map_err (\<lambda>error. io_other (show_validation_error dbg error))
         (probe_new (env_or_default vars ''DRIVER_NAME'' ''dra.example.com''))) (\<lambda>p.
     fst (probe_check T p))"

subsection \<open>The resource-health reporter\<close>

text \<open>\<open>since_epoch\<close> is the time in seconds, or the text of the error of a clock before the epoch.\<close>

definition widget_health_report :: "string + nat \<Rightarrow> resource_health_error + health_report" where
  "widget_health_report since_epoch =
     res_bind (res_map_err MonitorFailed since_epoch) (\<lambda>last_updated_time.
     res_bind (ensure (last_updated_time < 2 ^ 63)
         (MonitorFailed ''out of range integral type conversion attempted'')) (\<lambda>_.
     Inr \<lparr>hr_devices = [\<lparr>dh_pool_name = ''widget-pool'', dh_device_name = ''widget-0'',
            dh_health = HealthHealthy, dh_last_updated_time = int last_updated_time,
            dh_health_check_timeout_seconds = 30,
            dh_message = ''backend monitor reports normal operation''\<rparr>]\<rparr>))"

text \<open>The reports it sends to a watch and its result once the kubelet has closed the watch.\<close>

definition widget_watch :: "string + nat \<Rightarrow> bool \<Rightarrow> health_report list \<times> (resource_health_error + unit)" where
  "widget_watch since_epoch is_open =
     (case widget_health_report since_epoch of
        Inl error \<Rightarrow> ([], Inl error)
      | Inr report \<Rightarrow>
          if is_open then ([report], Inr ())
          else ([], Inl (MonitorFailed ''kubelet stopped the health watch'')))"

end
