(* ===== verification/Binding_Controller.thy ===== *)
theory Binding_Controller
  imports Device_Status
begin

text \<open>
  \<open>dra/examples/binding_controller.rs\<close>: the device statuses that report a simulated attachment for
  the binding conditions of an allocated claim, and the run of the controller, which reads the claim
  and publishes them. Times are seconds; \<open>clock\<close> is the Unix time of the run.
\<close>

subsection \<open>The reports of one state\<close>

datatype binding_state = Pending | Ready | AttachFailed

text \<open>The derived \<open>Debug\<close> text.\<close>

fun show_binding_state :: "binding_state \<Rightarrow> string" where
  "show_binding_state Pending = ''Pending''"
| "show_binding_state Ready = ''Ready''"
| "show_binding_state AttachFailed = ''Failed''"

definition parse_binding_state :: "string \<Rightarrow> io_error + binding_state" where
  "parse_binding_state value =
     (if value = ''pending'' then Inr Pending
      else if value = ''ready'' then Inr Ready
      else if value = ''failed'' then Inr AttachFailed
      else Inl (IoError InvalidInput ''BINDING_STATE must be pending, ready, or failed''))"

text \<open>Replacing the first condition of its type, or adding it at the end.\<close>

fun put_condition :: "condition \<Rightarrow> condition list \<Rightarrow> condition list" where
  "put_condition new [] = [new]"
| "put_condition new (c # cs) = (if cn_type c = cn_type new then new # cs else c # put_condition new cs)"

definition report_condition ::
    "binding_state \<Rightarrow> int option \<Rightarrow> int \<Rightarrow> bool \<Rightarrow> string \<Rightarrow> condition list \<Rightarrow> condition list" where
  "report_condition state generation now satisfied name conditions =
     (let status = (if satisfied then ''True'' else ''False'');
          current = find (\<lambda>c. cn_type c = name) conditions;
          transition_time = (case current of
              None \<Rightarrow> now
            | Some c \<Rightarrow> if cn_status c = status then cn_last_transition_time c else now);
          condition = \<lparr>cn_type = name, cn_status = status, cn_observed_generation = generation,
            cn_reason = ''Validation'' @ show_binding_state state,
            cn_message = ''simulated attachment state from the validation controller'',
            cn_last_transition_time = transition_time\<rparr>
      in put_condition condition conditions)"

definition report_conditions ::
    "binding_state \<Rightarrow> int option \<Rightarrow> int \<Rightarrow> allocation_result \<Rightarrow> condition list \<Rightarrow> condition list" where
  "report_conditions state generation now a conditions =
     fold (report_condition state generation now (state = AttachFailed)) (or_empty (ar_binding_failure_conditions a))
       (fold (report_condition state generation now (state = Ready)) (or_empty (ar_binding_conditions a)) conditions)"

text \<open>The status to start from: the conditions that are on the claim.\<close>

definition first_report :: "string \<Rightarrow> device_status list \<Rightarrow> allocation_result \<Rightarrow> claim_device_status" where
  "first_report driver statuses a =
     (let existing = find (\<lambda>status. as_driver status = driver \<and> as_pool status = ar_pool a
            \<and> as_device status = ar_device a \<and> as_share_id status = ar_share_id a) statuses
      in (claim_device_status_new (ar_pool a) (ar_device a))
           \<lparr>ds_share_id := ar_share_id a,
            ds_conditions := Some (case existing of None \<Rightarrow> [] | Some status \<Rightarrow> or_empty (as_conditions status))\<rparr>)"

text \<open>Keyed by pool, device and share, in this order.\<close>

type_synonym reports = "(status_key, claim_device_status) btree"

definition add_report ::
    "binding_state \<Rightarrow> int option \<Rightarrow> int \<Rightarrow> string \<Rightarrow> device_status list \<Rightarrow> allocation_result \<Rightarrow> reports \<Rightarrow> reports" where
  "add_report state generation now driver statuses a reports =
     (if or_empty (ar_binding_conditions a) = [] then reports
      else let key = StatusKey (ar_pool a) (ar_device a) (ar_share_id a);
               report = (case bt_lookup reports key of
                  Some report \<Rightarrow> report | None \<Rightarrow> first_report driver statuses a)
           in bt_insert key (report\<lparr>ds_conditions :=
                Some (report_conditions state generation now a (or_empty (ds_conditions report)))\<rparr>) reports)"

text \<open>The allocation results, if the claim has them at all.\<close>

definition allocated_results :: "resource_claim \<Rightarrow> allocation_result list option" where
  "allocated_results c = and_then (and_then (claim_allocation c) al_devices) da_results"

definition statuses_for_claim ::
    "binding_state \<Rightarrow> resource_claim \<Rightarrow> string \<Rightarrow> int \<Rightarrow> io_error + claim_device_status list" where
  "statuses_for_claim state c driver now =
     res_bind (ok_or (IoError NotFound ''claim has no device allocation'') (allocated_results c)) (\<lambda>results.
       let reports = fold (add_report state (cl_generation c) now driver (claim_statuses c))
             (filter (\<lambda>a. ar_driver a = driver) results) []
       in if reports = [] then Inl (IoError InvalidInput ''claim has no binding conditions for this driver'')
          else Inr (map snd reports))"

subsection \<open>The run\<close>

definition required_var :: "(string \<Rightarrow> string + string) \<Rightarrow> string \<Rightarrow> io_error + string" where
  "required_var vars name =
     res_map_err (\<lambda>error. IoError InvalidInput (name @ '' must be set: '' @ error)) (vars name)"

text \<open>
  \<open>main\<close> from the claim on: the claim is read once, checked for its UID, and its statuses are
  published. \<open>h\<close> is the history of requests; \<open>Timestamp::from_second\<close> has its own range.
\<close>

definition binding_run ::
    "(json \<Rightarrow> string + string) \<Rightarrow> status_api \<Rightarrow> (kube_error \<Rightarrow> string) \<Rightarrow> (string \<Rightarrow> string)
      \<Rightarrow> binding_state \<Rightarrow> string \<Rightarrow> claim_ref \<Rightarrow> string + int \<Rightarrow> status_request list
      \<Rightarrow> (io_error + publish_outcome) \<times> status_request list" where
  "binding_run json_text A show_err dbg state driver claim clock h =
     (let response = sa_get A h (cr_namespace claim) (cr_name claim);
          h = h @ [GetClaim (cr_namespace claim) (cr_name claim)]
      in case response of
           Inl error \<Rightarrow> (Inl (io_other (show_err error)), h)
         | Inr c \<Rightarrow>
             if cl_uid c \<noteq> Some (cr_uid claim)
             then (Inl (IoError InvalidData ''claim UID changed before reporting binding state''), h)
             else (case res_bind (res_map_err io_other clock) (statuses_for_claim state c driver) of
                     Inl error \<Rightarrow> (Inl error, h)
                   | Inr statuses \<Rightarrow>
                       (case status_publisher_new driver of
                          Inl error \<Rightarrow> (Inl (io_other (show_validation_error dbg error)), h)
                        | Inr p \<Rightarrow>
                            (case publish_fields json_text A p claim statuses h of
                               (result, h) \<Rightarrow> (res_map_err (\<lambda>e. io_other (show_status_error show_err e)) result, h)))))"

end
