(* ===== verification/Binding_Properties.thy ===== *)
theory Binding_Properties
  imports Binding_Controller
begin

text \<open>
  What the binding controller reports: for every allocated device with binding conditions one status,
  with each binding condition true exactly when the state is ready and each failure condition true
  exactly when it failed; and a second report of the same state changes nothing.
\<close>

subsection \<open>Conditions of one status\<close>

definition condition_status :: "string \<Rightarrow> condition list \<Rightarrow> string option" where
  "condition_status name cs = map_option cn_status (find (\<lambda>c. cn_type c = name) cs)"

definition status_text :: "bool \<Rightarrow> string" where
  "status_text satisfied = (if satisfied then ''True'' else ''False'')"

lemma find_put_condition:
  "find (\<lambda>c. cn_type c = n) (put_condition new cs)
     = (if n = cn_type new then Some new else find (\<lambda>c. cn_type c = n) cs)"
  by (induction new cs rule: put_condition.induct) auto

lemma put_condition_same: "find (\<lambda>c. cn_type c = cn_type new) cs = Some new \<Longrightarrow> put_condition new cs = cs"
  by (induction new cs rule: put_condition.induct) (auto split: if_splits)

text \<open>A condition as the state and the generation want it, whatever its transition time.\<close>

definition settled :: "binding_state \<Rightarrow> int option \<Rightarrow> bool \<Rightarrow> string \<Rightarrow> condition list \<Rightarrow> bool" where
  "settled state generation satisfied name cs \<longleftrightarrow>
     (\<exists>t. find (\<lambda>c. cn_type c = name) cs = Some \<lparr>cn_type = name, cn_status = status_text satisfied,
        cn_observed_generation = generation, cn_reason = ''Validation'' @ show_binding_state state,
        cn_message = ''simulated attachment state from the validation controller'',
        cn_last_transition_time = t\<rparr>)"

lemma settled_status: "settled state generation satisfied name cs \<Longrightarrow> condition_status name cs = Some (status_text satisfied)"
  by (auto simp: settled_def condition_status_def)

lemma report_settles: "settled state generation satisfied name (report_condition state generation now satisfied name cs)"
  by (auto simp: settled_def report_condition_def Let_def find_put_condition status_text_def)

lemma report_other:
  "n \<noteq> name \<Longrightarrow> settled state generation s n (report_condition state generation now satisfied name cs)
     \<longleftrightarrow> settled state generation s n cs"
  by (auto simp: settled_def report_condition_def Let_def find_put_condition)

lemma report_settled_same:
  "settled state generation satisfied name cs \<Longrightarrow> report_condition state generation now satisfied name cs = cs"
  by (auto simp: settled_def report_condition_def Let_def status_text_def intro: put_condition_same)

lemma fold_settles:
  "n \<in> set names \<or> settled state generation satisfied n cs \<Longrightarrow>
     settled state generation satisfied n (fold (report_condition state generation now satisfied) names cs)"
proof (induction names arbitrary: cs)
  case (Cons name names)
  show ?case
  proof (cases "n \<in> set names")
    case True
    with Cons.IH show ?thesis by simp
  next
    case False
    with Cons.prems have "settled state generation satisfied n (report_condition state generation now satisfied name cs)"
      by (cases "n = name") (auto simp: report_settles report_other)
    with Cons.IH show ?thesis by simp
  qed
qed simp

lemma fold_other:
  "n \<notin> set names \<Longrightarrow> settled state generation s n (fold (report_condition state generation now satisfied) names cs)
     \<longleftrightarrow> settled state generation s n cs"
  by (induction names arbitrary: cs) (auto simp: report_other)

lemma fold_settled_same:
  "(\<forall>n \<in> set names. settled state generation satisfied n cs) \<Longrightarrow>
     fold (report_condition state generation now satisfied) names cs = cs"
  by (induction names) (auto simp: report_settled_same)

text \<open>The conditions of a result are as the state wants them.\<close>

definition result_settled :: "binding_state \<Rightarrow> int option \<Rightarrow> allocation_result \<Rightarrow> condition list \<Rightarrow> bool" where
  "result_settled state generation a cs \<longleftrightarrow>
     (\<forall>n \<in> set (or_empty (ar_binding_conditions a)). settled state generation (state = Ready) n cs)
     \<and> (\<forall>n \<in> set (or_empty (ar_binding_failure_conditions a)). settled state generation (state = AttachFailed) n cs)"

definition conditions_apart :: "allocation_result \<Rightarrow> allocation_result \<Rightarrow> bool" where
  "conditions_apart a b \<longleftrightarrow>
     set (or_empty (ar_binding_conditions a)) \<inter> set (or_empty (ar_binding_failure_conditions b)) = {}"

lemma report_conditions_settles:
  "conditions_apart a a \<Longrightarrow> result_settled state generation a (report_conditions state generation now a cs)"
  by (auto simp: result_settled_def report_conditions_def conditions_apart_def fold_other fold_settles disjoint_iff)

lemma report_conditions_keeps:
  assumes "conditions_apart a b" "conditions_apart b a" "result_settled state generation b cs"
  shows "result_settled state generation b (report_conditions state generation now a cs)"
proof -
  have "settled state generation (state = Ready) n (report_conditions state generation now a cs)"
    if "n \<in> set (or_empty (ar_binding_conditions b))" for n
    using that assms by (auto simp: result_settled_def report_conditions_def conditions_apart_def fold_other fold_settles disjoint_iff)
  moreover have "settled state generation (state = AttachFailed) n (report_conditions state generation now a cs)"
    if "n \<in> set (or_empty (ar_binding_failure_conditions b))" for n
  proof -
    have "n \<notin> set (or_empty (ar_binding_conditions a))" using that assms(1) by (auto simp: conditions_apart_def)
    with that assms(3) show ?thesis
      by (auto simp: result_settled_def report_conditions_def fold_other fold_settles)
  qed
  ultimately show ?thesis by (simp add: result_settled_def)
qed

lemma report_conditions_same:
  "result_settled state generation a cs \<Longrightarrow> report_conditions state generation now a cs = cs"
  by (simp add: result_settled_def report_conditions_def fold_settled_same)

subsection \<open>The reports of a claim\<close>

definition result_key :: "allocation_result \<Rightarrow> status_key" where
  "result_key a = StatusKey (ar_pool a) (ar_device a) (ar_share_id a)"

definition bound_results :: "allocation_result list \<Rightarrow> allocation_result list" where
  "bound_results results = filter (\<lambda>a. or_empty (ar_binding_conditions a) \<noteq> []) results"

lemma add_reports_bound:
  "fold (add_report state generation now driver statuses) results reports
     = fold (add_report state generation now driver statuses) (bound_results results) reports"
  by (induction results arbitrary: reports) (auto simp: bound_results_def add_report_def)

definition key_report :: "status_key \<Rightarrow> condition list \<Rightarrow> claim_device_status" where
  "key_report key cs = \<lparr>ds_pool_name = sk_pool_name key, ds_device_name = sk_device_name key,
     ds_share_id = sk_share_id key, ds_conditions = Some cs, ds_data = None, ds_network_data = None\<rparr>"

lemma key_report_simps [simp]:
  "status_key_of (key_report key cs) = key" "ds_conditions (key_report key cs) = Some cs"
  "key_report key cs\<lparr>ds_conditions := Some cs'\<rparr> = key_report key cs'"
  by (cases key; simp add: key_report_def status_key_of_def)+

text \<open>The conditions that a result starts from.\<close>

definition first_conditions :: "string \<Rightarrow> device_status list \<Rightarrow> allocation_result \<Rightarrow> condition list" where
  "first_conditions driver statuses a =
     (case find (\<lambda>status. as_driver status = driver \<and> as_pool status = ar_pool a
            \<and> as_device status = ar_device a \<and> as_share_id status = ar_share_id a) statuses of
        None \<Rightarrow> [] | Some status \<Rightarrow> or_empty (as_conditions status))"

lemma first_report_eq: "first_report driver statuses a = key_report (result_key a) (first_conditions driver statuses a)"
  by (simp add: first_report_def key_report_def result_key_def claim_device_status_new_def Let_def first_conditions_def)

lemma lookup_add_report:
  assumes "or_empty (ar_binding_conditions a) \<noteq> []"
  shows "bt_lookup (add_report state generation now driver statuses a reports) k
    = (if k = result_key a
       then let report = (case bt_lookup reports k of Some r \<Rightarrow> r | None \<Rightarrow> first_report driver statuses a)
            in Some (report\<lparr>ds_conditions :=
                 Some (report_conditions state generation now a (or_empty (ds_conditions report)))\<rparr>)
       else bt_lookup reports k)"
  using assms by (simp add: add_report_def Let_def bt_lookup_insert result_key_def)

lemma add_report_ok: "bt_ok reports \<Longrightarrow> bt_ok (add_report state generation now driver statuses a reports)"
  by (simp add: add_report_def Let_def bt_ok_insert)

lemma add_reports_ok: "bt_ok reports \<Longrightarrow> bt_ok (fold (add_report state generation now driver statuses) results reports)"
  by (induction results arbitrary: reports) (simp_all add: add_report_ok)

text \<open>The report of a key after the results so far.\<close>

definition report_inv ::
    "binding_state \<Rightarrow> int option \<Rightarrow> allocation_result list \<Rightarrow> reports \<Rightarrow> status_key \<Rightarrow> bool" where
  "report_inv state generation results reports key \<longleftrightarrow>
     (case bt_lookup reports key of
        None \<Rightarrow> key \<notin> result_key ` set results
      | Some report \<Rightarrow> key \<in> result_key ` set results
          \<and> (\<exists>cs. report = key_report key cs
            \<and> (\<forall>a \<in> set results. result_key a = key \<longrightarrow> result_settled state generation a cs)))"

text \<open>No name is a binding condition and a failure condition of the same device.\<close>

definition results_apart :: "allocation_result list \<Rightarrow> bool" where
  "results_apart results \<longleftrightarrow>
     list_all (\<lambda>a. list_all (\<lambda>b. result_key a \<noteq> result_key b \<or> conditions_apart a b) results) results"

lemma results_apartD:
  "results_apart results \<Longrightarrow> a \<in> set results \<Longrightarrow> b \<in> set results \<Longrightarrow> result_key a = result_key b \<Longrightarrow> conditions_apart a b"
  by (auto simp: results_apart_def list_all_iff)

lemma report_inv_add:
  assumes "or_empty (ar_binding_conditions a) \<noteq> []" "results_apart (results @ [a])"
    and "report_inv state generation results reports key"
  shows "report_inv state generation (results @ [a]) (add_report state generation now driver statuses a reports) key"
proof (cases "key = result_key a")
  case True
  have apart: "conditions_apart a b" "conditions_apart b a" if "b \<in> insert a (set results)" "result_key b = key" for b
    using results_apartD [OF assms(2), of a b] results_apartD [OF assms(2), of b a] that True by auto
  let ?new = "\<lambda>cs. report_conditions state generation now a cs"
  have all: "result_settled state generation b (?new cs)"
    if "\<forall>b \<in> set results. result_key b = key \<longrightarrow> result_settled state generation b cs"
      "b \<in> insert a (set results)" "result_key b = key" for b cs
  proof (cases "b = a")
    case True
    with apart(1) [of a] that(2,3) show ?thesis by (simp add: report_conditions_settles)
  next
    case False
    with that have "result_settled state generation b cs" by blast
    with apart that(2,3) show ?thesis by (intro report_conditions_keeps)
  qed
  show ?thesis
  proof (cases "bt_lookup reports key")
    case None
    with assms(3) have "\<forall>b \<in> set results. result_key b = key \<longrightarrow> result_settled state generation b []"
      by (auto simp: report_inv_def)
    moreover from None assms(3) have none: "result_key b \<noteq> key" if "b \<in> set results" for b
      using that by (auto simp: report_inv_def)
    ultimately show ?thesis
      using all None True by (auto simp: report_inv_def lookup_add_report [OF assms(1)] first_report_eq Let_def)
  next
    case (Some report)
    with assms(3) obtain cs where "report = key_report key cs"
        "\<forall>b \<in> set results. result_key b = key \<longrightarrow> result_settled state generation b cs"
      by (auto simp: report_inv_def)
    with all Some True show ?thesis by (auto simp: report_inv_def lookup_add_report [OF assms(1)] Let_def)
  qed
next
  case False
  with assms(3) show ?thesis by (auto simp: report_inv_def lookup_add_report [OF assms(1)] split: option.splits)
qed

lemma reports_inv:
  assumes "list_all (\<lambda>a. or_empty (ar_binding_conditions a) \<noteq> []) results" "results_apart results"
  shows "report_inv state generation results (fold (add_report state generation now driver statuses) results []) key"
  using assms
proof (induction results rule: rev_induct)
  case Nil
  then show ?case by (simp add: report_inv_def)
next
  case (snoc a results)
  then have "report_inv state generation results (fold (add_report state generation now driver statuses) results []) key"
    by (simp add: results_apart_def list_all_iff)
  with snoc.prems show ?case by (simp add: report_inv_add)
qed

lemma statuses_for_claim_ok:
  assumes "statuses_for_claim state c driver now = Inr reports"
  obtains m where "m = fold (add_report state (cl_generation c) now driver (claim_statuses c))
      (bound_results (driver_results driver c)) []" "reports = map snd m" "bt_ok m"
proof -
  let ?fold = "\<lambda>rs. fold (add_report state (cl_generation c) now driver (claim_statuses c)) rs []"
  obtain results where r: "allocated_results c = Some results"
    and m: "reports = map snd (?fold (filter (\<lambda>a. ar_driver a = driver) results))"
    using assms by (auto simp: statuses_for_claim_def res_simps Let_def simp del: fold_simps split: if_splits)
  have "filter (\<lambda>a. ar_driver a = driver) results = driver_results driver c"
    using r by (simp add: allocated_results_def driver_results_def claim_results_def)
  with m have "reports = map snd (?fold (bound_results (driver_results driver c)))"
    by (simp only: add_reports_bound [of _ _ _ _ _ "driver_results driver c"])
  then show ?thesis using that add_reports_ok [of "[]"] by simp
qed

lemma bound_results_apart: "results_apart results \<Longrightarrow> results_apart (bound_results results)"
  by (auto simp: results_apart_def bound_results_def list_all_iff)

lemma bound_results_bound: "list_all (\<lambda>a. or_empty (ar_binding_conditions a) \<noteq> []) (bound_results results)"
  by (simp add: bound_results_def list_all_iff)

lemma report_with_key:
  assumes "m = fold (add_report state generation now driver statuses) (bound_results results) []"
    and "results_apart results" and "bt_ok m"
  shows "map status_key_of (map snd m) = map fst m" "set (map fst m) = result_key ` set (bound_results results)"
proof -
  note inv = reports_inv [OF bound_results_bound bound_results_apart [OF assms(2)],
      of state generation now driver statuses, folded assms(1)]
  have look: "bt_lookup m k = Some r" if "(k, r) \<in> set m" for k r
    using that bt_ok_distinct [OF assms(3)] by (simp add: bt_lookup_def map_of_eq_Some_iff)
  show "map status_key_of (map snd m) = map fst m"
    unfolding map_map
  proof (rule map_cong [OF refl])
    fix x
    assume "x \<in> set m"
    with look have "bt_lookup m (fst x) = Some (snd x)" by (cases x) simp
    with inv [of "fst x"] show "(status_key_of \<circ> snd) x = fst x" by (auto simp: report_inv_def)
  qed
  have "k \<in> fst ` set m \<longleftrightarrow> k \<in> result_key ` set (bound_results results)" for k
    using inv [of k] by (auto simp: report_inv_def bt_lookup_def map_of_eq_None_iff split: option.splits)
      (metis map_of_eq_None_iff option.distinct(1))+
  then show "set (map fst m) = result_key ` set (bound_results results)" by auto
qed

subsection \<open>Properties\<close>

text \<open>
  C37: the controller reports each device that the claim allocates with binding conditions, once, and no
  other; if no name of a device is both a binding and a failure condition, every binding condition of
  the device is then \<open>True\<close> exactly for the state \<open>ready\<close> and every failure condition exactly for
  \<open>failed\<close>, whatever the claim said before.
\<close>
theorem binding_reports_state:
  assumes "statuses_for_claim state c driver now = Inr reports" and "results_apart (driver_results driver c)"
  shows "distinct (map status_key_of reports)
    \<and> set (map status_key_of reports) = result_key ` set (bound_results (driver_results driver c))
    \<and> list_all (\<lambda>a. list_ex (\<lambda>r. status_key_of r = result_key a
        \<and> list_all (\<lambda>n. condition_status n (or_empty (ds_conditions r))
            = Some (if state = Ready then ''True'' else ''False'')) (or_empty (ar_binding_conditions a))
        \<and> list_all (\<lambda>n. condition_status n (or_empty (ds_conditions r))
            = Some (if state = AttachFailed then ''True'' else ''False'')) (or_empty (ar_binding_failure_conditions a))) reports)
      (bound_results (driver_results driver c))"
proof -
  obtain m where m: "m = fold (add_report state (cl_generation c) now driver (claim_statuses c))
      (bound_results (driver_results driver c)) []" "reports = map snd m" "bt_ok m"
    by (rule statuses_for_claim_ok [OF assms(1)])
  note keys = report_with_key [OF m(1) assms(2) m(3)]
  note inv = reports_inv [OF bound_results_bound bound_results_apart [OF assms(2)],
      of state "cl_generation c" now driver "claim_statuses c", folded m(1)]
  have "\<exists>r \<in> set reports. status_key_of r = result_key a
      \<and> result_settled state (cl_generation c) a (or_empty (ds_conditions r))"
    if "a \<in> set (bound_results (driver_results driver c))" for a
  proof -
    from that inv [of "result_key a"] obtain cs where "bt_lookup m (result_key a) = Some (key_report (result_key a) cs)"
        "result_settled state (cl_generation c) a cs"
      by (auto simp: report_inv_def split: option.splits)
    moreover from this(1) have "key_report (result_key a) cs \<in> set reports"
      unfolding m(2) bt_lookup_def by (force dest: map_of_SomeD)
    ultimately show ?thesis by (intro bexI [of _ "key_report (result_key a) cs"]) simp_all
  qed
  then have "list_all (\<lambda>a. list_ex (\<lambda>r. status_key_of r = result_key a
        \<and> list_all (\<lambda>n. condition_status n (or_empty (ds_conditions r))
            = Some (if state = Ready then ''True'' else ''False'')) (or_empty (ar_binding_conditions a))
        \<and> list_all (\<lambda>n. condition_status n (or_empty (ds_conditions r))
            = Some (if state = AttachFailed then ''True'' else ''False'')) (or_empty (ar_binding_failure_conditions a))) reports)
      (bound_results (driver_results driver c))"
    unfolding list_all_iff list_ex_iff result_settled_def status_text_def [symmetric]
    by (meson settled_status)
  moreover have "distinct (map status_key_of reports)"
    unfolding m(2) keys(1) by (rule bt_ok_distinct [OF m(3)])
  moreover have "set (map status_key_of reports) = result_key ` set (bound_results (driver_results driver c))"
    unfolding m(2) keys(1) by (rule keys(2))
  ultimately show ?thesis by blast
qed

definition bound_claim :: resource_claim where
  "bound_claim = sample_claim ''u1'' [(sample_result ''d.io'' ''w0'')
     \<lparr>ar_binding_conditions := Some [''Attached''], ar_binding_failure_conditions := Some [''AttachFailed'']\<rparr>]"

definition ready_reports :: "claim_device_status list" where
  "ready_reports = projr (statuses_for_claim Ready bound_claim ''d.io'' 100)"

lemma bound_claim_run:
  "statuses_for_claim Ready bound_claim ''d.io'' 100 = Inr ready_reports"
  "results_apart (driver_results ''d.io'' bound_claim)"
  by code_simp+

theorem binding_reports_state_witness:
  "distinct (map status_key_of ready_reports)
    \<and> set (map status_key_of ready_reports) = result_key ` set (bound_results (driver_results ''d.io'' bound_claim))
    \<and> list_all (\<lambda>a. list_ex (\<lambda>r. status_key_of r = result_key a
        \<and> list_all (\<lambda>n. condition_status n (or_empty (ds_conditions r))
            = Some (if Ready = Ready then ''True'' else ''False'')) (or_empty (ar_binding_conditions a))
        \<and> list_all (\<lambda>n. condition_status n (or_empty (ds_conditions r))
            = Some (if Ready = AttachFailed then ''True'' else ''False'')) (or_empty (ar_binding_failure_conditions a))) ready_reports)
      (bound_results (driver_results ''d.io'' bound_claim))"
  by (rule binding_reports_state [OF bound_claim_run])

text \<open>The claim has the conditions of a report among its statuses.\<close>

definition carries :: "string \<Rightarrow> resource_claim \<Rightarrow> claim_device_status \<Rightarrow> bool" where
  "carries driver c r \<longleftrightarrow>
     (case find (\<lambda>s. as_driver s = driver \<and> as_pool s = ds_pool_name r \<and> as_device s = ds_device_name r
            \<and> as_share_id s = ds_share_id r) (claim_statuses c) of
        None \<Rightarrow> False
      | Some s \<Rightarrow> as_conditions s = ds_conditions r)"

lemma carries_first:
  "carries driver c (key_report (result_key a) cs) \<Longrightarrow> first_conditions driver (claim_statuses c) a = cs"
  by (auto simp: carries_def key_report_def result_key_def first_conditions_def split: option.splits)

lemma repeated_lookup:
  assumes "\<forall>a \<in> set results. or_empty (ar_binding_conditions a) \<noteq> []
      \<and> (\<exists>cs. bt_lookup m (result_key a) = Some (key_report (result_key a) cs)
           \<and> result_settled state generation a cs \<and> first_conditions driver statuses a = cs)"
  shows "bt_lookup (fold (add_report state generation now driver statuses) results []) k
    = (if k \<in> result_key ` set results then bt_lookup m k else None)"
  using assms
proof (induction results arbitrary: k rule: rev_induct)
  case Nil
  then show ?case by simp
next
  case (snoc a results)
  let ?prev = "fold (add_report state generation now driver statuses) results []"
  obtain cs where a: "or_empty (ar_binding_conditions a) \<noteq> []"
      "bt_lookup m (result_key a) = Some (key_report (result_key a) cs)"
      "result_settled state generation a cs" "first_conditions driver statuses a = cs"
    using snoc.prems by auto
  have prev: "bt_lookup ?prev k = (if k \<in> result_key ` set results then bt_lookup m k else None)" for k
    using snoc by simp
  have "(case bt_lookup ?prev (result_key a) of Some r \<Rightarrow> r | None \<Rightarrow> first_report driver statuses a)
      = key_report (result_key a) cs"
    using a prev by (auto simp: first_report_eq)
  then have "bt_lookup (add_report state generation now driver statuses a ?prev) k
      = (if k = result_key a then bt_lookup m k else bt_lookup ?prev k)"
    using a(2,3) unfolding lookup_add_report [OF a(1)] by (auto simp: Let_def report_conditions_same)
  then show ?case using prev by auto
qed

text \<open>
  C38: reporting a state again, at any later time, on the claim whose statuses carry the first report
  and whose allocation and generation are the same, gives the same report with the same transition
  times.
\<close>
theorem binding_report_repeats:
  assumes "statuses_for_claim state c driver now = Inr reports" and "results_apart (driver_results driver c)"
    and "claim_allocation c' = claim_allocation c" and "cl_generation c' = cl_generation c"
    and "list_all (carries driver c') reports"
  shows "statuses_for_claim state c' driver later = Inr reports"
proof -
  let ?bound = "bound_results (driver_results driver c)"
  obtain m where m: "m = fold (add_report state (cl_generation c) now driver (claim_statuses c)) ?bound []"
      "reports = map snd m" "bt_ok m"
    by (rule statuses_for_claim_ok [OF assms(1)])
  note inv = reports_inv [OF bound_results_bound bound_results_apart [OF assms(2)],
      of state "cl_generation c" now driver "claim_statuses c", folded m(1)]
  let ?again = "fold (add_report state (cl_generation c') later driver (claim_statuses c')) ?bound []"
  have "\<forall>a \<in> set ?bound. or_empty (ar_binding_conditions a) \<noteq> []
      \<and> (\<exists>cs. bt_lookup m (result_key a) = Some (key_report (result_key a) cs)
           \<and> result_settled state (cl_generation c') a cs \<and> first_conditions driver (claim_statuses c') a = cs)"
  proof (intro ballI conjI)
    fix a
    assume a: "a \<in> set ?bound"
    then show "or_empty (ar_binding_conditions a) \<noteq> []" by (simp add: bound_results_def)
    from a inv [of "result_key a"] obtain cs where cs: "bt_lookup m (result_key a) = Some (key_report (result_key a) cs)"
        "result_settled state (cl_generation c) a cs"
      by (auto simp: report_inv_def split: option.splits)
    then have "key_report (result_key a) cs \<in> set reports"
      unfolding m(2) bt_lookup_def by (force dest: map_of_SomeD)
    with assms(5) have "first_conditions driver (claim_statuses c') a = cs"
      by (auto simp: list_all_iff intro: carries_first)
    with cs assms(4) show "\<exists>cs. bt_lookup m (result_key a) = Some (key_report (result_key a) cs)
        \<and> result_settled state (cl_generation c') a cs \<and> first_conditions driver (claim_statuses c') a = cs"
      by auto
  qed
  from repeated_lookup [OF this] have "bt_lookup ?again k = bt_lookup m k" for k
    using inv [of k] by (auto simp: report_inv_def split: option.splits)
  then have again: "?again = m" using m(3) by (intro bt.entries_ext) (simp_all add: add_reports_ok)
  obtain results where r: "allocated_results c = Some results" "reports \<noteq> []"
    using assms(1) by (auto simp: statuses_for_claim_def res_simps Let_def split: if_splits)
  then have "filter (\<lambda>a. ar_driver a = driver) results = driver_results driver c"
      "allocated_results c' = Some results"
    using assms(3) by (simp_all add: allocated_results_def driver_results_def claim_results_def)
  with r(2) again m(2) show ?thesis
    by (auto simp: statuses_for_claim_def Let_def add_reports_bound [of _ _ _ _ _ "driver_results driver c"])
qed

definition reported_claim :: resource_claim where
  "reported_claim = bound_claim\<lparr>cl_status := Some \<lparr>st_allocation = claim_allocation bound_claim,
     st_devices = Some (map (\<lambda>r. \<lparr>as_driver = ''d.io'', as_pool = ds_pool_name r, as_device = ds_device_name r,
        as_share_id = ds_share_id r, as_conditions = ds_conditions r, as_data = None, as_network_data = None\<rparr>)
       ready_reports)\<rparr>\<rparr>"

theorem binding_report_repeats_witness:
  "statuses_for_claim Ready reported_claim ''d.io'' 200 = Inr ready_reports"
proof (rule binding_report_repeats [OF bound_claim_run])
  show "claim_allocation reported_claim = claim_allocation bound_claim" by code_simp
  show "cl_generation reported_claim = cl_generation bound_claim" by code_simp
  show "list_all (carries ''d.io'' reported_claim) ready_reports" by code_simp
qed

end
