(* ===== verification/Spec2Isabelle.thy ===== *)
theory Spec2Isabelle
  imports Quantity_Properties Slice_Names Example_Plugins Socket_Startup Claim_Preparer
    Device_Status_Properties Claim_Locks Resource_Health
    Dra_Unprepare Dra_Plugin_Properties Example_Properties Example_Runs Binding_Properties
begin

text \<open>
  A verification development for k8s-device-plugin-rs, a Rust framework for the two ways in which a
  node offers devices to Kubernetes: the classic device-plugin API and dynamic resource allocation
  (DRA). Source paths are relative to \<open>src/\<close>.

  \<^bold>\<open>The program.\<close> A \<^emph>\<open>classic plugin\<close> (\<open>lib\<close>) binds a Unix socket, serves the kubelet's
  \<open>ListAndWatch\<close> and \<open>Allocate\<close> calls over a backend, and registers itself with the kubelet, again
  whenever a watch stream ends. A \<^emph>\<open>DRA plugin\<close> (\<open>dra\<close>) is three tasks: a registration server that
  the kubelet's plugin watcher queries, the \<open>DRAPlugin\<close> service, which resolves claims with the API
  server, prepares them with a backend and writes metadata files and CDI specifications to the disk,
  and a publisher, which keeps the \<open>ResourceSlice\<close>s of the node equal to the backend's inventory.
  Beside them are the publisher of claim device statuses, the resource-health stream, the liveness
  probe and the client of pool-status requests. Both kinds share names, paths, devices, inventory and
  the listener (\<open>core\<close>) and Kubernetes quantities (\<open>quantity\<close>).

  \<^bold>\<open>Foundations.\<close>
  \<^item> \<open>Prelude\<close>: results as sums with \<open>res_bind\<close>, \<open>traverse\<close>, \<open>for_each\<close> and the collection
    \<open>res_simps\<close>. \<open>State_Error\<close>: operations on a state that may fail, triples over them and the
    collection \<open>keeps_intros\<close>.
  \<^item> \<open>Rust_String\<close> (UTF-8 byte strings), \<open>Rust_Path\<close>, \<open>Rust_BTree\<close> (sorted association lists with
    the laws of the locale \<open>ordered_map\<close>), \<open>Rust_Io\<close> (I/O errors, durations in nanoseconds).
  \<^item> \<open>Kube\<close>, \<open>Claim_Objects\<close>: API errors and objects. \<open>Disk\<close>: a file system whose calls may each fail.

  \<^bold>\<open>Shared parts.\<close>
  \<^item> \<open>Validation\<close>, \<open>Socket_Name\<close> (64-bit FNV-1a on words), \<open>Core_Types\<close>, \<open>Inventory\<close>,
    \<open>Unix_Socket\<close>: the files of the same names in \<open>core/src\<close>, with \<open>device.rs\<close>, \<open>dra.rs\<close>,
    \<open>health.rs\<close> and \<open>permissions.rs\<close>. The startup of a listener is a program over system calls; it
    runs alone in \<open>Unix_Socket\<close>, and \<open>Socket_Startup\<close> interleaves the programs of any number of
    processes over one path and one lock, as the step relation \<open>host_step\<close>: one owner at most.
  \<^item> \<open>Quantity\<close>: \<open>quantity/src/lib.rs\<close> over the operations of the \<open>bigdecimal\<close> crate, the locale
    \<open>bigdecimal\<close> of \<open>Big_Decimal\<close>, with the instance of \<open>Exact_Decimal\<close>. \<open>Quantity_Grammar\<close> and
    \<open>Quantity_Correct\<close>: the grammar of literals with their values, and that parsing and printing
    follow it. Properties in \<open>Quantity_Properties\<close>.

  \<^bold>\<open>The classic plugin.\<close>
  \<^item> \<open>Device_Plugin\<close>: \<open>lib/src/lib.rs\<close>, \<open>static_plugin.rs\<close> and \<open>registration.rs\<close>: wire conversion,
    the calls of the kubelet, the watch stream as a step function and registration with retries.
    \<open>Device_Plugin_Properties\<close>: allocation in any order of its tasks, which lists a stream sends
    (the first discovery, then only changes), the attempts and delays of registration, the locale
    \<open>allocator\<close>.
  \<^item> \<open>Plugin_Life\<close>: \<open>DevicePlugin::run\<close>, its server and its streams as one step relation over the
    \<open>Notify\<close> they share. \<open>Example_Plugins\<close>: the plugins of \<open>example/\<close> and \<open>lib/examples/\<close>.

  \<^bold>\<open>The DRA plugin.\<close>
  \<^item> \<open>Slice_Wire\<close>: \<open>dra/src/resourceslice.rs\<close> (conversion) and \<open>counters.rs\<close>. \<open>Slice_Publisher\<close>: one
    publication as a function of the API server, with the history of its requests. \<open>Slice_Limits\<close>,
    \<open>Slice_Reconcile\<close>, \<open>Slice_Names\<close>, \<open>Slice_Properties\<close>: the limits of the API, which slices are
    created, replaced and deleted, under which names, and in which order.
  \<^item> \<open>Claim_Resolver\<close>, \<open>Claim_Resolution\<close>: \<open>claim.rs\<close>, with the concurrent batch as a step relation
    that the stream of results refines: a batch is answered completely and in request order,
    whichever read ends next.
  \<^item> \<open>Metadata\<close>, \<open>Metadata_Store\<close>: \<open>metadata.rs\<close>, \<open>metadata/wire.rs\<close>, \<open>metadata/store.rs\<close> and
    \<open>cdi.rs\<close>. \<open>Metadata_Files\<close>, \<open>Metadata_Safety\<close>, \<open>Metadata_Cleanup\<close>, \<open>Metadata_Plan\<close>,
    \<open>Metadata_Properties\<close>: what every operation leaves alone, that specifications appear last and the
    journal goes last whichever calls fail, and that the journal of a plan is accepted by cleanup.
  \<^item> \<open>Dra_Service\<close>: \<open>service.rs\<close>. \<open>Dra_Service_Properties\<close> and \<open>Dra_Unprepare\<close>: every claim of a
    call is answered, and the answer says what is on the disk.
    \<open>Claim_Locks\<close>: the locks that separate calls on one claim, in every interleaving.
  \<^item> \<open>Claim_Preparer\<close>: the contract of a backend as the locales \<open>claim_preparer\<close>,
    \<open>independent_preparer\<close>, \<open>default_preparer\<close>, \<open>backend_contract\<close> and \<open>independent_backend\<close>,
    interpreted on the example drivers, and that the answer of a claim is its own.
  \<^item> \<open>Dra_Registration\<close>: \<open>registration.rs\<close>, \<open>health.rs\<close> and the start of both servers.
    \<open>Dra_Plugin\<close>, \<open>Dra_Plugin_Properties\<close>: \<open>lib.rs\<close>, how a plugin is built under its backend's name,
    what the probe checks of whatever listens on a node, and the three tasks from start to end:
    \<open>run\<close> may wait for ever while all of them run, and surely returns once one has ended.
  \<^item> \<open>Device_Status\<close>, \<open>Device_Status_Properties\<close>: \<open>device_status.rs\<close>. \<open>Resource_Health\<close>:
    \<open>resource_health.rs\<close>. \<open>Pool_Status\<close>: \<open>pool_status.rs\<close>.
  \<^item> \<open>Example_Drivers\<close>, \<open>Example_Properties\<close>: \<open>minimal_driver.rs\<close> and \<open>accelerator_pair_driver.rs\<close>
    of \<open>dra/examples\<close>; \<open>Binding_Controller\<close>, \<open>Binding_Properties\<close>: \<open>binding_controller.rs\<close>;
    \<open>Example_Runs\<close>: the remaining examples.

  \<^bold>\<open>How state and effects are modelled.\<close> A call of a library or of the system is a function of the
  call that the model is given: the answers of the API server (\<open>api\<close>, \<open>ce_answers\<close>), the operating
  system (\<open>os\<close>, \<open>socket_env\<close>), the JSON codec (\<open>codec\<close>), \<open>bigdecimal\<close> and the \<open>Debug\<close> text of
  strings. Requests that matter are recorded in order. Concurrent parts are step relations
  (\<open>batch_step\<close>, \<open>lock_step\<close>, \<open>health_step\<close>, \<open>run_step\<close>, \<open>life_step\<close>, \<open>host_step\<close>) or take the order in which
  tasks finish as an argument; a panic is \<open>None\<close> or an error of its own.

  \<^bold>\<open>Hypotheses about code outside the repository.\<close> \<open>bigdecimal\<close>: exact arithmetic of the crate, with
  the instance \<open>exact_decimal\<close>. \<open>honest\<close>: the operating system says "not found" only of what is not
  there. \<open>tree_ok\<close>: every file lies in a directory. A codec reads back the journal it wrote.
  \<open>os_answer\<close>: what a system may answer to the calls of a startup (exclusive locks, bind, connect,
  unlink). \<open>run_batch\<close>: what \<open>buffer_unordered\<close> documents, with any order of the results.

  \<^bold>\<open>Bounds.\<close> There is no fuel. Loops of the program are functions with termination proofs: the
  retries by the attempts left, waits by the time left, scanners by the length of the text. Words are
  used where the program wraps (FNV-1a); other integers carry their ranges where they are checked.

  \<^bold>\<open>Not modelled.\<close> The gRPC and HTTP transports, TLS and task scheduling of the libraries; logging
  and metrics exporters; sleeping other than as a value; cancellation of the process-lifetime futures,
  which the documentation excludes; interleaving of the file operations of different claims within
  one call, which work on different directories; code that is generated (\<open>proto\<close>) or only forwards
  (\<open>Arc\<close> delegation, \<open>ext.rs\<close>, re-exports, \<open>From\<close> impls that wrap a constructor); writing the CDI
  files of the example drivers; the mocks of \<open>test/\<close>, whose scripts are values of the arguments
  above; and Windows paths.
\<close>

end
